(* ===== verification/Prelude.thy ===== *)
theory Prelude
  imports Main "HOL-Library.State_Monad" "HOL-Library.AList" "HOL-Library.Sublist"
    "HOL-Library.Word"
begin

text \<open>
  What the component theories share: the names of the model's basic types, reading a Go map, the
  state monad in which every operation with an effect is written, and the simplification rules that
  run such an operation on a state.

  \<^item> A Go \<^verbatim>\<open>string\<close> or \<^verbatim>\<open>[]byte\<close> is a list of characters of eight bits.
  \<^item> A Go \<^verbatim>\<open>map[string]string\<close> (or \<^verbatim>\<open>map[string][]byte\<close>) is an association list; the code
    never tells a nil map from an empty one except through its length.
  \<^item> An operation that calls a service is a value of type \<open>('w, 'a) state\<close>: the world it starts in
    gives its result and the world it leaves.
\<close>

section \<open>Maps\<close>

type_synonym smap = "(string \<times> string) list"

text \<open>Reading \<^verbatim>\<open>m[k]\<close> yields the zero value where the key is missing.\<close>

definition smap_get :: "smap \<Rightarrow> string \<Rightarrow> string" where
  "smap_get m k = (case map_of m k of None \<Rightarrow> '''' | Some v \<Rightarrow> v)"

lemma smap_get_Nil [simp]: "smap_get [] k = ''''"
  by (simp add: smap_get_def)

lemma smap_get_Cons [simp]: "smap_get ((k', v) # m) k = (if k' = k then v else smap_get m k)"
  by (simp add: smap_get_def)

lemma smap_get_update [simp]:
  "smap_get (AList.update k v m) k' = (if k' = k then v else smap_get m k')"
  by (simp add: smap_get_def update_conv)

section \<open>Operations in the state monad\<close>

named_theorems run_simps \<open>rules that run an operation on a state\<close>

abbreviation ret :: "'a \<Rightarrow> ('s, 'a) state" where
  "ret \<equiv> State_Monad.return"

lemma run_if [run_simps]:
  "run_state (if b then x else y) s = (if b then run_state x s else run_state y s)"
  by simp

lemma run_sum [run_simps]:
  "run_state (case e of Inl x \<Rightarrow> f x | Inr y \<Rightarrow> g y) s =
     (case e of Inl x \<Rightarrow> run_state (f x) s | Inr y \<Rightarrow> run_state (g y) s)"
  by (cases e) simp_all

lemma run_option [run_simps]:
  "run_state (case e of None \<Rightarrow> x | Some y \<Rightarrow> g y) s =
     (case e of None \<Rightarrow> run_state x s | Some y \<Rightarrow> run_state (g y) s)"
  by (cases e) simp_all

lemma run_prod [run_simps]:
  "run_state (case p of (x, y) \<Rightarrow> f x y) s = (case p of (x, y) \<Rightarrow> run_state (f x y) s)"
  by (cases p) simp

lemma run_let [run_simps]:
  "run_state (let x = e in f x) s = (let x = e in run_state (f x) s)"
  by (simp add: Let_def)

text \<open>A loop that runs an effect for each element and discards its results.\<close>

fun for_each :: "('a \<Rightarrow> ('s, unit) state) \<Rightarrow> 'a list \<Rightarrow> ('s, unit) state" where
  "for_each f [] = ret ()"
| "for_each f (x # xs) = do { _ \<leftarrow> f x; for_each f xs }"

text \<open>Ignoring a result: Go's \<^verbatim>\<open>_, _ = f()\<close>.\<close>

definition discard :: "('s, 'a) state \<Rightarrow> ('s, unit) state" where
  "discard m = do { _ \<leftarrow> m; ret () }"

lemma run_discard [run_simps]: "run_state (discard m) s = ((), snd (run_state m s))"
  by (simp add: discard_def split: prod.splits)

abbreviation result_of :: "('s, 'a) state \<Rightarrow> 's \<Rightarrow> 'a" where
  "result_of m s \<equiv> fst (run_state m s)"

abbreviation world_after :: "('s, 'a) state \<Rightarrow> 's \<Rightarrow> 's" where
  "world_after m s \<equiv> snd (run_state m s)"

section \<open>Results that may be an error\<close>

lemma case_sum_eq_Inr:
  "(case r of Inl e \<Rightarrow> Inl (f e) | Inr x \<Rightarrow> g x) = Inr y \<longleftrightarrow> (\<exists>x. r = Inr x \<and> g x = Inr y)"
  by (cases r) simp_all

lemma set_takeWhile_subset: "set (takeWhile P xs) \<subseteq> set xs"
  by (meson set_takeWhileD subsetI)

section \<open>What an operation keeps\<close>

text \<open>\<open>keeps J m Q\<close>: the operation preserves \<open>J\<close>, and run where \<open>J\<close> holds its result satisfies \<open>Q\<close>.\<close>

named_theorems keeps_rules \<open>introduction rules for \<open>keeps\<close>, one for each way to build an operation\<close>

definition keeps :: "('s \<Rightarrow> bool) \<Rightarrow> ('s, 'a) state \<Rightarrow> ('a \<Rightarrow> bool) \<Rightarrow> bool" where
  "keeps J m Q \<longleftrightarrow> (\<forall>s. J s \<longrightarrow> J (world_after m s) \<and> Q (result_of m s))"

lemma keepsD: "keeps J m Q \<Longrightarrow> J s \<Longrightarrow> J (world_after m s) \<and> Q (result_of m s)"
  by (simp add: keeps_def)

lemma keeps_mono: "keeps J m Q \<Longrightarrow> (\<And>x. Q x \<Longrightarrow> R x) \<Longrightarrow> keeps J m R"
  by (simp add: keeps_def)

lemma keeps_ret [keeps_rules]: "Q x \<Longrightarrow> keeps J (ret x) Q"
  by (simp add: keeps_def)

lemma keeps_bind:
  "keeps J m R \<Longrightarrow> (\<And>x. R x \<Longrightarrow> keeps J (f x) Q) \<Longrightarrow> keeps J (do { x \<leftarrow> m; f x }) Q"
  by (auto simp: keeps_def split: prod.split)

lemma keeps_bind_any [keeps_rules]:
  "keeps J m (\<lambda>_. True) \<Longrightarrow> (\<And>x. keeps J (f x) Q) \<Longrightarrow> keeps J (do { x \<leftarrow> m; f x }) Q"
  by (rule keeps_bind)

lemma keeps_if [keeps_rules]:
  "(b \<Longrightarrow> keeps J m Q) \<Longrightarrow> (\<not> b \<Longrightarrow> keeps J m' Q) \<Longrightarrow> keeps J (if b then m else m') Q"
  by simp

lemma keeps_sum [keeps_rules]:
  "(\<And>x. r = Inl x \<Longrightarrow> keeps J (f x) Q) \<Longrightarrow> (\<And>y. r = Inr y \<Longrightarrow> keeps J (g y) Q) \<Longrightarrow>
     keeps J (case r of Inl x \<Rightarrow> f x | Inr y \<Rightarrow> g y) Q"
  by (cases r) simp_all

lemma keeps_option [keeps_rules]:
  "(r = None \<Longrightarrow> keeps J m Q) \<Longrightarrow> (\<And>y. r = Some y \<Longrightarrow> keeps J (g y) Q) \<Longrightarrow>
     keeps J (case r of None \<Rightarrow> m | Some y \<Rightarrow> g y) Q"
  by (cases r) simp_all

lemma keeps_prod [keeps_rules]:
  "(\<And>x y. r = (x, y) \<Longrightarrow> keeps J (f x y) Q) \<Longrightarrow> keeps J (case r of (x, y) \<Rightarrow> f x y) Q"
  by (cases r) simp_all

lemma keeps_let [keeps_rules]: "keeps J (f x) Q \<Longrightarrow> keeps J (let y = x in f y) Q"
  by simp

lemma keeps_discard [keeps_rules]: "keeps J m (\<lambda>_. True) \<Longrightarrow> keeps J (discard m) (\<lambda>_. True)"
  by (simp add: keeps_def run_discard)

lemma keeps_for_each [keeps_rules]:
  "(\<And>x. x \<in> set xs \<Longrightarrow> keeps J (f x) (\<lambda>_. True)) \<Longrightarrow> keeps J (for_each f xs) (\<lambda>_. True)"
  by (induction xs) (auto intro!: keeps_rules)

end
