(* ===== verification/Go_Strings.thy ===== *)
theory Go_Strings
  imports Unicode_Case
begin

text \<open>
  The parts of Go's \<^verbatim>\<open>strings\<close>, \<^verbatim>\<open>strconv\<close> and \<^verbatim>\<open>unicode/utf8\<close> packages that the operator uses,
  on byte strings: decoding and encoding runes, \<^verbatim>\<open>TrimSpace\<close>, \<^verbatim>\<open>Trim\<close>, \<^verbatim>\<open>ToLower\<close>, \<^verbatim>\<open>ToUpper\<close>,
  \<^verbatim>\<open>EqualFold\<close>, \<^verbatim>\<open>Contains\<close>, \<^verbatim>\<open>Map\<close>, slices of a string, \<^verbatim>\<open>ParseBool\<close> and the \<^verbatim>\<open>%q\<close> verb.
\<close>

abbreviation byte :: "char \<Rightarrow> nat" where
  "byte c \<equiv> of_char c"

abbreviation chr :: "nat \<Rightarrow> char" where
  "chr n \<equiv> char_of n"

definition is_ascii :: "string \<Rightarrow> bool" where
  "is_ascii s = list_all (\<lambda>c. byte c < 128) s"

section \<open>Runes\<close>

abbreviation RuneError :: nat where
  "RuneError \<equiv> 0xFFFD"

definition cont :: "nat \<Rightarrow> bool" where
  "cont b \<longleftrightarrow> 0x80 \<le> b \<and> b \<le> 0xBF"

text \<open>
  \<^verbatim>\<open>utf8.DecodeRuneInString\<close>: the first code point of a non-empty byte sequence and the number of
  bytes it takes; an ill-formed sequence gives \<^verbatim>\<open>RuneError\<close> and one byte.
\<close>

fun decode_rune :: "nat list \<Rightarrow> nat \<times> nat" where
  "decode_rune [] = (RuneError, 0)"
| "decode_rune (b0 # bs) =
     (if b0 < 0x80 then (b0, 1)
      else if 0xC2 \<le> b0 \<and> b0 \<le> 0xDF then
        (case bs of b1 # _ \<Rightarrow> if cont b1 then ((b0 - 0xC0) * 64 + (b1 - 0x80), 2) else (RuneError, 1)
         | _ \<Rightarrow> (RuneError, 1))
      else if 0xE0 \<le> b0 \<and> b0 \<le> 0xEF then
        (case bs of b1 # b2 # _ \<Rightarrow>
           if cont b1 \<and> cont b2 \<and> (b0 = 0xE0 \<longrightarrow> 0xA0 \<le> b1) \<and> (b0 = 0xED \<longrightarrow> b1 \<le> 0x9F)
           then ((b0 - 0xE0) * 4096 + (b1 - 0x80) * 64 + (b2 - 0x80), 3) else (RuneError, 1)
         | _ \<Rightarrow> (RuneError, 1))
      else if 0xF0 \<le> b0 \<and> b0 \<le> 0xF4 then
        (case bs of b1 # b2 # b3 # _ \<Rightarrow>
           if cont b1 \<and> cont b2 \<and> cont b3 \<and> (b0 = 0xF0 \<longrightarrow> 0x90 \<le> b1) \<and> (b0 = 0xF4 \<longrightarrow> b1 \<le> 0x8F)
           then ((b0 - 0xF0) * 262144 + (b1 - 0x80) * 4096 + (b2 - 0x80) * 64 + (b3 - 0x80), 4)
           else (RuneError, 1)
         | _ \<Rightarrow> (RuneError, 1))
      else (RuneError, 1))"

lemma decode_rune_size: "bs \<noteq> [] \<Longrightarrow> 0 < snd (decode_rune bs)"
  by (cases bs) (auto split: list.splits)

text \<open>The conversion \<^verbatim>\<open>[]rune(s)\<close>.\<close>

function runes_of :: "nat list \<Rightarrow> nat list" where
  "runes_of bs =
     (if bs = [] then []
      else (let (r, n) = decode_rune bs in r # runes_of (drop n bs)))"
  by pat_completeness auto
termination
proof (relation "measure length")
  fix bs :: "nat list" and p r n
  assume "bs \<noteq> []" and "p = decode_rune bs" and "(r, n) = p"
  with decode_rune_size [of bs] show "(drop n bs, bs) \<in> measure length"
    by (metis diff_less in_measure length_drop length_greater_0_conv snd_conv)
qed simp

declare runes_of.simps [simp del]

definition runes :: "string \<Rightarrow> nat list" where
  "runes s = runes_of (map of_char s)"

text \<open>\<^verbatim>\<open>utf8.AppendRune\<close> and the conversion \<^verbatim>\<open>string(rs)\<close>.\<close>

definition encode_rune :: "nat \<Rightarrow> string" where
  "encode_rune r =
     (if r < 0x80 then [chr r]
      else if r < 0x800 then [chr (0xC0 + r div 64), chr (0x80 + r mod 64)]
      else if r < 0x10000 \<and> \<not> (0xD800 \<le> r \<and> r \<le> 0xDFFF) then
        [chr (0xE0 + r div 4096), chr (0x80 + r div 64 mod 64), chr (0x80 + r mod 64)]
      else if 0x10000 \<le> r \<and> r \<le> 0x10FFFF then
        [chr (0xF0 + r div 262144), chr (0x80 + r div 4096 mod 64), chr (0x80 + r div 64 mod 64),
         chr (0x80 + r mod 64)]
      else [chr 0xEF, chr 0xBF, chr 0xBD])"

definition string_of_runes :: "nat list \<Rightarrow> string" where
  "string_of_runes rs = concat (map encode_rune rs)"

text \<open>\<^verbatim>\<open>strings.Map\<close>, for a mapping that drops no rune.\<close>

definition map_runes :: "(nat \<Rightarrow> nat) \<Rightarrow> string \<Rightarrow> string" where
  "map_runes f s = string_of_runes (map f (runes s))"

lemma runes_of_Nil [simp]: "runes_of [] = []"
  by (simp add: runes_of.simps)

lemma runes_of_ascii_Cons [simp]: "b < 0x80 \<Longrightarrow> runes_of (b # bs) = b # runes_of bs"
  by (subst runes_of.simps) simp

lemma runes_ascii: "is_ascii s \<Longrightarrow> runes s = map of_char s"
  by (induction s) (simp_all add: runes_def is_ascii_def)

lemma map_runes_ascii:
  assumes "is_ascii s" and "\<And>r. r < 128 \<Longrightarrow> f r < 128"
  shows "map_runes f s = map (\<lambda>c. chr (f (byte c))) s"
  using assms
  by (induction s)
    (auto simp: map_runes_def string_of_runes_def runes_def is_ascii_def encode_rune_def)

section \<open>Case\<close>

definition ascii_lower :: "char \<Rightarrow> char" where
  "ascii_lower c = chr (unicode_to_lower (byte c))"

definition ascii_upper :: "char \<Rightarrow> char" where
  "ascii_upper c = chr (unicode_to_upper (byte c))"

definition to_lower :: "string \<Rightarrow> string" where
  "to_lower s = (if is_ascii s then map ascii_lower s else map_runes unicode_to_lower s)"

definition to_upper :: "string \<Rightarrow> string" where
  "to_upper s = (if is_ascii s then map ascii_upper s else map_runes unicode_to_upper s)"

text \<open>
  \<^verbatim>\<open>strings.EqualFold(s, t)\<close> for a constant \<open>t\<close> of ASCII letters, which is how the code calls it. Of
  the runes beyond ASCII only the long s and the Kelvin sign fold to an ASCII letter.
\<close>

definition fold_rune :: "nat \<Rightarrow> nat" where
  "fold_rune r = (if r = 0x17F then 115 else if r = 0x212A then 107
     else if 65 \<le> r \<and> r \<le> 90 then r + 32 else r)"

definition equal_fold :: "string \<Rightarrow> string \<Rightarrow> bool" where
  "equal_fold s t \<longleftrightarrow> map fold_rune (runes s) = map fold_rune (runes t)"

section \<open>Trimming, searching, slicing\<close>

text \<open>Drop the words of \<open>ws\<close> from the front of a string for as long as it starts with one.\<close>

function strip :: "string list \<Rightarrow> string \<Rightarrow> string" where
  "strip ws s = (case find (\<lambda>w. w \<noteq> [] \<and> prefix w s) ws of
     None \<Rightarrow> s | Some w \<Rightarrow> strip ws (drop (length w) s))"
  by pat_completeness auto
termination
  by (relation "measure (\<lambda>(ws, s). length s)") (auto simp: find_Some_iff prefix_def)

declare strip.simps [simp del]

text \<open>The UTF-8 encodings of the runes for which \<^verbatim>\<open>unicode.IsSpace\<close> holds.\<close>

definition spaces :: "string list" where
  "spaces = map (map chr)
     ([[9], [10], [11], [12], [13], [32], [0xC2, 0x85], [0xC2, 0xA0], [0xE1, 0x9A, 0x80]] @
      map (\<lambda>b. [0xE2, 0x80, b])
        [0x80, 0x81, 0x82, 0x83, 0x84, 0x85, 0x86, 0x87, 0x88, 0x89, 0x8A, 0xA8, 0xA9, 0xAF] @
      [[0xE2, 0x81, 0x9F], [0xE3, 0x80, 0x80]])"

definition trim_words :: "string list \<Rightarrow> string \<Rightarrow> string" where
  "trim_words ws s = rev (strip (map rev ws) (rev (strip ws s)))"

definition trim_space :: "string \<Rightarrow> string" where
  "trim_space s = trim_words spaces s"

text \<open>\<^verbatim>\<open>strings.Trim(s, "-")\<close>.\<close>

definition trim_char :: "char \<Rightarrow> string \<Rightarrow> string" where
  "trim_char c s = trim_words [[c]] s"

text \<open>\<^verbatim>\<open>strings.Contains(s, sub)\<close>.\<close>

definition contains :: "string \<Rightarrow> string \<Rightarrow> bool" where
  "contains s sub = sublist sub s"

section \<open>strconv\<close>

definition parse_bool :: "string \<Rightarrow> bool option" where
  "parse_bool s =
     (if s \<in> set [''1'', ''t'', ''T'', ''TRUE'', ''true'', ''True''] then Some True
      else if s \<in> set [''0'', ''f'', ''F'', ''FALSE'', ''false'', ''False''] then Some False
      else None)"

definition hex_digit :: "nat \<Rightarrow> char" where
  "hex_digit n = (if n < 10 then chr (48 + n) else chr (87 + n))"

definition hex_byte :: "nat \<Rightarrow> string" where
  "hex_byte n = [hex_digit (n div 16), hex_digit (n mod 16)]"

text \<open>
  The verb \<^verbatim>\<open>%q\<close>. A control byte is escaped as Go does; a well-formed rune beyond ASCII is taken as
  printable, which leaves out the few that Go would escape.
\<close>

definition quote_byte :: "char \<Rightarrow> string" where
  "quote_byte c =
     (let n = byte c in
      if n = 34 then [chr 92, chr 34] else if n = 92 then [chr 92, chr 92]
      else if n = 7 then [chr 92, CHR ''a''] else if n = 8 then [chr 92, CHR ''b'']
      else if n = 12 then [chr 92, CHR ''f''] else if n = 10 then [chr 92, CHR ''n'']
      else if n = 13 then [chr 92, CHR ''r''] else if n = 9 then [chr 92, CHR ''t'']
      else if n = 11 then [chr 92, CHR ''v'']
      else if n < 32 \<or> n = 127 then [chr 92, CHR ''x''] @ hex_byte n
      else [c])"

definition quote :: "string \<Rightarrow> string" where
  "quote s = [chr 34] @ concat (map quote_byte s) @ [chr 34]"

section \<open>Laws of trimming\<close>

lemma strip_stable: "(\<And>w. w \<in> set ws \<Longrightarrow> w \<noteq> [] \<Longrightarrow> \<not> prefix w s) \<Longrightarrow> strip ws s = s"
  by (subst strip.simps) (auto simp: find_None_iff split: option.splits dest!: find_Some_iff [THEN iffD1])

lemma strip_no_prefix: "w \<in> set ws \<Longrightarrow> w \<noteq> [] \<Longrightarrow> \<not> prefix w (strip ws s)"
proof (induction ws s rule: strip.induct)
  case (1 ws s)
  show ?case
  proof (cases "find (\<lambda>w. w \<noteq> [] \<and> prefix w s) ws")
    case None
    then have "strip ws s = s" by (subst strip.simps) simp
    with None "1.prems" show ?thesis by (auto simp: find_None_iff)
  next
    case (Some v)
    with "1.IH" [OF Some] "1.prems" show ?thesis by (subst strip.simps) simp
  qed
qed

lemma suffix_strip: "suffix (strip ws s) s"
proof (induction ws s rule: strip.induct)
  case (1 ws s)
  show ?case
  proof (cases "find (\<lambda>w. w \<noteq> [] \<and> prefix w s) ws")
    case None
    then show ?thesis by (subst strip.simps) simp
  next
    case (Some v)
    with "1.IH" [OF Some] show ?thesis
      by (subst strip.simps) (auto intro: suffix_order.trans suffix_drop)
  qed
qed

lemma prefix_trim_words: "prefix (trim_words ws s) (strip ws s)"
  using suffix_strip [of "map rev ws" "rev (strip ws s)"]
  by (simp add: trim_words_def suffix_to_prefix)

lemma trim_words_no_prefix: "w \<in> set ws \<Longrightarrow> w \<noteq> [] \<Longrightarrow> \<not> prefix w (trim_words ws s)"
  using strip_no_prefix prefix_trim_words prefix_order.trans by blast

lemma trim_words_no_suffix: "w \<in> set ws \<Longrightarrow> w \<noteq> [] \<Longrightarrow> \<not> suffix w (trim_words ws s)"
  using strip_no_prefix [of "rev w" "map rev ws" "rev (strip ws s)"]
  by (simp add: trim_words_def suffix_to_prefix)

lemma trim_words_stable:
  assumes "\<And>w. w \<in> set ws \<Longrightarrow> w \<noteq> [] \<Longrightarrow> \<not> prefix w s \<and> \<not> suffix w s"
  shows "trim_words ws s = s"
proof -
  have "strip ws s = s" using assms by (intro strip_stable) blast
  moreover have "strip (map rev ws) (rev s) = rev s"
    using assms by (intro strip_stable) (auto simp: suffix_to_prefix)
  ultimately show ?thesis by (simp add: trim_words_def)
qed

lemma trim_words_idem [simp]: "trim_words ws (trim_words ws s) = trim_words ws s"
  by (rule trim_words_stable) (simp add: trim_words_no_prefix trim_words_no_suffix)

lemma trim_words_Nil [simp]: "trim_words ws [] = []"
  by (rule trim_words_stable) simp

lemma length_trim_words: "length (trim_words ws s) \<le> length s"
  using prefix_length_le [OF prefix_trim_words] suffix_length_le [OF suffix_strip] le_trans
  by blast

lemma set_trim_words: "set (trim_words ws s) \<subseteq> set s"
  using set_mono_prefix [OF prefix_trim_words] set_mono_suffix [OF suffix_strip] by blast

lemma trim_space_idem [simp]: "trim_space (trim_space s) = trim_space s"
  by (simp add: trim_space_def)

lemma trim_space_Nil [simp]: "trim_space [] = []"
  by (simp add: trim_space_def)

text \<open>What is trimmed away entirely starts with one of the words; so a prefix of a trimmed string is not.\<close>

lemma strip_eq_Nil_suffix:
  "strip ws s = [] \<Longrightarrow> s \<noteq> [] \<Longrightarrow> \<exists>w \<in> set ws. w \<noteq> [] \<and> suffix w s"
proof (induction ws s rule: strip.induct)
  case (1 ws s)
  show ?case
  proof (cases "find (\<lambda>w. w \<noteq> [] \<and> prefix w s) ws")
    case None
    then have "strip ws s = s" by (subst strip.simps) simp
    with "1.prems" show ?thesis by simp
  next
    case (Some v)
    then have v: "v \<in> set ws" "v \<noteq> []" "prefix v s" by (auto simp: find_Some_iff)
    have rest: "strip ws (drop (length v) s) = []" using "1.prems"(1) Some by (subst (asm) strip.simps) simp
    show ?thesis
    proof (cases "drop (length v) s = []")
      case True
      with v(3) have "s = v" by (auto simp: prefix_def)
      with v show ?thesis by blast
    next
      case False
      with "1.IH" [OF Some rest] obtain w where "w \<in> set ws" "w \<noteq> []" "suffix w (drop (length v) s)" by blast
      then show ?thesis using suffix_drop suffix_order.trans by blast
    qed
  qed
qed

lemma trim_words_eq_Nil_prefix:
  assumes "trim_words ws s = []" and "s \<noteq> []"
  shows "\<exists>w \<in> set ws. w \<noteq> [] \<and> prefix w s"
proof (cases "strip ws s = s")
  case True
  with assms have "strip (map rev ws) (rev s) = []" "rev s \<noteq> []" by (simp_all add: trim_words_def)
  from strip_eq_Nil_suffix [OF this] show ?thesis by (auto simp: suffix_to_prefix)
next
  case False
  then show ?thesis using strip_stable [of ws s] by blast
qed

lemma trim_space_prefix:
  assumes "trim_space s = s" and "prefix p s" and "p \<noteq> []"
  shows "trim_space p \<noteq> []"
proof
  assume "trim_space p = []"
  with assms(3) obtain w where w: "w \<in> set spaces" "w \<noteq> []" "prefix w p"
    using trim_words_eq_Nil_prefix unfolding trim_space_def by blast
  then have "prefix w (trim_words spaces s)"
    using assms(1,2) prefix_order.trans unfolding trim_space_def by metis
  with w show False using trim_words_no_prefix by blast
qed

text \<open>A string that starts and ends with a visible ASCII character is not trimmed.\<close>

definition graphic :: "char \<Rightarrow> bool" where
  "graphic c \<longleftrightarrow> 33 \<le> byte c \<and> byte c \<le> 126"

lemma spaces_not_graphic: "list_all (\<lambda>w. w \<noteq> [] \<and> \<not> graphic (hd w) \<and> \<not> graphic (last w)) spaces"
  by (simp add: spaces_def graphic_def)

lemma prefix_hd: "prefix w s \<Longrightarrow> w \<noteq> [] \<Longrightarrow> hd w = hd s"
  by (auto simp: prefix_def)

lemma suffix_last: "suffix w s \<Longrightarrow> w \<noteq> [] \<Longrightarrow> last w = last s"
  by (auto simp: suffix_def)

lemma trim_space_graphic:
  assumes "graphic (hd s)" and "graphic (last s)"
  shows "trim_space s = s"
  unfolding trim_space_def
proof (rule trim_words_stable)
  fix w
  assume "w \<in> set spaces" and "w \<noteq> []"
  then have "\<not> graphic (hd w)" and "\<not> graphic (last w)"
    using spaces_not_graphic by (simp_all add: list_all_iff)
  with assms \<open>w \<noteq> []\<close> show "\<not> prefix w s \<and> \<not> suffix w s"
    using prefix_hd [of w s] suffix_last [of w s] by auto
qed

section \<open>Laws of lowering\<close>

definition is_upper :: "char \<Rightarrow> bool" where
  "is_upper c \<longleftrightarrow> 65 \<le> byte c \<and> byte c \<le> 90"

lemma byte_less: "byte c < 256"
  by simp

lemma byte_ascii_lower:
  "byte c < 128 \<Longrightarrow> byte (ascii_lower c) = (if is_upper c then byte c + 32 else byte c)"
  by (simp add: ascii_lower_def unicode_to_lower_def is_upper_def)

lemma length_to_lower_ascii: "is_ascii s \<Longrightarrow> length (to_lower s) = length s"
  by (simp add: to_lower_def)

lemma is_ascii_to_lower: "is_ascii s \<Longrightarrow> is_ascii (to_lower s)"
  by (auto simp: to_lower_def is_ascii_def list_all_iff byte_ascii_lower is_upper_def)

lemma to_lower_unchanged:
  assumes "is_ascii s" and "list_all (\<lambda>c. \<not> is_upper c) s"
  shows "to_lower s = s"
proof -
  have "map ascii_lower s = map id s"
    using assms
    by (intro map_cong)
      (auto simp: is_ascii_def list_all_iff is_upper_def ascii_lower_def unicode_to_lower_def)
  with assms show ?thesis by (simp add: to_lower_def)
qed

lemma encode_rune_not_upper:
  "r < 65 \<or> 90 < r \<Longrightarrow> c \<in> set (encode_rune r) \<Longrightarrow> \<not> is_upper c"
  by (auto simp: encode_rune_def is_upper_def split: if_splits)

lemma to_lower_no_upper: "c \<in> set (to_lower s) \<Longrightarrow> \<not> is_upper c"
proof (cases "is_ascii s")
  case True
  assume "c \<in> set (to_lower s)"
  with True obtain d where "c = ascii_lower d" and "byte d < 128"
    by (auto simp: to_lower_def is_ascii_def list_all_iff)
  then show ?thesis by (auto simp: is_upper_def byte_ascii_lower split: if_splits)
next
  case False
  assume "c \<in> set (to_lower s)"
  with False obtain r where "c \<in> set (encode_rune (unicode_to_lower r))"
    by (auto simp: to_lower_def map_runes_def string_of_runes_def)
  then show ?thesis using encode_rune_not_upper unicode_to_lower_not_upper by blast
qed

lemma to_lower_idem: "is_ascii s \<Longrightarrow> to_lower (to_lower s) = to_lower s"
  by (rule to_lower_unchanged)
    (auto simp: is_ascii_to_lower list_all_iff dest: to_lower_no_upper)

lemma to_lower_Nil [simp]: "to_lower [] = []"
  by (simp add: to_lower_def is_ascii_def)

lemma to_lower_append:
  "is_ascii s \<Longrightarrow> is_ascii t \<Longrightarrow> to_lower (s @ t) = to_lower s @ to_lower t"
  by (simp add: to_lower_def is_ascii_def)

lemma graphic_ascii: "list_all graphic s \<Longrightarrow> is_ascii s"
  by (auto simp: is_ascii_def list_all_iff graphic_def)

lemma graphic_trim: "list_all graphic s \<Longrightarrow> trim_space s = s"
  by (cases "s = []") (simp_all add: trim_space_graphic list_all_iff)

lemma graphic_ascii_lower: "graphic c \<Longrightarrow> graphic (ascii_lower c)"
  by (auto simp: graphic_def byte_ascii_lower is_upper_def)

lemma graphic_to_lower: "list_all graphic s \<Longrightarrow> list_all graphic (to_lower s)"
  by (simp add: to_lower_def graphic_ascii list.pred_map) (auto simp: list_all_iff graphic_ascii_lower)

lemma runes_of_eq_Nil_iff [simp]: "runes_of bs = [] \<longleftrightarrow> bs = []"
  by (subst runes_of.simps) (auto split: prod.splits)

lemma encode_rune_not_Nil [simp]: "encode_rune r \<noteq> []"
  by (simp add: encode_rune_def)

lemma map_runes_eq_Nil_iff [simp]: "map_runes f s = [] \<longleftrightarrow> s = []"
proof -
  have "map_runes f s = [] \<longleftrightarrow> runes s = []"
    by (cases "runes s") (simp_all add: map_runes_def string_of_runes_def)
  then show ?thesis by (simp add: runes_def)
qed

lemma to_lower_eq_Nil_iff [simp]: "to_lower s = [] \<longleftrightarrow> s = []"
  by (simp add: to_lower_def map_runes_eq_Nil_iff)

lemma equal_fold_ascii:
  "is_ascii s \<Longrightarrow> is_ascii t \<Longrightarrow>
     equal_fold s t \<longleftrightarrow> map (\<lambda>c. fold_rune (byte c)) s = map (\<lambda>c. fold_rune (byte c)) t"
  by (simp add: equal_fold_def runes_ascii comp_def)

section \<open>Laws of searching\<close>

lemma contains_append [simp]:
  "contains s sub \<Longrightarrow> contains (t @ s @ u) sub"
  by (auto simp: contains_def intro: sublist_order.order_trans)

lemma contains_self [simp]: "contains s s"
  by (simp add: contains_def)

lemma contains_trans: "contains s t \<Longrightarrow> contains t u \<Longrightarrow> contains s u"
  by (auto simp: contains_def intro: sublist_order.order_trans)

end
