(* ===== verification/Api_Types.thy ===== *)
theory Api_Types
  imports Go_Strings
begin

text \<open>
  The custom resources of api/v1alpha1: \<^verbatim>\<open>BucketClaim\<close> and \<^verbatim>\<open>BucketClass\<close> with the types they
  hold, field by field. A pointer field is an option, a string type is a string with the constants of
  the source, and an \<^verbatim>\<open>int\<close> is a 64-bit word. Of the Kubernetes object metadata the records keep
  what the operator reads or writes, and of a \<^verbatim>\<open>resource.Quantity\<close> its value as an \<^verbatim>\<open>int64\<close>, which
  is \<open>None\<close> where \<^verbatim>\<open>AsInt64\<close> reports that there is none.
\<close>

section \<open>Kubernetes types the resources embed\<close>

record ObjectMeta =
  meta_Name :: string
  meta_Namespace :: string
  meta_Generation :: int
  meta_ResourceVersion :: string
  meta_Finalizers :: "string list"
  meta_DeletionTimestamp :: "nat option"

record SecretReference =
  sref_Name :: string
  sref_Namespace :: string

record ObjectReference =
  oref_Name :: string
  oref_Namespace :: string

record Condition =
  cond_Type :: string
  cond_Status :: string
  cond_ObservedGeneration :: int
  cond_Reason :: string
  cond_Message :: string

datatype Quantity = Quantity (quantity_AsInt64: "64 word option")

section \<open>bucketclaim\_types.go\<close>

type_synonym AccessType = string

definition AccessTypeReadWrite :: AccessType where
  "AccessTypeReadWrite = ''ReadWrite''"

definition AccessTypeReadOnly :: AccessType where
  "AccessTypeReadOnly = ''ReadOnly''"

record LifecycleExpiration =
  expiration_Days :: "64 word"

record LifecycleRule =
  rule_ID :: string
  rule_Status :: string
  rule_Prefix :: string
  rule_Expiration :: LifecycleExpiration

record ReplicationTarget =
  target_Endpoint :: string
  target_BucketName :: string
  target_AccessKey :: string
  target_SecretKey :: string
  target_UseSSL :: bool

record BucketClaimSpec =
  spec_BucketClassName :: string
  spec_Protocols :: "string list"
  spec_BucketName :: string
  spec_Quota :: "Quantity option"
  spec_AccessType :: AccessType
  spec_LifecycleRules :: "LifecycleRule list"
  spec_ReplicationTarget :: "ReplicationTarget option"

record BucketClaimStatus =
  status_Conditions :: "Condition list"
  status_BucketReady :: bool
  status_SecretReference :: "ObjectReference option"
  status_Endpoint :: string
  status_BucketName :: string
  status_Phase :: string

record BucketClaim =
  claim_Meta :: ObjectMeta
  claim_Spec :: BucketClaimSpec
  claim_Status :: BucketClaimStatus

abbreviation claim_Name :: "BucketClaim \<Rightarrow> string" where
  "claim_Name c \<equiv> meta_Name (claim_Meta c)"

abbreviation claim_Namespace :: "BucketClaim \<Rightarrow> string" where
  "claim_Namespace c \<equiv> meta_Namespace (claim_Meta c)"

section \<open>bucketclass\_types.go\<close>

type_synonym DeletionPolicy = string
type_synonym RetentionMode = string
type_synonym PolicySourceKind = string

definition DeletionPolicyDelete :: DeletionPolicy where
  "DeletionPolicyDelete = ''Delete''"

definition DeletionPolicyRetain :: DeletionPolicy where
  "DeletionPolicyRetain = ''Retain''"

record BucketPolicyRef =
  policy_Kind :: PolicySourceKind
  policy_Namespace :: string
  policy_Name :: string
  policy_Key :: string

record BucketClass =
  class_Meta :: ObjectMeta
  class_DriverName :: string
  class_Backend :: string
  class_DeletionPolicy :: DeletionPolicy
  class_ObjectLockingEnabled :: bool
  class_RetentionMode :: RetentionMode
  class_RetentionDays :: "64 word"
  class_Parameters :: smap
  class_BucketPolicyRef :: "BucketPolicyRef option"
  class_MinioCredentialSecretRef :: "SecretReference option"
  class_AwsCredentialSecretRef :: "SecretReference option"

abbreviation class_Name :: "BucketClass \<Rightarrow> string" where
  "class_Name c \<equiv> meta_Name (class_Meta c)"

section \<open>Zero values\<close>

text \<open>The zero values \<^verbatim>\<open>BucketClaim{}\<close> and \<^verbatim>\<open>BucketClass{}\<close>.\<close>

definition zero_meta :: ObjectMeta where
  "zero_meta = \<lparr>meta_Name = '''', meta_Namespace = '''', meta_Generation = 0,
     meta_ResourceVersion = '''', meta_Finalizers = [], meta_DeletionTimestamp = None\<rparr>"

definition zero_claim :: BucketClaim where
  "zero_claim = \<lparr>claim_Meta = zero_meta,
     claim_Spec = \<lparr>spec_BucketClassName = '''', spec_Protocols = [], spec_BucketName = '''',
       spec_Quota = None, spec_AccessType = '''', spec_LifecycleRules = [],
       spec_ReplicationTarget = None\<rparr>,
     claim_Status = \<lparr>status_Conditions = [], status_BucketReady = False,
       status_SecretReference = None, status_Endpoint = '''', status_BucketName = '''',
       status_Phase = ''''\<rparr>\<rparr>"

definition zero_class :: BucketClass where
  "zero_class = \<lparr>class_Meta = zero_meta, class_DriverName = '''', class_Backend = '''',
     class_DeletionPolicy = '''', class_ObjectLockingEnabled = False, class_RetentionMode = '''',
     class_RetentionDays = 0, class_Parameters = [], class_BucketPolicyRef = None,
     class_MinioCredentialSecretRef = None, class_AwsCredentialSecretRef = None\<rparr>"

text \<open>A claim of a given namespace and name, and nothing else set.\<close>

definition named_claim :: "string \<Rightarrow> string \<Rightarrow> BucketClaim" where
  "named_claim ns n = zero_claim\<lparr>claim_Meta := zero_meta\<lparr>meta_Namespace := ns, meta_Name := n\<rparr>\<rparr>"

end
