(* ===== verification/Go_Errors.thy ===== *)
theory Go_Errors
  imports Prelude
begin

text \<open>
  Go error values as the operator's code sees them: their text (\<^verbatim>\<open>err.Error()\<close>), their chain
  (\<^verbatim>\<open>errors.Unwrap\<close>) and the types and sentinels that \<^verbatim>\<open>errors.As\<close> and \<^verbatim>\<open>errors.Is\<close> look
  for in it. An error of a library is one of the leaf constructors, which hold what the code can
  observe of it: its text and, by the constructor, its type.
\<close>

section \<open>Operations of internal/provisioning/errors.go\<close>

datatype ProvisioningOperation =
  OpCreateBucket | OpConfigureBucket | OpSetQuota | OpSetLifecycle | OpGrantAccess | OpRevokeAccess

fun op_text :: "ProvisioningOperation \<Rightarrow> string" where
  "op_text OpCreateBucket = ''create_bucket''"
| "op_text OpConfigureBucket = ''configure_bucket''"
| "op_text OpSetQuota = ''set_quota''"
| "op_text OpSetLifecycle = ''set_lifecycle''"
| "op_text OpGrantAccess = ''grant_access''"
| "op_text OpRevokeAccess = ''revoke_access''"

section \<open>Error values\<close>

text \<open>The reasons of a Kubernetes API status, as far as the code tells them apart.\<close>

datatype api_reason = ReasonNotFound | ReasonAlreadyExists | ReasonConflict | ReasonOther

text \<open>The typed errors of the AWS SDK that the code looks for.\<close>

datatype aws_code =
  BucketAlreadyOwnedByYou | BucketAlreadyExists | NoSuchBucket | EntityAlreadyExists
  | LimitExceeded | OtherAwsCode

datatype grpc_code = InvalidArgument | FailedPrecondition | Unimplemented | Unavailable | Internal

text \<open>
  \<^item> \<open>ErrText\<close>: an error with a text only (\<^verbatim>\<open>errors.New\<close>, \<^verbatim>\<open>fmt.Errorf\<close> without \<^verbatim>\<open>%w\<close>, an opaque
    library error);
  \<^item> \<open>ErrNotImplemented\<close>: the sentinel of internal/backend/errors.go;
  \<^item> \<open>ErrApi\<close>: a Kubernetes API status error;
  \<^item> \<open>ErrNet\<close>: a \<^verbatim>\<open>net.Error\<close> with its \<^verbatim>\<open>Timeout()\<close>, \<^verbatim>\<open>Temporary()\<close> and text;
  \<^item> \<open>ErrAws\<close>: a typed error of the AWS SDK;
  \<^item> \<open>ErrGrpc\<close>: a gRPC status;
  \<^item> \<open>ErrWrap p e s\<close>: \<^verbatim>\<open>fmt.Errorf\<close> with one \<^verbatim>\<open>%w\<close>, the text \<open>p\<close> before and \<open>s\<close> after it;
  \<^item> \<open>ErrProvisioning\<close>: the struct \<^verbatim>\<open>ProvisioningError\<close>;
  \<^item> \<open>ErrPanic\<close>: not an error value but a run-time panic (a nil dereference), kept apart so that the
    model never turns one into a success.
\<close>

datatype go_error =
  ErrText string
| ErrNotImplemented
| ErrApi api_reason string
| ErrNet bool bool string
| ErrAws aws_code string
| ErrGrpc grpc_code string
| ErrWrap string go_error string
| ErrProvisioning ProvisioningOperation string go_error
| ErrPanic string

text \<open>The names \<^verbatim>\<open>codes.Code.String()\<close> gives the codes.\<close>

fun grpc_code_text :: "grpc_code \<Rightarrow> string" where
  "grpc_code_text InvalidArgument = ''InvalidArgument''"
| "grpc_code_text FailedPrecondition = ''FailedPrecondition''"
| "grpc_code_text Unimplemented = ''Unimplemented''"
| "grpc_code_text Unavailable = ''Unavailable''"
| "grpc_code_text Internal = ''Internal''"

fun err_text :: "go_error \<Rightarrow> string" where
  "err_text (ErrText m) = m"
| "err_text ErrNotImplemented = ''storage backend not implemented''"
| "err_text (ErrApi r m) = m"
| "err_text (ErrNet t u m) = m"
| "err_text (ErrAws c m) = m"
| "err_text (ErrGrpc c m) = ''rpc error: code = '' @ grpc_code_text c @ '' desc = '' @ m"
| "err_text (ErrWrap p e s) = p @ err_text e @ s"
| "err_text (ErrProvisioning op b e) =
     (if b \<noteq> '''' then op_text op @ '' failed for bucket '' @ b @ '': '' @ err_text e
      else op_text op @ '' failed: '' @ err_text e)"
| "err_text (ErrPanic m) = m"

fun err_chain :: "go_error \<Rightarrow> go_error list" where
  "err_chain (ErrWrap p e s) = ErrWrap p e s # err_chain e"
| "err_chain (ErrProvisioning op b e) = ErrProvisioning op b e # err_chain e"
| "err_chain e = [e]"

text \<open>\<^verbatim>\<open>errors.As\<close>: the first error of the chain that has the wanted type.\<close>

definition errors_as :: "(go_error \<Rightarrow> 'a option) \<Rightarrow> go_error \<Rightarrow> 'a option" where
  "errors_as f e = (case List.map_filter f (err_chain e) of [] \<Rightarrow> None | x # _ \<Rightarrow> Some x)"

fun api_of :: "go_error \<Rightarrow> api_reason option" where
  "api_of (ErrApi r m) = Some r"
| "api_of _ = None"

fun net_of :: "go_error \<Rightarrow> (bool \<times> bool) option" where
  "net_of (ErrNet t u m) = Some (t, u)"
| "net_of _ = None"

fun grpc_of :: "go_error \<Rightarrow> grpc_code option" where
  "grpc_of (ErrGrpc c m) = Some c"
| "grpc_of _ = None"

fun provisioning_of :: "go_error \<Rightarrow> (ProvisioningOperation \<times> string \<times> go_error) option" where
  "provisioning_of (ErrProvisioning op b e) = Some (op, b, e)"
| "provisioning_of _ = None"

fun aws_of :: "aws_code \<Rightarrow> go_error \<Rightarrow> string option" where
  "aws_of c (ErrAws c' m) = (if c = c' then Some m else None)"
| "aws_of c _ = None"

text \<open>\<^verbatim>\<open>apierrors.IsNotFound\<close> and \<^verbatim>\<open>errors.Is(err, backend.ErrNotImplemented)\<close>.\<close>

definition is_not_found :: "go_error \<Rightarrow> bool" where
  "is_not_found e \<longleftrightarrow> errors_as api_of e = Some ReasonNotFound"

definition is_not_implemented :: "go_error \<Rightarrow> bool" where
  "is_not_implemented e \<longleftrightarrow> ErrNotImplemented \<in> set (err_chain e)"

text \<open>The text of an error of \<^verbatim>\<open>encoding/json\<close> is not modelled: \<open>json_error\<close> stands for it.\<close>

definition json_error :: go_error where
  "json_error = ErrText ''invalid JSON''"

section \<open>Searching a chain\<close>

lemma errors_as_head: "f e = Some x \<Longrightarrow> errors_as f e = Some x"
  by (cases e) (simp_all add: errors_as_def map_filter_simps)

lemma errors_as_wrap: "f (ErrWrap p e s) = None \<Longrightarrow> errors_as f (ErrWrap p e s) = errors_as f e"
  by (simp add: errors_as_def map_filter_simps)

lemma errors_as_provisioning:
  "f (ErrProvisioning op b e) = None \<Longrightarrow> errors_as f (ErrProvisioning op b e) = errors_as f e"
  by (simp add: errors_as_def map_filter_simps)

lemma errors_as_net_wrap [simp]:
  "errors_as net_of (ErrWrap p e s) = errors_as net_of e"
  "errors_as net_of (ErrProvisioning op b e) = errors_as net_of e"
  by (simp_all add: errors_as_wrap errors_as_provisioning)

lemma errors_as_leaf [simp]:
  "errors_as f (ErrText m) = f (ErrText m)"
  "errors_as f ErrNotImplemented = f ErrNotImplemented"
  "errors_as f (ErrApi r m) = f (ErrApi r m)"
  "errors_as f (ErrNet t u m) = f (ErrNet t u m)"
  "errors_as f (ErrAws c m) = f (ErrAws c m)"
  "errors_as f (ErrGrpc g m) = f (ErrGrpc g m)"
  "errors_as f (ErrPanic m) = f (ErrPanic m)"
  by (simp_all add: errors_as_def map_filter_simps split: option.splits)

lemma errors_as_step [simp]:
  "errors_as api_of (ErrWrap p e s) = errors_as api_of e"
  "errors_as api_of (ErrProvisioning op b e) = errors_as api_of e"
  "errors_as (aws_of c) (ErrWrap p e s) = errors_as (aws_of c) e"
  "errors_as (aws_of c) (ErrProvisioning op b e) = errors_as (aws_of c) e"
  "errors_as grpc_of (ErrWrap p e s) = errors_as grpc_of e"
  "errors_as grpc_of (ErrProvisioning op b e) = errors_as grpc_of e"
  "errors_as provisioning_of (ErrWrap p e s) = errors_as provisioning_of e"
  "errors_as provisioning_of (ErrProvisioning op b e) = Some (op, b, e)"
  by (simp_all add: errors_as_wrap errors_as_provisioning errors_as_head)

lemma is_not_found_simps [simp]:
  "is_not_found (ErrWrap p e s) = is_not_found e"
  "is_not_found (ErrProvisioning op b e) = is_not_found e"
  "is_not_found (ErrText m) = False"
  "is_not_found ErrNotImplemented = False"
  "is_not_found (ErrApi r m) \<longleftrightarrow> r = ReasonNotFound"
  "is_not_found (ErrNet t u m) = False"
  "is_not_found (ErrAws c m) = False"
  "is_not_found (ErrGrpc g m) = False"
  "is_not_found (ErrPanic m) = False"
  by (simp_all add: is_not_found_def)

lemma is_not_implemented_simps [simp]:
  "is_not_implemented (ErrWrap p e s) = is_not_implemented e"
  "is_not_implemented (ErrProvisioning op b e) = is_not_implemented e"
  "is_not_implemented (ErrText m) = False"
  "is_not_implemented ErrNotImplemented"
  "is_not_implemented (ErrApi r m) = False"
  "is_not_implemented (ErrNet t u m) = False"
  "is_not_implemented (ErrAws c m) = False"
  "is_not_implemented (ErrGrpc g m) = False"
  "is_not_implemented (ErrPanic m) = False"
  by (simp_all add: is_not_implemented_def)

lemma err_text_wrap_sublist: "sublist (err_text e) (err_text (ErrWrap p e s))"
  by (auto simp: sublist_def)

end
