(* ===== verification/Backend_Kind.thy ===== *)
theory Backend_Kind
  imports Api_Types Go_Errors
begin

text \<open>
  internal/backend: which storage backend a \<^verbatim>\<open>BucketClass\<close> selects (kind.go) and the static
  capability matrix (capabilities.go).
\<close>

section \<open>kind.go\<close>

type_synonym Kind = string

definition KindMinIO :: Kind where
  "KindMinIO = ''MinIO''"

definition KindAWS :: Kind where
  "KindAWS = ''AWS''"

definition KindForBucketClass :: "BucketClass option \<Rightarrow> go_error + Kind" where
  "KindForBucketClass cls =
     (case cls of
        None \<Rightarrow> Inr KindMinIO
      | Some c \<Rightarrow>
          (let b = trim_space (class_Backend c) in
           if b = '''' then Inr KindMinIO
           else if to_lower b = ''minio'' then Inr KindMinIO
           else if to_lower b = ''aws'' then Inr KindAWS
           else Inl (ErrText (''unsupported backend '' @ quote (class_Backend c) @
                              '' (supported: MinIO, AWS)''))))"

section \<open>capabilities.go\<close>

record Capabilities =
  cap_ObjectLocking :: bool
  cap_BucketQuota :: bool
  cap_Lifecycle :: bool
  cap_Replication :: bool
  cap_IAMUsers :: bool

definition CapabilitiesForKind :: "Kind \<Rightarrow> Capabilities" where
  "CapabilitiesForKind k =
     (if k = KindMinIO then
        \<lparr>cap_ObjectLocking = True, cap_BucketQuota = True, cap_Lifecycle = True,
         cap_Replication = True, cap_IAMUsers = True\<rparr>
      else if k = KindAWS then
        \<lparr>cap_ObjectLocking = True, cap_BucketQuota = False, cap_Lifecycle = True,
         cap_Replication = False, cap_IAMUsers = True\<rparr>
      else
        \<lparr>cap_ObjectLocking = False, cap_BucketQuota = False, cap_Lifecycle = False,
         cap_Replication = False, cap_IAMUsers = False\<rparr>)"

section \<open>Lemmas\<close>

lemma kind_cases:
  "KindForBucketClass cls = Inr k \<Longrightarrow> k = KindMinIO \<or> k = KindAWS"
  by (auto simp: KindForBucketClass_def Let_def split: option.splits if_splits)

lemma kind_error_text:
  "KindForBucketClass cls = Inl e \<Longrightarrow>
     contains (err_text e) ''unsupported backend'' \<and> \<not> is_not_found e"
  by (auto simp: KindForBucketClass_def Let_def contains_def split: option.splits if_splits)

lemma KindMinIO_neq_KindAWS [simp]: "KindMinIO \<noteq> KindAWS" "KindAWS \<noteq> KindMinIO"
  by (simp_all add: KindMinIO_def KindAWS_def)

end
