(* ===== verification/Provider_Interface.thy ===== *)
theory Provider_Interface
  imports Backend_Kind
begin

text \<open>
  The interface \<^verbatim>\<open>backend.Provider\<close> of internal/backend/provider.go as a record of operations over
  a world \<open>'w\<close>, one field per method; a nil error is \<open>None\<close>. The optional interface
  \<^verbatim>\<open>BucketSecurityConfigurer\<close> is the last field: \<open>None\<close> for a backend that does not implement it,
  which is what the type assertion in the code tests.
\<close>

section \<open>Configurations passed to a backend\<close>

text \<open>\<^verbatim>\<open>lifecycle.Rule\<close> and \<^verbatim>\<open>replication.Rule\<close>, with the fields the operator sets.\<close>

record lifecycle_Rule =
  lc_ID :: string
  lc_Status :: string
  lc_Prefix :: string
  lc_ExpirationDays :: "64 word"

record replication_Rule =
  rep_Status :: string
  rep_DestinationBucket :: string

section \<open>The interface\<close>

record 'w Provider =
  CreateBucket :: "string \<Rightarrow> string \<Rightarrow> bool \<Rightarrow> ('w, go_error option) state"
  SetBucketQuota :: "string \<Rightarrow> 64 word \<Rightarrow> ('w, go_error option) state"
  SetBucketLifecycle :: "string \<Rightarrow> lifecycle_Rule list option \<Rightarrow> ('w, go_error option) state"
  SetBucketReplication :: "string \<Rightarrow> replication_Rule list \<Rightarrow> ('w, go_error option) state"
  GrantAccess ::
    "string \<Rightarrow> string \<Rightarrow> string \<Rightarrow> string \<Rightarrow> string \<Rightarrow> ('w, go_error + smap) state"
  RevokeAccess :: "string \<Rightarrow> string \<Rightarrow> string \<Rightarrow> ('w, go_error option) state"
  DeleteBucket :: "string \<Rightarrow> ('w, go_error option) state"
  ConfigureBucketSecurity :: "(string \<Rightarrow> smap \<Rightarrow> ('w, go_error option) state) option"

section \<open>Early returns\<close>

text \<open>
  \<^verbatim>\<open>if err := m; err != nil { return f(err) }\<close> followed by \<open>k\<close>, and the same for an operation that
  also yields a value.
\<close>

definition if_err :: "('s, go_error option) state \<Rightarrow> (go_error \<Rightarrow> 'a) \<Rightarrow> ('s, 'a) state \<Rightarrow> ('s, 'a) state"
  where
  "if_err m f k = do { r \<leftarrow> m; case r of Some e \<Rightarrow> ret (f e) | None \<Rightarrow> k }"

definition val_or_err ::
  "('s, go_error + 'b) state \<Rightarrow> (go_error \<Rightarrow> 'a) \<Rightarrow> ('b \<Rightarrow> ('s, 'a) state) \<Rightarrow> ('s, 'a) state" where
  "val_or_err m f k = do { r \<leftarrow> m; case r of Inl e \<Rightarrow> ret (f e) | Inr x \<Rightarrow> k x }"

lemma run_if_err [run_simps]:
  "run_state (if_err m f k) s =
     (case run_state m s of (Some e, s') \<Rightarrow> (f e, s') | (None, s') \<Rightarrow> run_state k s')"
  by (auto simp: if_err_def split: prod.splits option.splits)

lemma run_val_or_err [run_simps]:
  "run_state (val_or_err m f k) s =
     (case run_state m s of (Inl e, s') \<Rightarrow> (f e, s') | (Inr x, s') \<Rightarrow> run_state (k x) s')"
  by (auto simp: val_or_err_def split: prod.splits sum.splits)

lemma keeps_if_err [keeps_rules]:
  "keeps J m (\<lambda>_. True) \<Longrightarrow> (\<And>e. Q (f e)) \<Longrightarrow> keeps J k Q \<Longrightarrow> keeps J (if_err m f k) Q"
  unfolding if_err_def by (intro keeps_rules) auto

lemma keeps_val_or_err:
  "keeps J m (\<lambda>r. \<forall>x. r = Inr x \<longrightarrow> R x) \<Longrightarrow> (\<And>e. Q (f e)) \<Longrightarrow> (\<And>x. R x \<Longrightarrow> keeps J (k x) Q) \<Longrightarrow>
     keeps J (val_or_err m f k) Q"
  unfolding val_or_err_def
  by (rule keeps_bind [where R = "\<lambda>r. \<forall>x. r = Inr x \<longrightarrow> R x"]) (auto intro!: keeps_rules)

lemma keeps_val_or_err_any [keeps_rules]:
  "keeps J m (\<lambda>_. True) \<Longrightarrow> (\<And>e. Q (f e)) \<Longrightarrow> (\<And>x. keeps J (k x) Q) \<Longrightarrow> keeps J (val_or_err m f k) Q"
  by (rule keeps_val_or_err [where R = "\<lambda>_. True"]) (auto intro: keeps_mono)

end
