(* ===== verification/Provisioning.thy ===== *)
theory Provisioning
  imports Provider_Interface
begin

text \<open>
  internal/provisioning: the classification of backend errors (errors.go) and the provisioning
  flows over a \<^verbatim>\<open>backend.Provider\<close> (provisioning.go). Log lines are not modelled.
\<close>

section \<open>errors.go\<close>

definition transient_substrings :: "string list" where
  "transient_substrings =
     [''timeout'', ''temporar'', ''connection reset'', ''connection refused'', ''broken pipe'',
      ''i/o timeout'', ''unexpected eof'', ''context deadline'']"

definition IsTransientMinioError :: "go_error option \<Rightarrow> bool" where
  "IsTransientMinioError err =
     (case err of
        None \<Rightarrow> False
      | Some e \<Rightarrow>
          (case errors_as net_of e of
             Some (timeout, temporary) \<Rightarrow> timeout \<or> temporary
           | None \<Rightarrow>
               (let msg = to_lower (err_text e)
                in list_ex (\<lambda>s. contains msg s) transient_substrings)))"

section \<open>provisioning.go\<close>

record AccessCredentials =
  cred_AccessKeyID :: string
  cred_AccessSecretKey :: string
  cred_BucketName :: string
  cred_Endpoint :: string

text \<open>The region and the bucket name that \<^verbatim>\<open>createBucketAndConfigure\<close> computes first.\<close>

definition provision_region :: "BucketClass \<Rightarrow> string" where
  "provision_region cls =
     (let region = smap_get (class_Parameters cls) ''region''
      in if region = '''' then ''us-east-1'' else region)"

definition provision_bucket_name :: "BucketClaim \<Rightarrow> BucketClass \<Rightarrow> string" where
  "provision_bucket_name claim cls =
     (let bucketName = trim_space (spec_BucketName (claim_Spec claim));
          bn = trim_space (smap_get (class_Parameters cls) ''bucketName'');
          bucketName = (if bucketName = '''' \<and> bn \<noteq> '''' then bn else bucketName);
          bucketName = (if bucketName = '''' then claim_Namespace claim @ ''-'' @ claim_Name claim
                        else bucketName)
      in to_lower bucketName)"

definition lifecycle_of_rule :: "LifecycleRule \<Rightarrow> lifecycle_Rule" where
  "lifecycle_of_rule r =
     \<lparr>lc_ID = rule_ID r, lc_Status = rule_Status r, lc_Prefix = rule_Prefix r,
      lc_ExpirationDays = expiration_Days (rule_Expiration r)\<rparr>"

definition replication_of_target :: "ReplicationTarget \<Rightarrow> replication_Rule list" where
  "replication_of_target t =
     [\<lparr>rep_Status = ''Enabled'',
       rep_DestinationBucket = ''arn:aws:s3:::'' @ target_BucketName t @ ''/*''\<rparr>]"

definition createBucketAndConfigure ::
  "'w Provider \<Rightarrow> BucketClaim \<Rightarrow> BucketClass \<Rightarrow> ('w, string \<times> go_error option) state" where
  "createBucketAndConfigure mc claim cls =
     (let region = provision_region cls;
          bucketName = provision_bucket_name claim cls;
          failed = (\<lambda>op e. (bucketName, Some (ErrProvisioning op bucketName e)))
      in
      if_err (CreateBucket mc bucketName region (class_ObjectLockingEnabled cls))
        (failed OpCreateBucket)
     (if_err (case ConfigureBucketSecurity mc of
                Some configure \<Rightarrow> configure bucketName (class_Parameters cls)
              | None \<Rightarrow> ret None)
        (failed OpConfigureBucket)
     (if_err (case spec_Quota (claim_Spec claim) of
                Some q \<Rightarrow>
                  (case quantity_AsInt64 q of
                     Some quotaBytes \<Rightarrow>
                       if 0 <s quotaBytes then SetBucketQuota mc bucketName quotaBytes else ret None
                   | None \<Rightarrow> ret None)
              | None \<Rightarrow> ret None)
        (failed OpSetQuota)
     (if_err (if spec_LifecycleRules (claim_Spec claim) \<noteq> []
              then SetBucketLifecycle mc bucketName
                     (Some (map lifecycle_of_rule (spec_LifecycleRules (claim_Spec claim))))
              else ret None)
        (failed OpSetLifecycle)
     (case spec_ReplicationTarget (claim_Spec claim) of
        Some t \<Rightarrow> do {
          _ \<leftarrow> SetBucketReplication mc bucketName (replication_of_target t);
          ret (bucketName, None)
        }
      | None \<Rightarrow> ret (bucketName, None))))))"

text \<open>The account a claim's identity is derived from, \<^verbatim>\<open>fmt.Sprintf("%s-%s", ns, name)\<close>.\<close>

definition account_id :: "BucketClaim \<Rightarrow> string" where
  "account_id claim = claim_Namespace claim @ ''-'' @ claim_Name claim"

definition grantAccess ::
  "'w Provider \<Rightarrow> BucketClaim \<Rightarrow> string \<Rightarrow> string \<Rightarrow> string \<Rightarrow> ('w, go_error + AccessCredentials) state"
  where
  "grantAccess mc claim bucketName existingAccessKey existingSecretKey =
     val_or_err
       (GrantAccess mc bucketName (account_id claim) (spec_AccessType (claim_Spec claim))
          existingAccessKey existingSecretKey)
       (\<lambda>e. Inl (ErrProvisioning OpGrantAccess bucketName e))
       (\<lambda>credsMap.
          let accessKeyID = trim_space (smap_get credsMap ''accessKeyID'');
              accessSecretKey = trim_space (smap_get credsMap ''accessSecretKey'');
              endpoint = trim_space (smap_get credsMap ''endpoint'')
          in if accessKeyID = '''' \<or> accessSecretKey = '''' \<or> endpoint = ''''
             then ret (Inl (ErrProvisioning OpGrantAccess bucketName
                              (ErrText ''minio returned incomplete credential data'')))
             else ret (Inr \<lparr>cred_AccessKeyID = accessKeyID, cred_AccessSecretKey = accessSecretKey,
                            cred_BucketName = bucketName, cred_Endpoint = endpoint\<rparr>))"

definition ProvisionBucketAndGrantAccess ::
  "'w Provider \<Rightarrow> BucketClaim \<Rightarrow> BucketClass \<Rightarrow> string \<Rightarrow> string \<Rightarrow>
     ('w, go_error + AccessCredentials) state" where
  "ProvisionBucketAndGrantAccess mc claim cls existingAccessKey existingSecretKey = do {
     r \<leftarrow> createBucketAndConfigure mc claim cls;
     case r of
       (_, Some e) \<Rightarrow> ret (Inl e)
     | (bucketName, None) \<Rightarrow>
         val_or_err (grantAccess mc claim bucketName existingAccessKey existingSecretKey)
           Inl (\<lambda>creds. ret (Inr creds))
   }"

definition ProvisionBucket ::
  "'w Provider \<Rightarrow> BucketClaim \<Rightarrow> BucketClass \<Rightarrow> ('w, string \<times> go_error option) state" where
  "ProvisionBucket mc claim cls = createBucketAndConfigure mc claim cls"

definition GrantBucketAccess ::
  "'w Provider \<Rightarrow> BucketClaim \<Rightarrow> string \<Rightarrow> string \<Rightarrow> string \<Rightarrow> ('w, go_error + AccessCredentials) state"
  where
  "GrantBucketAccess mc claim bucketName existingAccessKey existingSecretKey =
     grantAccess mc claim bucketName existingAccessKey existingSecretKey"

definition RevokeBucketAccess ::
  "'w Provider \<Rightarrow> BucketClaim \<Rightarrow> string \<Rightarrow> string \<Rightarrow> ('w, go_error option) state" where
  "RevokeBucketAccess mc claim bucketName accessKey =
     if_err (RevokeAccess mc bucketName (account_id claim) accessKey)
       (\<lambda>e. Some (ErrProvisioning OpRevokeAccess bucketName e))
       (ret None)"

definition finalizer_bucket_name :: "BucketClaim \<Rightarrow> string" where
  "finalizer_bucket_name claim =
     (if status_BucketName (claim_Status claim) \<noteq> '''' then status_BucketName (claim_Status claim)
      else if spec_BucketName (claim_Spec claim) \<noteq> '''' then spec_BucketName (claim_Spec claim)
      else claim_Namespace claim @ ''-'' @ claim_Name claim)"

definition RevokeAccessAndMaybeDeleteBucket ::
  "'w Provider \<Rightarrow> BucketClaim \<Rightarrow> BucketClass \<Rightarrow> string \<Rightarrow> ('w, go_error option) state" where
  "RevokeAccessAndMaybeDeleteBucket mc claim cls accessKey = do {
     _ \<leftarrow> RevokeAccess mc (finalizer_bucket_name claim) (account_id claim) accessKey;
     if class_DeletionPolicy cls = DeletionPolicyDelete
     then DeleteBucket mc (finalizer_bucket_name claim)
     else ret None
   }"

section \<open>What provisioning promises: a plan of steps\<close>

text \<open>
  The abstract view of \<^verbatim>\<open>createBucketAndConfigure\<close>: the steps a claim and its class ask for, in
  order, each with the operation its failure is reported under, run up to the first that fails. The
  replication rule is set afterwards and its outcome does not count.
\<close>

type_synonym 'w plan = "(ProvisioningOperation \<times> ('w, go_error option) state) list"

definition quota_bytes :: "BucketClaim \<Rightarrow> 64 word option" where
  "quota_bytes claim = Option.bind (spec_Quota (claim_Spec claim)) quantity_AsInt64"

definition planned_steps :: "'w Provider \<Rightarrow> BucketClaim \<Rightarrow> BucketClass \<Rightarrow> 'w plan" where
  "planned_steps mc claim cls =
     (let n = provision_bucket_name claim cls; rules = spec_LifecycleRules (claim_Spec claim) in
      [(OpCreateBucket, CreateBucket mc n (provision_region cls) (class_ObjectLockingEnabled cls))] @
      (case ConfigureBucketSecurity mc of
         None \<Rightarrow> [] | Some configure \<Rightarrow> [(OpConfigureBucket, configure n (class_Parameters cls))]) @
      (case quota_bytes claim of
         None \<Rightarrow> [] | Some q \<Rightarrow> if 0 <s q then [(OpSetQuota, SetBucketQuota mc n q)] else []) @
      (if rules = [] then []
       else [(OpSetLifecycle, SetBucketLifecycle mc n (Some (map lifecycle_of_rule rules)))]))"

definition best_effort_replication ::
  "'w Provider \<Rightarrow> BucketClaim \<Rightarrow> BucketClass \<Rightarrow> ('w, unit) state" where
  "best_effort_replication mc claim cls =
     (case spec_ReplicationTarget (claim_Spec claim) of
        None \<Rightarrow> ret ()
      | Some t \<Rightarrow> discard (SetBucketReplication mc (provision_bucket_name claim cls)
                             (replication_of_target t)))"

fun run_plan :: "string \<Rightarrow> 'w plan \<Rightarrow> ('w, go_error option) state" where
  "run_plan n [] = ret None"
| "run_plan n ((op, m) # steps) = if_err m (\<lambda>e. Some (ErrProvisioning op n e)) (run_plan n steps)"

text \<open>Running the steps of \<open>pre\<close> from \<open>w\<close> succeeds and leaves \<open>w'\<close>.\<close>

fun plan_succeeds :: "'w plan \<Rightarrow> 'w \<Rightarrow> 'w \<Rightarrow> bool" where
  "plan_succeeds [] w w' \<longleftrightarrow> w' = w"
| "plan_succeeds ((op, m) # steps) w w' \<longleftrightarrow>
     result_of m w = None \<and> plan_succeeds steps (world_after m w) w'"

section \<open>Lemmas\<close>

subsection \<open>The plan\<close>

lemma if_err_ret_None [simp]: "if_err (ret None) f k = k"
  by (simp add: if_err_def)

lemma bind_if_err:
  "do { r \<leftarrow> if_err m (\<lambda>e. Some (h e)) k; case r of Some e \<Rightarrow> ret (f e) | None \<Rightarrow> g } =
   if_err m (\<lambda>e. f (h e)) (do { r \<leftarrow> k; case r of Some e \<Rightarrow> ret (f e) | None \<Rightarrow> g })"
  by (rule state_ext) (auto simp: run_simps split: prod.splits option.splits)

lemma run_plan_failure:
  "run_state (run_plan n steps) w = (Some err, w') \<Longrightarrow>
     \<exists>pre op m post w1 e. steps = pre @ (op, m) # post \<and> plan_succeeds pre w w1 \<and>
       run_state m w1 = (Some e, w') \<and> err = ErrProvisioning op n e"
proof (induction n steps arbitrary: w rule: run_plan.induct)
  case (1 n)
  then show ?case by simp
next
  case (2 n op m steps)
  obtain r w1 where m: "run_state m w = (r, w1)" by fastforce
  show ?case
  proof (cases r)
    case (Some e)
    with m "2.prems" show ?thesis
      by (intro exI [of _ "[]"]) (auto simp: run_simps)
  next
    case None
    with m "2.prems" have "run_state (run_plan n steps) w1 = (Some err, w')"
      by (simp add: run_simps)
    from "2.IH" [OF this] obtain pre op' m' post w2 e where
      "steps = pre @ (op', m') # post" "plan_succeeds pre w1 w2" "run_state m' w2 = (Some e, w')"
      "err = ErrProvisioning op' n e" by blast
    with m None show ?thesis
      by (intro exI [of _ "(op, m) # pre"] exI [of _ op'] exI [of _ m'] exI [of _ post]) auto
  qed
qed

lemma createBucketAndConfigure_plan:
  "createBucketAndConfigure mc claim cls = do {
     r \<leftarrow> run_plan (provision_bucket_name claim cls) (planned_steps mc claim cls);
     case r of
       Some e \<Rightarrow> ret (provision_bucket_name claim cls, Some e)
     | None \<Rightarrow> do {
         _ \<leftarrow> best_effort_replication mc claim cls;
         ret (provision_bucket_name claim cls, None)
       }
   }"
proof (cases "ConfigureBucketSecurity mc")
  case None
  then show ?thesis
    by (cases "quota_bytes claim"; cases "spec_ReplicationTarget (claim_Spec claim)";
        cases "spec_Quota (claim_Spec claim)")
      (simp_all add: createBucketAndConfigure_def planned_steps_def best_effort_replication_def
        quota_bytes_def bind_if_err discard_def Let_def)
next
  case (Some configure)
  then show ?thesis
    by (cases "quota_bytes claim"; cases "spec_ReplicationTarget (claim_Spec claim)";
        cases "spec_Quota (claim_Spec claim)")
      (simp_all add: createBucketAndConfigure_def planned_steps_def best_effort_replication_def
        quota_bytes_def bind_if_err discard_def Let_def)
qed

lemma provision_result:
  "result_of (createBucketAndConfigure mc claim cls) w =
     (provision_bucket_name claim cls,
      result_of (run_plan (provision_bucket_name claim cls) (planned_steps mc claim cls)) w)"
  by (auto simp: createBucketAndConfigure_plan run_simps split: prod.splits option.splits)

lemma provision_world_failed:
  "run_state (createBucketAndConfigure mc claim cls) w = ((n, Some err), w') \<Longrightarrow>
     n = provision_bucket_name claim cls \<and>
     run_state (run_plan n (planned_steps mc claim cls)) w = (Some err, w')"
  by (auto simp: createBucketAndConfigure_plan run_simps split: prod.splits option.splits)

lemma run_plan_error_shape:
  assumes "result_of (run_plan n steps) w = Some err"
  shows "\<exists>op e. err = ErrProvisioning op n e \<and> op \<in> fst ` set steps"
proof -
  obtain w' where "run_state (run_plan n steps) w = (Some err, w')"
    using assms by (metis prod.collapse)
  from run_plan_failure [OF this] show ?thesis by force
qed

lemma planned_ops:
  "fst ` set (planned_steps mc claim cls) \<subseteq>
     {OpCreateBucket, OpConfigureBucket, OpSetQuota, OpSetLifecycle}"
  by (auto simp: planned_steps_def Let_def split: option.splits if_splits)

lemma planned_steps_replication:
  "planned_steps (mc\<lparr>SetBucketReplication := f\<rparr>) claim cls = planned_steps mc claim cls"
  by (simp add: planned_steps_def Let_def split: option.split)

subsection \<open>Names\<close>

lemma provision_bucket_name_lower: "c \<in> set (provision_bucket_name claim cls) \<Longrightarrow> \<not> is_upper c"
  by (auto simp: provision_bucket_name_def Let_def split: if_splits dest: to_lower_no_upper)

lemma provision_bucket_name_not_empty: "provision_bucket_name claim cls \<noteq> ''''"
  by (simp add: provision_bucket_name_def Let_def)

subsection \<open>Granting access\<close>

lemma grantAccess_ok:
  assumes "run_state (grantAccess mc claim b ak sk) w = (Inr creds, w')"
  shows "\<exists>m. run_state (GrantAccess mc b (account_id claim) (spec_AccessType (claim_Spec claim)) ak sk) w
               = (Inr m, w') \<and>
             cred_AccessKeyID creds = trim_space (smap_get m ''accessKeyID'') \<and>
             cred_AccessSecretKey creds = trim_space (smap_get m ''accessSecretKey'') \<and>
             cred_Endpoint creds = trim_space (smap_get m ''endpoint'') \<and>
             cred_BucketName creds = b \<and> cred_AccessKeyID creds \<noteq> '''' \<and>
             cred_AccessSecretKey creds \<noteq> '''' \<and> cred_Endpoint creds \<noteq> ''''"
  using assms
  by (auto simp: grantAccess_def run_simps Let_def split: prod.splits sum.splits if_splits)

lemma grantAccess_error:
  assumes "result_of (grantAccess mc claim b ak sk) w = Inl err"
  shows "\<exists>e. err = ErrProvisioning OpGrantAccess b e"
  using assms
  by (auto simp: grantAccess_def run_simps Let_def split: prod.splits sum.splits if_splits)

lemma ProvisionBucketAndGrantAccess_run:
  "run_state (ProvisionBucketAndGrantAccess mc claim cls ak sk) w =
     (case run_state (createBucketAndConfigure mc claim cls) w of
        ((n, Some e), w') \<Rightarrow> (Inl e, w')
      | ((n, None), w') \<Rightarrow> run_state (grantAccess mc claim n ak sk) w')"
  by (auto simp: ProvisionBucketAndGrantAccess_def run_simps split: prod.splits option.splits sum.splits)

lemma ProvisionBucketAndGrantAccess_ok:
  assumes "run_state (ProvisionBucketAndGrantAccess mc claim cls ak sk) w = (Inr creds, w')"
  shows "\<exists>w1. run_state (createBucketAndConfigure mc claim cls) w
               = ((provision_bucket_name claim cls, None), w1) \<and>
             run_state (grantAccess mc claim (provision_bucket_name claim cls) ak sk) w1
               = (Inr creds, w')"
  using assms provision_result [of mc claim cls w]
  by (auto simp: ProvisionBucketAndGrantAccess_run split: prod.splits option.splits)

lemma ProvisionBucketAndGrantAccess_error:
  assumes "result_of (ProvisionBucketAndGrantAccess mc claim cls ak sk) w = Inl err"
  shows "\<exists>op e. err = ErrProvisioning op (provision_bucket_name claim cls) e \<and> op \<noteq> OpRevokeAccess"
proof -
  obtain n r w1 where run: "run_state (createBucketAndConfigure mc claim cls) w = ((n, r), w1)"
    by (metis prod.exhaust)
  with provision_result [of mc claim cls w]
  have n: "n = provision_bucket_name claim cls"
    and r: "r = result_of (run_plan n (planned_steps mc claim cls)) w" by simp_all
  show ?thesis
  proof (cases r)
    case None
    with assms run have "result_of (grantAccess mc claim n ak sk) w1 = Inl err"
      by (simp add: ProvisionBucketAndGrantAccess_run)
    from grantAccess_error [OF this] n show ?thesis by auto
  next
    case (Some e)
    with assms run have "e = err" by (simp add: ProvisionBucketAndGrantAccess_run)
    with Some n r obtain op e' where
      "err = ErrProvisioning op n e'" and "op \<in> fst ` set (planned_steps mc claim cls)"
      using run_plan_error_shape [of n "planned_steps mc claim cls" w err] by auto
    with n planned_ops [of mc claim cls] show ?thesis by blast
  qed
qed

section \<open>A provider for examples\<close>

text \<open>
  A provider that records the calls it gets, with their bucket, in its world, and fails those that
  \<open>fails\<close> names: the shape of the fake in provisioning\_test.go.
\<close>

type_synonym call_log = "(string \<times> string) list"

definition record_call :: "string \<Rightarrow> string \<Rightarrow> 'a \<Rightarrow> (call_log, 'a) state" where
  "record_call m b r = State (\<lambda>log. (r, log @ [(m, b)]))"

definition recording_provider :: "(string \<Rightarrow> go_error option) \<Rightarrow> smap \<Rightarrow> call_log Provider" where
  "recording_provider fails creds =
     \<lparr>CreateBucket = (\<lambda>b region lock. record_call ''CreateBucket'' b (fails ''CreateBucket'')),
      SetBucketQuota = (\<lambda>b q. record_call ''SetBucketQuota'' b (fails ''SetBucketQuota'')),
      SetBucketLifecycle = (\<lambda>b rs. record_call ''SetBucketLifecycle'' b (fails ''SetBucketLifecycle'')),
      SetBucketReplication =
        (\<lambda>b rs. record_call ''SetBucketReplication'' b (fails ''SetBucketReplication'')),
      GrantAccess = (\<lambda>b acct t ak sk. record_call ''GrantAccess'' b
        (case fails ''GrantAccess'' of Some e \<Rightarrow> Inl e | None \<Rightarrow> Inr creds)),
      RevokeAccess = (\<lambda>b acct k. record_call ''RevokeAccess'' b (fails ''RevokeAccess'')),
      DeleteBucket = (\<lambda>b. record_call ''DeleteBucket'' b (fails ''DeleteBucket'')),
      ConfigureBucketSecurity = None\<rparr>"

lemma run_record_call [run_simps]: "run_state (record_call m b r) log = (r, log @ [(m, b)])"
  by (simp add: record_call_def)

text \<open>The claim and class of the examples, after the ones of provisioning\_test.go.\<close>

definition example_claim :: BucketClaim where
  "example_claim = (named_claim ''ns1'' ''c1'')\<lparr>claim_Spec :=
     (claim_Spec zero_claim)\<lparr>spec_BucketClassName := ''bc'', spec_Quota := Some (Quantity (Some 100)),
       spec_ReplicationTarget := Some \<lparr>target_Endpoint = '''', target_BucketName = ''dst'',
         target_AccessKey = '''', target_SecretKey = '''', target_UseSSL = False\<rparr>\<rparr>\<rparr>"

definition example_creds :: smap where
  "example_creds = [(''accessKeyID'', ''ak''), (''accessSecretKey'', ''sk''),
     (''bucketName'', ''ns1-c1''), (''endpoint'', ''http://minio:9000'')]"

definition fails_only :: "string \<Rightarrow> go_error \<Rightarrow> string \<Rightarrow> go_error option" where
  "fails_only m e m' = (if m' = m then Some e else None)"

lemma example_name: "provision_bucket_name example_claim zero_class = ''ns1-c1''"
  by code_simp

lemma example_claim_fields [simp]:
  "spec_Quota (claim_Spec example_claim) = Some (Quantity (Some 100))"
  "spec_LifecycleRules (claim_Spec example_claim) = []"
  "spec_BucketName (claim_Spec example_claim) = ''''"
  "spec_AccessType (claim_Spec example_claim) = ''''"
  "spec_ReplicationTarget (claim_Spec example_claim) \<noteq> None"
  "status_BucketName (claim_Status example_claim) = ''''"
  "claim_Name example_claim = ''c1''" "claim_Namespace example_claim = ''ns1''"
  by (simp_all add: example_claim_def named_claim_def zero_claim_def zero_meta_def)

lemma example_quota: "0 <s (100 :: 64 word)"
  by (simp add: word_sless_alt)

section \<open>Properties\<close>

text \<open>C1. \<^verbatim>\<open>createBucketAndConfigure\<close> refines its plan: it runs the steps the claim and the class
  ask for, in order, up to the first that fails, returns the computed bucket name in every case, and
  only after all of them have succeeded tries the replication rule, whose outcome it drops.\<close>

theorem provision_refines_plan:
  "run_state (createBucketAndConfigure mc claim cls) w =
     (let n = provision_bucket_name claim cls in
      case run_state (run_plan n (planned_steps mc claim cls)) w of
        (Some e, w1) \<Rightarrow> ((n, Some e), w1)
      | (None, w1) \<Rightarrow> ((n, None), world_after (best_effort_replication mc claim cls) w1))"
  by (auto simp: createBucketAndConfigure_plan run_simps Let_def split: prod.splits option.splits)

text \<open>C20. A failed \<^verbatim>\<open>createBucketAndConfigure\<close> names the step that failed: the steps before it
  succeeded, it was the last call made, the error wraps its cause under its own operation and the
  computed bucket name, and the operation is one of create, configure, quota and lifecycle.\<close>

theorem provision_failure_attribution:
  assumes "run_state (createBucketAndConfigure mc claim cls) w = ((n, Some err), w')"
  shows "\<exists>pre op m post w1 e.
           planned_steps mc claim cls = pre @ (op, m) # post \<and> plan_succeeds pre w w1 \<and>
           run_state m w1 = (Some e, w') \<and>
           err = ErrProvisioning op (provision_bucket_name claim cls) e \<and>
           op \<in> {OpCreateBucket, OpConfigureBucket, OpSetQuota, OpSetLifecycle}"
proof -
  from provision_world_failed [OF assms] have n: "n = provision_bucket_name claim cls"
    and run: "run_state (run_plan n (planned_steps mc claim cls)) w = (Some err, w')" by blast+
  from run_plan_failure [OF run] obtain pre op m post w1 e where
    steps: "planned_steps mc claim cls = pre @ (op, m) # post" and
    rest: "plan_succeeds pre w w1" "run_state m w1 = (Some e, w')" "err = ErrProvisioning op n e"
    by blast
  from steps have "op \<in> fst ` set (planned_steps mc claim cls)" by force
  then have "op \<in> {OpCreateBucket, OpConfigureBucket, OpSetQuota, OpSetLifecycle}"
    using planned_ops by blast
  with n steps rest show ?thesis by blast
qed

lemma example_quota_failure:
  "run_state (createBucketAndConfigure
      (recording_provider (fails_only ''SetBucketQuota'' (ErrText ''denied'')) []) example_claim zero_class) [] =
    ((''ns1-c1'', Some (ErrProvisioning OpSetQuota ''ns1-c1'' (ErrText ''denied''))),
     [(''CreateBucket'', ''ns1-c1''), (''SetBucketQuota'', ''ns1-c1'')])"
  using example_quota
  by (simp add: createBucketAndConfigure_def example_name recording_provider_def fails_only_def
      run_simps Let_def)

theorem provision_failure_attribution_witness:
  "\<exists>pre op m post w1 e.
     planned_steps (recording_provider (fails_only ''SetBucketQuota'' (ErrText ''denied'')) [])
       example_claim zero_class = pre @ (op, m) # post \<and>
     plan_succeeds pre [] w1 \<and>
     run_state m w1 = (Some e, [(''CreateBucket'', ''ns1-c1''), (''SetBucketQuota'', ''ns1-c1'')]) \<and>
     ErrProvisioning OpSetQuota ''ns1-c1'' (ErrText ''denied'') =
       ErrProvisioning op (provision_bucket_name example_claim zero_class) e \<and>
     op \<in> {OpCreateBucket, OpConfigureBucket, OpSetQuota, OpSetLifecycle}"
  by (rule provision_failure_attribution [OF example_quota_failure])

text \<open>Replication is best effort: whatever \<^verbatim>\<open>SetBucketReplication\<close> does and returns, the result
  of \<^verbatim>\<open>createBucketAndConfigure\<close> is the same.\<close>

theorem replication_best_effort:
  "result_of (createBucketAndConfigure (mc\<lparr>SetBucketReplication := f\<rparr>) claim cls) w =
   result_of (createBucketAndConfigure mc claim cls) w"
  by (simp add: provision_result planned_steps_replication)

text \<open>C21. Successful provisioning never yields incomplete credentials: key, secret and endpoint are
  not blank and carry no surrounding space, and the bucket is the one that was provisioned, whose
  name has no upper-case letter.\<close>

theorem provision_credentials_complete:
  assumes "run_state (ProvisionBucketAndGrantAccess mc claim cls ak sk) w = (Inr creds, w')"
  shows "cred_BucketName creds = provision_bucket_name claim cls \<and>
         (\<forall>f \<in> {cred_AccessKeyID, cred_AccessSecretKey, cred_Endpoint}.
            f creds \<noteq> '''' \<and> trim_space (f creds) = f creds) \<and>
         (\<forall>c \<in> set (cred_BucketName creds). \<not> is_upper c)"
proof -
  from ProvisionBucketAndGrantAccess_ok [OF assms] obtain w1 where
    "run_state (grantAccess mc claim (provision_bucket_name claim cls) ak sk) w1 = (Inr creds, w')"
    by blast
  from grantAccess_ok [OF this] show ?thesis
    by (auto dest: provision_bucket_name_lower)
qed

theorem provision_credentials_complete_witness:
  "cred_BucketName \<lparr>cred_AccessKeyID = ''ak'', cred_AccessSecretKey = ''sk'',
      cred_BucketName = ''ns1-c1'', cred_Endpoint = ''http://minio:9000''\<rparr> = ''ns1-c1''"
proof -
  let ?c = "\<lparr>cred_AccessKeyID = ''ak'', cred_AccessSecretKey = ''sk'',
      cred_BucketName = ''ns1-c1'', cred_Endpoint = ''http://minio:9000''\<rparr>"
  have trim: "trim_space ''ak'' = ''ak''" "trim_space ''sk'' = ''sk''"
    "trim_space ''http://minio:9000'' = ''http://minio:9000''"
    by (simp_all add: trim_space_graphic graphic_def)
  have "run_state (ProvisionBucketAndGrantAccess
          (recording_provider (fails_only ''SetBucketReplication'' (ErrText ''no'')) example_creds)
          example_claim zero_class '''' '''') [] =
        (Inr ?c, [(''CreateBucket'', ''ns1-c1''), (''SetBucketQuota'', ''ns1-c1''),
                  (''SetBucketReplication'', ''ns1-c1''), (''GrantAccess'', ''ns1-c1'')])"
    using example_quota
    by (simp add: ProvisionBucketAndGrantAccess_def createBucketAndConfigure_def grantAccess_def
        example_name recording_provider_def fails_only_def run_simps Let_def example_creds_def trim
        split: option.split)
  from provision_credentials_complete [OF this] show ?thesis by simp
qed

text \<open>Every error of \<^verbatim>\<open>ProvisionBucketAndGrantAccess\<close> is a \<^verbatim>\<open>ProvisioningError\<close> that carries the
  bucket name and an operation other than revoke, so the condition reason and the metric stage that
  the controller selects with \<^verbatim>\<open>errors.As\<close> always come from the failed operation.\<close>

theorem provisioning_errors_typed:
  assumes "result_of (ProvisionBucketAndGrantAccess mc claim cls ak sk) w = Inl err"
  shows "\<exists>op e. errors_as provisioning_of err = Some (op, provision_bucket_name claim cls, e) \<and>
                op \<noteq> OpRevokeAccess \<and> is_not_found err = is_not_found e"
  using ProvisionBucketAndGrantAccess_error [OF assms] by auto

theorem provisioning_errors_typed_witness:
  "\<exists>op e. errors_as provisioning_of (ErrProvisioning OpSetQuota ''ns1-c1'' (ErrText ''denied'')) =
            Some (op, provision_bucket_name example_claim zero_class, e) \<and>
          op \<noteq> OpRevokeAccess \<and>
          is_not_found (ErrProvisioning OpSetQuota ''ns1-c1'' (ErrText ''denied'')) = is_not_found e"
proof -
  have "result_of (ProvisionBucketAndGrantAccess
      (recording_provider (fails_only ''SetBucketQuota'' (ErrText ''denied'')) []) example_claim zero_class
      '''' '''') [] = Inl (ErrProvisioning OpSetQuota ''ns1-c1'' (ErrText ''denied''))"
    by (simp add: ProvisionBucketAndGrantAccess_run example_quota_failure)
  from provisioning_errors_typed [OF this] show ?thesis .
qed

text \<open>Unless the class asks for \<^verbatim>\<open>Delete\<close>, the finalizer never deletes the bucket and succeeds:
  its run is the same whatever \<^verbatim>\<open>DeleteBucket\<close> would do. The COSI revocation never deletes either.\<close>

theorem retain_never_deletes:
  assumes "class_DeletionPolicy cls \<noteq> DeletionPolicyDelete"
  shows "RevokeAccessAndMaybeDeleteBucket (mc\<lparr>DeleteBucket := d\<rparr>) claim cls key =
           RevokeAccessAndMaybeDeleteBucket mc claim cls key \<and>
         result_of (RevokeAccessAndMaybeDeleteBucket mc claim cls key) w = None \<and>
         RevokeBucketAccess (mc\<lparr>DeleteBucket := d\<rparr>) claim b key = RevokeBucketAccess mc claim b key"
  using assms
  by (simp add: RevokeAccessAndMaybeDeleteBucket_def RevokeBucketAccess_def split: prod.splits)

theorem retain_never_deletes_witness:
  "class_DeletionPolicy zero_class \<noteq> DeletionPolicyDelete \<and>
   result_of (RevokeAccessAndMaybeDeleteBucket (recording_provider (\<lambda>_. None) [])
     example_claim zero_class '''') [] = None"
proof -
  have h: "class_DeletionPolicy zero_class \<noteq> DeletionPolicyDelete"
    by (simp add: zero_class_def DeletionPolicyDelete_def)
  from retain_never_deletes
    [OF h, where mc = "recording_provider (\<lambda>_. None) []" and claim = example_claim and key = "''''"
      and w = "[]"] h
  show ?thesis by blast
qed

text \<open>With the policy \<^verbatim>\<open>Delete\<close> the bucket is deleted after the revocation and in the world it
  leaves, even when the revocation failed; the outcome is that of the deletion alone.\<close>

theorem delete_follows_revocation:
  assumes "class_DeletionPolicy cls = DeletionPolicyDelete"
    and "run_state (RevokeAccess mc (finalizer_bucket_name claim) (account_id claim) key) w = (r, w1)"
  shows "run_state (RevokeAccessAndMaybeDeleteBucket mc claim cls key) w =
         run_state (DeleteBucket mc (finalizer_bucket_name claim)) w1"
  using assms by (simp add: RevokeAccessAndMaybeDeleteBucket_def)

theorem delete_follows_revocation_witness:
  "run_state (RevokeAccessAndMaybeDeleteBucket
      (recording_provider (fails_only ''RevokeAccess'' (ErrText ''no'')) []) example_claim
      (zero_class\<lparr>class_DeletionPolicy := ''Delete''\<rparr>) '''') [] =
   (None, [(''RevokeAccess'', ''ns1-c1''), (''DeleteBucket'', ''ns1-c1'')])"
proof -
  let ?mc = "recording_provider (fails_only ''RevokeAccess'' (ErrText ''no'')) []"
  let ?cls = "zero_class\<lparr>class_DeletionPolicy := ''Delete''\<rparr>"
  have h: "class_DeletionPolicy ?cls = DeletionPolicyDelete" by (simp add: DeletionPolicyDelete_def)
  have n: "finalizer_bucket_name example_claim = ''ns1-c1''" by (simp add: finalizer_bucket_name_def)
  have r: "run_state (RevokeAccess ?mc (finalizer_bucket_name example_claim) (account_id example_claim) '''') [] =
      (Some (ErrText ''no''), [(''RevokeAccess'', ''ns1-c1'')])"
    by (simp add: n recording_provider_def fails_only_def run_simps)
  show ?thesis
    using delete_follows_revocation [OF h r]
    by (simp add: n recording_provider_def fails_only_def run_simps)
qed



text \<open>C23. Classifying errors as transient. A \<^verbatim>\<open>net.Error\<close> in the chain decides alone: it is transient where
  it is a timeout or temporary, wrapping it keeps the verdict, and one that is neither is permanent
  whatever its text says. Without one the text decides: the error is transient exactly where its
  lower-cased text contains one of the eight substrings of errors.go, and an ASCII text stays transient
  when it is wrapped. The nil error is not transient.\<close>

theorem transient_classification:
  "\<not> IsTransientMinioError None \<and>
   (\<forall>timeout temporary. errors_as net_of e = Some (timeout, temporary) \<longrightarrow>
      IsTransientMinioError (Some e) = (timeout \<or> temporary) \<and>
      IsTransientMinioError (Some (ErrProvisioning op b (ErrWrap p e s))) = (timeout \<or> temporary)) \<and>
   (errors_as net_of e = None \<longrightarrow>
      IsTransientMinioError (Some e) = list_ex (\<lambda>x. sublist x (to_lower (err_text e)))
        [''timeout'', ''temporar'', ''connection reset'', ''connection refused'', ''broken pipe'',
         ''i/o timeout'', ''unexpected eof'', ''context deadline'']) \<and>
   (is_ascii (p @ err_text e @ s) \<and> IsTransientMinioError (Some e) \<longrightarrow>
      IsTransientMinioError (Some (ErrWrap p e s)))"
proof (intro conjI allI impI)
  show "\<not> IsTransientMinioError None" by (simp add: IsTransientMinioError_def)
next
  fix timeout temporary
  assume "errors_as net_of e = Some (timeout, temporary)"
  then show "IsTransientMinioError (Some e) = (timeout \<or> temporary)"
    "IsTransientMinioError (Some (ErrProvisioning op b (ErrWrap p e s))) = (timeout \<or> temporary)"
    by (simp_all add: IsTransientMinioError_def)
next
  assume "errors_as net_of e = None"
  then show "IsTransientMinioError (Some e) = list_ex (\<lambda>x. sublist x (to_lower (err_text e)))
      [''timeout'', ''temporar'', ''connection reset'', ''connection refused'', ''broken pipe'',
       ''i/o timeout'', ''unexpected eof'', ''context deadline'']"
    by (simp add: IsTransientMinioError_def transient_substrings_def contains_def Let_def)
next
  assume a: "is_ascii (p @ err_text e @ s) \<and> IsTransientMinioError (Some e)"
  show "IsTransientMinioError (Some (ErrWrap p e s))"
  proof (cases "errors_as net_of e")
    case None
    have "to_lower (p @ err_text e @ s) = to_lower p @ to_lower (err_text e) @ to_lower s"
      using a by (simp add: to_lower_append is_ascii_def)
    with a None show ?thesis
      by (auto simp: IsTransientMinioError_def list_ex_iff intro!: bexI contains_append)
  next
    case (Some v)
    with a show ?thesis by (simp add: IsTransientMinioError_def split: prod.splits)
  qed
qed

theorem transient_classification_witness:
  "\<not> IsTransientMinioError (Some (ErrProvisioning OpCreateBucket ''b''
      (ErrWrap ''creating bucket: '' (ErrNet False False ''dial tcp: connection refused'') '''')))
   \<and> IsTransientMinioError (Some (ErrWrap ''creating bucket: '' (ErrText ''dial tcp: connection refused'') ''''))
   \<and> \<not> IsTransientMinioError (Some (ErrText ''Access Denied.''))
   \<and> IsTransientMinioError (Some (ErrText ''Unexpected EOF''))"
proof (intro conjI)
  show "\<not> IsTransientMinioError (Some (ErrProvisioning OpCreateBucket ''b''
      (ErrWrap ''creating bucket: '' (ErrNet False False ''dial tcp: connection refused'') '''')))"
    using transient_classification [THEN conjunct2, THEN conjunct1, rule_format,
        of "ErrNet False False ''dial tcp: connection refused''" False False] by simp
  have "is_ascii (''creating bucket: '' @ err_text (ErrText ''dial tcp: connection refused'') @ '''')"
    and "IsTransientMinioError (Some (ErrText ''dial tcp: connection refused''))"
    by code_simp+
  then show "IsTransientMinioError
      (Some (ErrWrap ''creating bucket: '' (ErrText ''dial tcp: connection refused'') ''''))"
    using transient_classification by blast
  have "\<not> list_ex (\<lambda>x. sublist x (to_lower (err_text (ErrText ''Access Denied.''))))
      [''timeout'', ''temporar'', ''connection reset'', ''connection refused'', ''broken pipe'',
       ''i/o timeout'', ''unexpected eof'', ''context deadline'']"
    by code_simp
  then show "\<not> IsTransientMinioError (Some (ErrText ''Access Denied.''))"
    using transient_classification [THEN conjunct2, THEN conjunct2, THEN conjunct1, of "ErrText ''Access Denied.''"]
    by simp
  have "list_ex (\<lambda>x. sublist x (to_lower (err_text (ErrText ''Unexpected EOF''))))
      [''timeout'', ''temporar'', ''connection reset'', ''connection refused'', ''broken pipe'',
       ''i/o timeout'', ''unexpected eof'', ''context deadline'']"
    by code_simp
  then show "IsTransientMinioError (Some (ErrText ''Unexpected EOF''))"
    using transient_classification [THEN conjunct2, THEN conjunct2, THEN conjunct1, of "ErrText ''Unexpected EOF''"]
    by simp
qed

end
