(* ===== verification/Contracts.thy ===== *)
theory Contracts
  imports Provisioning
begin

text \<open>
  The interfaces between components, as locales: what the code relies on where it derives a user name
  from an account, where it builds a configuration from a Secret, and where provisioning calls a
  backend. Each holds the lemmas a client has from it; the theories of the two backends interpret
  them on the model of the backend's code.
\<close>

section \<open>Names derived from an account\<close>

lemma graphic_of_nat: "33 \<le> byte c \<Longrightarrow> byte c \<le> 126 \<Longrightarrow> graphic c"
  by (simp add: graphic_def)

text \<open>A string that \<^verbatim>\<open>strings.TrimSpace\<close> leaves alone because both its ends are visible.\<close>

definition visible :: "string \<Rightarrow> bool" where
  "visible s \<longleftrightarrow> s \<noteq> [] \<and> graphic (hd s) \<and> graphic (last s)"

lemma visible_trim: "visible s \<Longrightarrow> trim_space s = s"
  by (simp add: visible_def trim_space_graphic)

lemma visible_not_Nil: "visible s \<Longrightarrow> s \<noteq> []"
  by (simp add: visible_def)

lemma list_all_graphic_visible: "s \<noteq> [] \<Longrightarrow> list_all graphic s \<Longrightarrow> visible s"
  by (simp add: visible_def list_all_iff)

text \<open>
  \<open>enc\<close> maps an account to the name of its user at the backend: the prefix \<open>pre\<close>, then a body of one
  to \<open>n\<close> characters of the alphabet \<open>ok\<close>.
\<close>

locale account_name =
  fixes enc :: "string \<Rightarrow> string"
    and pre :: string
    and n :: nat
    and ok :: "char \<Rightarrow> bool"
  assumes enc_shape: "\<exists>body. enc a = pre @ body \<and> body \<noteq> [] \<and> length body \<le> n \<and> list_all ok body"
    and pre_shape: "pre \<noteq> []" "list_all graphic pre"
    and ok_graphic: "ok c \<Longrightarrow> graphic c"
begin

lemma length_enc: "length pre < length (enc a)" "length (enc a) \<le> length pre + n"
  using enc_shape [of a] by auto

lemma graphic_enc: "list_all graphic (enc a)"
  using enc_shape [of a] pre_shape ok_graphic by (auto simp: list_all_iff)

lemma visible_enc: "visible (enc a)"
  using list_all_graphic_visible [OF _ graphic_enc [of a]] length_enc(1) [of a] by fastforce

lemma enc_not_Nil: "enc a \<noteq> []"
  using visible_enc by (rule visible_not_Nil)

lemma trim_enc: "trim_space (enc a) = enc a"
  using visible_enc by (rule visible_trim)

text \<open>There are finitely many names, so some two accounts share theirs.\<close>

lemma finite_range: "finite (range enc)"
proof (rule finite_subset)
  show "range enc \<subseteq> {s. set s \<subseteq> UNIV \<and> length s \<le> length pre + n}"
    using length_enc(2) by auto
  show "finite {s. set s \<subseteq> (UNIV :: char set) \<and> length s \<le> length pre + n}"
    by (rule finite_lists_length_le) simp
qed

lemma collision: "\<not> inj enc"
  using finite_range finite_imageD [of enc UNIV] infinite_UNIV_listI by auto

end

section \<open>Configuration read from a Secret\<close>

text \<open>
  \<open>from_secret\<close> builds a configuration from the data of a Secret; \<open>first\<close> reads the first non-empty of
  several keys, trimmed; \<open>required\<close> lists the alternatives of each setting that must be there.
\<close>

locale secret_config =
  fixes from_secret :: "smap \<Rightarrow> go_error + 'cfg"
    and first :: "smap \<Rightarrow> string list \<Rightarrow> string"
    and required :: "string list list"
  assumes accepts: "(\<exists>c. from_secret d = Inr c) \<longleftrightarrow>
                      d \<noteq> [] \<and> (\<forall>ks \<in> set required. first d ks \<noteq> '''')"
    and as_map: "map_of d = map_of d' \<Longrightarrow> from_secret d = from_secret d'"
    and first_Nil: "first [] ks = ''''"
    and some_required: "required \<noteq> []"
begin

lemma accepts_iff: "(\<exists>c. from_secret d = Inr c) \<longleftrightarrow> (\<forall>ks \<in> set required. first d ks \<noteq> '''')"
  using some_required by (auto simp: accepts first_Nil)

text \<open>The order of the members does not count: the data are a Go map.\<close>

lemma permuted:
  "set d = set d' \<Longrightarrow> distinct (map fst d) \<Longrightarrow> distinct (map fst d') \<Longrightarrow> from_secret d = from_secret d'"
  by (rule as_map) (simp add: map_of_inject_set)

lemma shadowed: "from_secret ((k, v) # AList.delete k d) = from_secret ((k, v) # d)"
  by (rule as_map) (simp add: delete_conv' fun_upd_def fun_eq_iff)

end

section \<open>What provisioning relies on in a backend\<close>

locale bucket_provider =
  fixes p :: "'w Provider"
  assumes revoke_ok: "result_of (RevokeAccess p b a k) w = None"
    and quota_unset: "q \<le>s 0 \<Longrightarrow> SetBucketQuota p b q = ret None"
    and grant_bucket: "result_of (GrantAccess p b a t k s) w = Inr m \<Longrightarrow> smap_get m ''bucketName'' = b"
    and grant_keeps: "visible k \<Longrightarrow> visible s \<Longrightarrow> result_of (GrantAccess p b a t k s) w = Inr m \<Longrightarrow>
                        smap_get m ''accessKeyID'' = k \<and> smap_get m ''accessSecretKey'' = s"
begin

lemma revoke_bucket_access: "result_of (RevokeBucketAccess p claim b k) w = None"
  using revoke_ok [of b "account_id claim" k w]
  by (auto simp: RevokeBucketAccess_def run_simps split: prod.splits option.splits)

text \<open>The finalizer fails only where the deletion of the bucket does.\<close>

lemma finalizer_result:
  "result_of (RevokeAccessAndMaybeDeleteBucket p claim cls k) w =
     (if class_DeletionPolicy cls = DeletionPolicyDelete
      then result_of (DeleteBucket p (finalizer_bucket_name claim))
             (world_after (RevokeAccess p (finalizer_bucket_name claim) (account_id claim) k) w)
      else None)"
  by (simp add: RevokeAccessAndMaybeDeleteBucket_def split: prod.splits)

text \<open>Provisioning again with the keys of the Secret hands out the same keys.\<close>

lemma keys_stable:
  assumes "visible k" "visible s"
    and "run_state (ProvisionBucketAndGrantAccess p claim cls k s) w = (Inr creds, w')"
  shows "cred_AccessKeyID creds = k \<and> cred_AccessSecretKey creds = s"
proof -
  from ProvisionBucketAndGrantAccess_ok [OF assms(3)] obtain w1 where
    "run_state (grantAccess p claim (provision_bucket_name claim cls) k s) w1 = (Inr creds, w')"
    by blast
  from grantAccess_ok [OF this] obtain m where
    m: "result_of (GrantAccess p (provision_bucket_name claim cls) (account_id claim)
          (spec_AccessType (claim_Spec claim)) k s) w1 = Inr m" and
    keys: "cred_AccessKeyID creds = trim_space (smap_get m ''accessKeyID'')"
      "cred_AccessSecretKey creds = trim_space (smap_get m ''accessSecretKey'')"
    by auto
  from grant_keeps [OF assms(1,2) m] keys assms(1,2) show ?thesis by (simp add: visible_trim)
qed

lemma granted_bucket:
  assumes "run_state (GrantAccess p b (account_id claim) (spec_AccessType (claim_Spec claim)) k s) w
             = (Inr m, w')"
  shows "smap_get m ''bucketName'' = b"
  using grant_bucket assms by (metis fst_conv)

end

end
