(* ===== verification/Json.thy ===== *)
theory Json
  imports Go_Strings "HOL-Library.Char_ord" "HOL-Library.List_Lexorder"
begin

text \<open>
  The part of \<^verbatim>\<open>encoding/json\<close> that the operator uses: values decoded into \<^verbatim>\<open>any\<close>, \<^verbatim>\<open>Marshal\<close> of
  maps, arrays and strings, and \<^verbatim>\<open>Unmarshal\<close>. A number keeps its literal text: Go decodes it to a
  \<^verbatim>\<open>float64\<close> and prints that, a rounding the model leaves out, as it leaves out the decoder's limit
  on nesting. The text of a decoding error is not modelled.
\<close>

datatype json =
  JNull
| JBool bool
| JNum string
| JStr string
| JArr "json list"
| JObj "(string \<times> json) list"

section \<open>Marshal\<close>

fun join :: "string \<Rightarrow> string list \<Rightarrow> string" where
  "join sep [] = ''''"
| "join sep [x] = x"
| "join sep (x # y # xs) = x @ sep @ join sep (y # xs)"

text \<open>A byte of an ASCII rune inside a string literal.\<close>

definition json_escape_byte :: "char \<Rightarrow> string" where
  "json_escape_byte c =
     (let n = byte c in
      if n = 34 \<or> n = 92 then [chr 92, c]
      else if n = 8 then [chr 92, CHR ''b''] else if n = 12 then [chr 92, CHR ''f'']
      else if n = 10 then [chr 92, CHR ''n''] else if n = 13 then [chr 92, CHR ''r'']
      else if n = 9 then [chr 92, CHR ''t'']
      else if n < 32 \<or> n = 60 \<or> n = 62 \<or> n = 38 then [chr 92] @ ''u00'' @ hex_byte n
      else [c])"

function json_escape :: "string \<Rightarrow> string" where
  "json_escape s =
     (case s of
        [] \<Rightarrow> ''''
      | c # cs \<Rightarrow>
          (let (r, n) = decode_rune (map of_char s) in
           if byte c < 128 then json_escape_byte c @ json_escape cs
           else if r = RuneError \<and> n = 1 then [chr 92] @ ''ufffd'' @ json_escape cs
           else if r = 0x2028 then [chr 92] @ ''u2028'' @ json_escape (drop n s)
           else if r = 0x2029 then [chr 92] @ ''u2029'' @ json_escape (drop n s)
           else take n s @ json_escape (drop n s)))"
  by pat_completeness auto
termination
proof (relation "measure length")
  show "wf (measure length :: (string \<times> string) set)" by simp
next
  fix s c cs x r n
  assume "s = c # cs" "x = decode_rune (map of_char s)" "(r, n) = x"
  then have "0 < n" by (metis decode_rune_size list.distinct(1) list.map_disc_iff snd_conv)
  with \<open>s = c # cs\<close> show "(drop n s, s) \<in> measure length" by simp
  from \<open>0 < n\<close> \<open>s = c # cs\<close> show "(drop n s, s) \<in> measure length" by simp
  from \<open>0 < n\<close> \<open>s = c # cs\<close> show "(drop n s, s) \<in> measure length" by simp
qed simp_all

declare json_escape.simps [simp del]

definition json_string :: "string \<Rightarrow> string" where
  "json_string s = [chr 34] @ json_escape s @ [chr 34]"

text \<open>\<^verbatim>\<open>json.Marshal\<close>: a map's members are written in the order of their keys.\<close>

fun json_marshal :: "json \<Rightarrow> string" where
  "json_marshal JNull = ''null''"
| "json_marshal (JBool b) = (if b then ''true'' else ''false'')"
| "json_marshal (JNum n) = n"
| "json_marshal (JStr s) = json_string s"
| "json_marshal (JArr xs) = ''['' @ join '','' (map json_marshal xs) @ '']''"
| "json_marshal (JObj kvs) =
     ''{'' @ join '','' (map (\<lambda>(k, v). json_string k @ '':'' @ v)
                (sort_key fst (map (map_prod id json_marshal) kvs))) @ ''}''"

section \<open>Unmarshal\<close>

fun skip_ws :: "string \<Rightarrow> string" where
  "skip_ws [] = []"
| "skip_ws (c # cs) = (if byte c \<in> {32, 9, 10, 13} then skip_ws cs else c # cs)"

definition hex_value :: "char \<Rightarrow> nat option" where
  "hex_value c =
     (let n = byte c in
      if 48 \<le> n \<and> n \<le> 57 then Some (n - 48)
      else if 97 \<le> n \<and> n \<le> 102 then Some (n - 87)
      else if 65 \<le> n \<and> n \<le> 70 then Some (n - 55) else None)"

text \<open>Four hexadecimal digits at the front of a string.\<close>

fun hex4 :: "string \<Rightarrow> nat option" where
  "hex4 (a # b # c # d # _) =
     (case (hex_value a, hex_value b, hex_value c, hex_value d) of
        (Some a, Some b, Some c, Some d) \<Rightarrow> Some (((a * 16 + b) * 16 + c) * 16 + d)
      | _ \<Rightarrow> None)"
| "hex4 _ = None"

text \<open>The second half of a surrogate pair, where the text goes on with one.\<close>

fun low_surrogate :: "string \<Rightarrow> nat option" where
  "low_surrogate (b # u # s) =
     (if byte b = 92 \<and> u = CHR ''u'' then
        (case hex4 s of
           Some r \<Rightarrow> if 0xDC00 \<le> r \<and> r \<le> 0xDFFF then Some r else None
         | None \<Rightarrow> None)
      else None)"
| "low_surrogate _ = None"

text \<open>
  The rune of an escape \<^verbatim>\<open>\uXXXX\<close> whose digits are at the front of \<open>s\<close>, and the number of bytes it
  takes after the \<^verbatim>\<open>u\<close>. A surrogate that is not half of a pair is \<^verbatim>\<open>RuneError\<close>.
\<close>

definition unicode_escape :: "string \<Rightarrow> (nat \<times> nat) option" where
  "unicode_escape s =
     (case hex4 s of
        None \<Rightarrow> None
      | Some r \<Rightarrow>
          if 0xD800 \<le> r \<and> r \<le> 0xDFFF then
            (case low_surrogate (drop 4 s) of
               Some r' \<Rightarrow>
                 if r \<le> 0xDBFF then Some ((r - 0xD800) * 1024 + (r' - 0xDC00) + 0x10000, 10)
                 else Some (RuneError, 4)
             | None \<Rightarrow> Some (RuneError, 4))
          else Some (r, 4))"

definition simple_escape :: "char \<Rightarrow> char option" where
  "simple_escape c =
     (let n = byte c in
      if n = 34 \<or> n = 92 \<or> n = 47 then Some c
      else if c = CHR ''b'' then Some (chr 8) else if c = CHR ''f'' then Some (chr 12)
      else if c = CHR ''n'' then Some (chr 10) else if c = CHR ''r'' then Some (chr 13)
      else if c = CHR ''t'' then Some (chr 9) else None)"

definition prepend :: "string \<Rightarrow> (string \<times> string) option \<Rightarrow> (string \<times> string) option" where
  "prepend s r = map_option (\<lambda>(t, rest). (s @ t, rest)) r"

text \<open>The bytes of a string literal after its opening quote, and what follows its closing quote.\<close>

function parse_chars :: "string \<Rightarrow> (string \<times> string) option" where
  "parse_chars [] = None"
| "parse_chars (c # cs) =
     (if byte c = 34 then Some ('''', cs)
      else if byte c < 32 then None
      else if byte c = 92 then
        (case cs of
           [] \<Rightarrow> None
         | e # es \<Rightarrow>
             (if e = CHR ''u'' then
                (case unicode_escape es of
                   None \<Rightarrow> None
                 | Some (r, n) \<Rightarrow> prepend (encode_rune r) (parse_chars (drop n es)))
              else
                (case simple_escape e of
                   None \<Rightarrow> None
                 | Some x \<Rightarrow> prepend [x] (parse_chars es))))
      else prepend [c] (parse_chars cs))"
  by pat_completeness auto
termination
  by (relation "measure length") auto

definition parse_string :: "string \<Rightarrow> (string \<times> string) option" where
  "parse_string s =
     (case parse_chars s of
        None \<Rightarrow> None
      | Some (t, rest) \<Rightarrow> Some (string_of_runes (runes t), rest))"

definition is_digit :: "char \<Rightarrow> bool" where
  "is_digit c \<longleftrightarrow> 48 \<le> byte c \<and> byte c \<le> 57"

text \<open>A number literal at the front of a string: integer part, fraction, exponent.\<close>

definition number_int :: "string \<Rightarrow> (string \<times> string) option" where
  "number_int s =
     (case s of
        CHR ''0'' # r \<Rightarrow> Some (''0'', r)
      | c # _ \<Rightarrow> if is_digit c then Some (takeWhile is_digit s, dropWhile is_digit s) else None
      | [] \<Rightarrow> None)"

definition number_frac :: "string \<Rightarrow> (string \<times> string) option" where
  "number_frac s =
     (case s of
        CHR ''.'' # r \<Rightarrow>
          if takeWhile is_digit r = [] then None
          else Some (''.'' @ takeWhile is_digit r, dropWhile is_digit r)
      | _ \<Rightarrow> Some ('''', s))"

definition number_exp :: "string \<Rightarrow> (string \<times> string) option" where
  "number_exp s =
     (case s of
        c # r \<Rightarrow>
          if c = CHR ''e'' \<or> c = CHR ''E'' then
            (let (sign, r') = (case r of d # r' \<Rightarrow> if d = CHR ''+'' \<or> d = CHR ''-'' then ([d], r')
                                 else ('''', r) | [] \<Rightarrow> ('''', []))
             in if takeWhile is_digit r' = [] then None
                else Some ([c] @ sign @ takeWhile is_digit r', dropWhile is_digit r'))
          else Some ('''', s)
      | [] \<Rightarrow> Some ('''', []))"

definition parse_number :: "string \<Rightarrow> (string \<times> string) option" where
  "parse_number s =
     (let (sign, r) = (case s of CHR ''-'' # r \<Rightarrow> (''-'', r) | _ \<Rightarrow> ('''', s)) in
      case number_int r of
        None \<Rightarrow> None
      | Some (i, r1) \<Rightarrow>
          (case number_frac r1 of
             None \<Rightarrow> None
           | Some (f, r2) \<Rightarrow>
               (case number_exp r2 of
                  None \<Rightarrow> None
                | Some (x, r3) \<Rightarrow> Some (sign @ i @ f @ x, r3))))"


definition lit_rest :: "string \<Rightarrow> string \<Rightarrow> string option" where
  "lit_rest w s = (if prefix w s then Some (drop (length w) s) else None)"

text \<open>
  The recursive descent, with fuel: a level of nesting takes two units of it and at least one byte, so
  one more than twice the length of the text is enough. \<open>parse_elements\<close> and \<open>parse_members\<close> read the
  rest of an array or object from its first element or member on. An object keeps all its members, in their order.
\<close>

fun parse_value :: "nat \<Rightarrow> string \<Rightarrow> (json \<times> string) option"
  and parse_elements :: "nat \<Rightarrow> string \<Rightarrow> (json list \<times> string) option"
  and parse_members :: "nat \<Rightarrow> string \<Rightarrow> ((string \<times> json) list \<times> string) option"
where
  "parse_value 0 s = None"
| "parse_value (Suc n) s =
     (case skip_ws s of
        [] \<Rightarrow> None
      | c # r \<Rightarrow>
          if byte c = 34 then
            (case parse_string r of None \<Rightarrow> None | Some (t, r') \<Rightarrow> Some (JStr t, r'))
          else if c = CHR ''['' then
            (case skip_ws r of
               [] \<Rightarrow> None
             | d # r' \<Rightarrow>
                 if d = CHR '']'' then Some (JArr [], r')
                 else (case parse_elements n r of
                         None \<Rightarrow> None | Some (xs, r'') \<Rightarrow> Some (JArr xs, r'')))
          else if c = CHR ''{'' then
            (case skip_ws r of
               [] \<Rightarrow> None
             | d # r' \<Rightarrow>
                 if d = CHR ''}'' then Some (JObj [], r')
                 else (case parse_members n r of
                         None \<Rightarrow> None | Some (kvs, r'') \<Rightarrow> Some (JObj kvs, r'')))
          else
            (case lit_rest ''null'' (c # r) of
               Some r' \<Rightarrow> Some (JNull, r')
             | None \<Rightarrow>
                 (case lit_rest ''true'' (c # r) of
                    Some r' \<Rightarrow> Some (JBool True, r')
                  | None \<Rightarrow>
                      (case lit_rest ''false'' (c # r) of
                         Some r' \<Rightarrow> Some (JBool False, r')
                       | None \<Rightarrow>
                           (case parse_number (c # r) of
                              None \<Rightarrow> None
                            | Some (t, r') \<Rightarrow> Some (JNum t, r'))))))"
| "parse_elements 0 s = None"
| "parse_elements (Suc n) s =
     (case parse_value n s of
        None \<Rightarrow> None
      | Some (x, r) \<Rightarrow>
          (case skip_ws r of
             [] \<Rightarrow> None
           | c # r' \<Rightarrow>
               if c = CHR '']'' then Some ([x], r')
               else if c = CHR '','' then
                 (case parse_elements n r' of None \<Rightarrow> None | Some (xs, r'') \<Rightarrow> Some (x # xs, r''))
               else None))"
| "parse_members 0 s = None"
| "parse_members (Suc n) s =
     (case skip_ws s of
        [] \<Rightarrow> None
      | q # r \<Rightarrow>
          if byte q \<noteq> 34 then None
          else
            (case parse_string r of
               None \<Rightarrow> None
             | Some (k, r1) \<Rightarrow>
                 (case skip_ws r1 of
                    [] \<Rightarrow> None
                  | colon # r2 \<Rightarrow>
                      if colon \<noteq> CHR '':'' then None
                      else
                        (case parse_value n r2 of
                           None \<Rightarrow> None
                         | Some (v, r3) \<Rightarrow>
                             (case skip_ws r3 of
                                [] \<Rightarrow> None
                              | c # r4 \<Rightarrow>
                                  if c = CHR ''}'' then Some ([(k, v)], r4)
                                  else if c = CHR '','' then
                                    (case parse_members n r4 of
                                       None \<Rightarrow> None | Some (kvs, r5) \<Rightarrow> Some ((k, v) # kvs, r5))
                                  else None)))))"

definition json_members :: "string \<Rightarrow> json option" where
  "json_members s =
     (case parse_value (2 * length s + 1) s of
        None \<Rightarrow> None
      | Some (j, rest) \<Rightarrow> if skip_ws rest = [] then Some j else None)"

text \<open>Decoded into \<^verbatim>\<open>any\<close>, later members of an object replace earlier ones of the same key.\<close>

definition make_object :: "(string \<times> json) list \<Rightarrow> json" where
  "make_object kvs = JObj (foldl (\<lambda>m (k, v). AList.update k v m) [] kvs)"

fun json_any :: "json \<Rightarrow> json" where
  "json_any (JArr xs) = JArr (map json_any xs)"
| "json_any (JObj kvs) = make_object (map (map_prod id json_any) kvs)"
| "json_any j = j"

definition json_parse :: "string \<Rightarrow> json option" where
  "json_parse s = map_option json_any (json_members s)"

text \<open>
  \<^verbatim>\<open>json.Unmarshal\<close> into a \<^verbatim>\<open>map[string]any\<close>: an object, or null, which leaves the map nil.
\<close>

definition unmarshal_map :: "string \<Rightarrow> (string \<times> json) list option" where
  "unmarshal_map s =
     (case json_parse s of
        Some (JObj kvs) \<Rightarrow> Some kvs
      | Some JNull \<Rightarrow> Some []
      | _ \<Rightarrow> None)"

end
