(* ===== verification/Iam_Policy.thy ===== *)
theory Iam_Policy
  imports Json
begin

text \<open>
  What a policy document of the S3 policy language allows: the reading of the documents the two
  backends generate, for the elements those use (Effect, Action, Resource, and the wildcards of the
  latter two). A statement with a condition or a principal is matched as if those held.
\<close>

section \<open>Documents\<close>

fun json_field :: "json \<Rightarrow> string \<Rightarrow> json option" where
  "json_field (JObj kvs) k = map_of kvs k"
| "json_field _ k = None"

text \<open>An element that is one string or an array of strings.\<close>

fun json_strings :: "json option \<Rightarrow> string list" where
  "json_strings (Some (JStr s)) = [s]"
| "json_strings (Some (JArr xs)) = concat (map (\<lambda>x. case x of JStr s \<Rightarrow> [s] | _ \<Rightarrow> []) xs)"
| "json_strings _ = []"

fun json_array :: "json option \<Rightarrow> json list" where
  "json_array (Some (JArr xs)) = xs"
| "json_array _ = []"

text \<open>Wildcards: \<^verbatim>\<open>*\<close> for any text, \<^verbatim>\<open>?\<close> for one character.\<close>

fun glob :: "string \<Rightarrow> string \<Rightarrow> bool" where
  "glob [] s \<longleftrightarrow> s = []"
| "glob (c # p) [] \<longleftrightarrow> c = CHR ''*'' \<and> glob p []"
| "glob (c # p) (d # s) \<longleftrightarrow>
     (if c = CHR ''*'' then glob p (d # s) \<or> glob (c # p) s
      else (c = CHR ''?'' \<or> c = d) \<and> glob p s)"

definition statement_matches :: "json \<Rightarrow> string \<Rightarrow> string \<Rightarrow> bool" where
  "statement_matches st action resource \<longleftrightarrow>
     list_ex (\<lambda>p. glob p action) (json_strings (json_field st ''Action'')) \<and>
     list_ex (\<lambda>p. glob p resource) (json_strings (json_field st ''Resource''))"

definition policy_statements :: "json \<Rightarrow> string \<Rightarrow> json list" where
  "policy_statements doc effect =
     filter (\<lambda>st. json_field st ''Effect'' = Some (JStr effect)) (json_array (json_field doc ''Statement''))"

definition policy_denies :: "json \<Rightarrow> string \<Rightarrow> string \<Rightarrow> bool" where
  "policy_denies doc action resource \<longleftrightarrow>
     list_ex (\<lambda>st. statement_matches st action resource) (policy_statements doc ''Deny'')"

definition policy_allows :: "json \<Rightarrow> string \<Rightarrow> string \<Rightarrow> bool" where
  "policy_allows doc action resource \<longleftrightarrow>
     list_ex (\<lambda>st. statement_matches st action resource) (policy_statements doc ''Allow'') \<and>
     \<not> policy_denies doc action resource"

section \<open>The resources of a bucket\<close>

definition bucket_arn :: "string \<Rightarrow> string" where
  "bucket_arn b = ''arn:aws:s3:::'' @ b"

definition bucket_resources :: "string \<Rightarrow> json" where
  "bucket_resources b = JArr [JStr (''arn:aws:s3:::'' @ b), JStr (''arn:aws:s3:::'' @ b @ ''/*'')]"

text \<open>The bucket itself and the objects in it.\<close>

definition in_bucket :: "string \<Rightarrow> string \<Rightarrow> bool" where
  "in_bucket b resource \<longleftrightarrow> resource = bucket_arn b \<or> prefix (bucket_arn b @ ''/'') resource"

section \<open>Lemmas\<close>

definition literal :: "string \<Rightarrow> bool" where
  "literal p \<longleftrightarrow> list_all (\<lambda>c. c \<noteq> CHR ''*'' \<and> c \<noteq> CHR ''?'') p"

lemma literal_simps [simp]:
  "literal []"
  "literal (c # p) \<longleftrightarrow> c \<noteq> CHR ''*'' \<and> c \<noteq> CHR ''?'' \<and> literal p"
  "literal (p @ q) \<longleftrightarrow> literal p \<and> literal q"
  by (simp_all add: literal_def)

lemma glob_literal: "literal p \<Longrightarrow> glob p s \<longleftrightarrow> p = s"
  by (induction p s rule: glob.induct) auto

lemma glob_star [simp]: "glob ''*'' s"
  by (induction s) simp_all

lemma glob_literal_star: "literal p \<Longrightarrow> glob (p @ ''*'') s \<longleftrightarrow> prefix p s"
proof (induction p arbitrary: s)
  case (Cons c p)
  then show ?case by (cases s) auto
qed simp

lemma bucket_resources_match:
  "literal b \<Longrightarrow>
     list_ex (\<lambda>p. glob p r) (json_strings (Some (bucket_resources b))) \<longleftrightarrow> in_bucket b r"
  using glob_literal_star [of "''arn:aws:s3:::'' @ b @ ''/''" r]
  by (auto simp: bucket_resources_def in_bucket_def bucket_arn_def glob_literal)

text \<open>Two buckets share no resource.\<close>

lemma prefix_slash_cases:
  "prefix (b @ ''/'') (b' @ t) \<Longrightarrow> CHR ''/'' \<notin> set b \<Longrightarrow> CHR ''/'' \<notin> set b' \<Longrightarrow>
     t = [] \<or> hd t = CHR ''/'' \<Longrightarrow> b = b' \<and> t \<noteq> []"
proof (induction b arbitrary: b')
  case Nil
  then show ?case by (cases b') auto
next
  case (Cons c b)
  then show ?case by (cases b') (auto simp: prefix_def)
qed

lemma in_bucket_disjoint:
  assumes "CHR ''/'' \<notin> set b" "CHR ''/'' \<notin> set b'" "in_bucket b r" "in_bucket b' r"
  shows "b = b'"
proof (cases "r = bucket_arn b")
  case True
  show ?thesis
  proof (cases "r = bucket_arn b'")
    case False
    with assms True have "prefix (b' @ ''/'') (b @ [])" by (auto simp: in_bucket_def bucket_arn_def)
    from prefix_slash_cases [OF this] assms show ?thesis by simp
  qed (use True in \<open>simp add: bucket_arn_def\<close>)
next
  case False
  with assms obtain t where t: "r = bucket_arn b @ ''/'' @ t"
    by (auto simp: in_bucket_def prefix_def)
  from assms(4) have "b' = b @ ''/'' @ t \<or> prefix (b' @ ''/'') (b @ ''/'' @ t)"
    by (auto simp: t in_bucket_def bucket_arn_def)
  then show ?thesis
  proof
    assume "b' = b @ ''/'' @ t"
    with assms(2) show ?thesis by simp
  next
    assume "prefix (b' @ ''/'') (b @ ''/'' @ t)"
    from prefix_slash_cases [OF this] assms show ?thesis by simp
  qed
qed

end
