(* ===== verification/Sha1.thy ===== *)
theory Sha1
  imports Go_Strings
begin

unbundle bit_operations_syntax

text \<open>
  \<^verbatim>\<open>crypto/sha1.Sum\<close> and the verb \<^verbatim>\<open>%x\<close> on bytes, which the MinIO client derives a user's secret
  from. A message is a list of bytes as natural numbers; the digest is 20 bytes.
\<close>

section \<open>Padding and blocks\<close>

definition be_bytes :: "nat \<Rightarrow> 'a::len word \<Rightarrow> nat list" where
  "be_bytes k w = map (\<lambda>i. unat (take_bit 8 (drop_bit (8 * (k - 1 - i)) w))) [0..<k]"

definition sha1_pad :: "nat list \<Rightarrow> nat list" where
  "sha1_pad bs =
     (let zeros = (119 - length bs mod 64) mod 64
      in bs @ [0x80] @ replicate zeros 0 @ be_bytes 8 (8 * of_nat (length bs) :: 64 word))"

function chunks :: "nat \<Rightarrow> 'a list \<Rightarrow> 'a list list" where
  "chunks k xs = (if k = 0 \<or> xs = [] then [] else take k xs # chunks k (drop k xs))"
  by pat_completeness auto
termination
  by (relation "measure (\<lambda>(k, xs). length xs)") auto

declare chunks.simps [simp del]

definition word_of_bytes :: "nat list \<Rightarrow> 32 word" where
  "word_of_bytes bs = foldl (\<lambda>a b. push_bit 8 a OR of_nat b) 0 bs"

section \<open>Compression\<close>

text \<open>The message schedule, with the newest word first.\<close>

fun schedule :: "nat \<Rightarrow> 32 word list \<Rightarrow> 32 word list" where
  "schedule 0 ws = ws"
| "schedule (Suc n) ws =
     schedule n (word_rotl 1 (ws ! 2 XOR ws ! 7 XOR ws ! 13 XOR ws ! 15) # ws)"

type_synonym sha1_state = "32 word \<times> 32 word \<times> 32 word \<times> 32 word \<times> 32 word"

definition sha1_f :: "nat \<Rightarrow> 32 word \<Rightarrow> 32 word \<Rightarrow> 32 word \<Rightarrow> 32 word \<times> 32 word" where
  "sha1_f t b c d =
     (if t < 20 then ((b AND c) OR (NOT b AND d), 0x5A827999)
      else if t < 40 then (b XOR c XOR d, 0x6ED9EBA1)
      else if t < 60 then ((b AND c) OR (b AND d) OR (c AND d), 0x8F1BBCDC)
      else (b XOR c XOR d, 0xCA62C1D6))"

fun sha1_rounds :: "nat \<Rightarrow> 32 word list \<Rightarrow> sha1_state \<Rightarrow> sha1_state" where
  "sha1_rounds t [] s = s"
| "sha1_rounds t (w # ws) (a, b, c, d, e) =
     (let (f, k) = sha1_f t b c d
      in sha1_rounds (Suc t) ws (word_rotl 5 a + f + e + k + w, a, word_rotl 30 b, c, d))"

definition sha1_block :: "sha1_state \<Rightarrow> nat list \<Rightarrow> sha1_state" where
  "sha1_block s block =
     (let ws = rev (schedule 64 (rev (map word_of_bytes (chunks 4 block))));
          (h0, h1, h2, h3, h4) = s;
          (a, b, c, d, e) = sha1_rounds 0 ws s
      in (h0 + a, h1 + b, h2 + c, h3 + d, h4 + e))"

definition sha1_init :: sha1_state where
  "sha1_init = (0x67452301, 0xEFCDAB89, 0x98BADCFE, 0x10325476, 0xC3D2E1F0)"

definition sha1_sum :: "nat list \<Rightarrow> nat list" where
  "sha1_sum bs =
     (let (a, b, c, d, e) = foldl sha1_block sha1_init (chunks 64 (sha1_pad bs))
      in concat (map (\<lambda>w. be_bytes 4 w) [a, b, c, d, e]))"

definition hex_of_bytes :: "nat list \<Rightarrow> string" where
  "hex_of_bytes bs = concat (map hex_byte bs)"

section \<open>Lengths\<close>

lemma length_be_bytes [simp]: "length (be_bytes k n) = k"
  by (simp add: be_bytes_def)

lemma length_sha1_sum [simp]: "length (sha1_sum bs) = 20"
  by (simp add: sha1_sum_def split: prod.split)

lemma length_hex_of_bytes [simp]: "length (hex_of_bytes bs) = 2 * length bs"
  by (induction bs) (simp_all add: hex_of_bytes_def hex_byte_def)

lemma be_bytes_less: "b \<in> set (be_bytes k w) \<Longrightarrow> b < 256"
proof -
  assume "b \<in> set (be_bytes k w)"
  then obtain i where "b = unat (take_bit 8 (drop_bit (8 * (k - 1 - i)) w))"
    by (auto simp: be_bytes_def)
  then have "b = take_bit 8 (unat (drop_bit (8 * (k - 1 - i)) w))"
    by (simp add: unsigned_take_bit_eq)
  then show ?thesis using take_bit_nat_less_exp [of 8] by simp
qed

lemma sha1_sum_bytes: "list_all (\<lambda>b. b < 256) (sha1_sum bs)"
  by (auto simp: sha1_sum_def list_all_iff be_bytes_less split: prod.split)

end
