(* ===== verification/Minio_Client.thy ===== *)
theory Minio_Client
  imports Contracts Iam_Policy Sha1
begin

text \<open>
  internal/minio/client.go: configuration from the environment and from a Secret, the pair of MinIO
  clients, and the methods that make it a \<^verbatim>\<open>backend.Provider\<close>. The MinIO SDK (minio-go and
  madmin-go) is a parameter: a record of its calls over the world \<open>'w\<close>, with \<open>'h\<close> the type of its
  client handles. Log lines are not modelled.
\<close>

section \<open>Configuration\<close>

record minio_Config =
  mcfg_Endpoint :: string
  mcfg_AccessKey :: string
  mcfg_SecretKey :: string
  mcfg_UseSSL :: bool

text \<open>\<^verbatim>\<open>os.Getenv\<close> is the parameter \<open>env\<close>; it yields the empty string for an unset variable.\<close>

definition minio_ConfigFromEnv :: "(string \<Rightarrow> string) \<Rightarrow> minio_Config" where
  "minio_ConfigFromEnv env =
     \<lparr>mcfg_Endpoint = env ''MINIO_ENDPOINT'', mcfg_AccessKey = env ''MINIO_ACCESS_KEY'',
      mcfg_SecretKey = env ''MINIO_SECRET_KEY'', mcfg_UseSSL = (env ''MINIO_USE_SSL'' = ''true'')\<rparr>"

fun minio_firstSecretString :: "smap \<Rightarrow> string list \<Rightarrow> string" where
  "minio_firstSecretString data [] = ''''"
| "minio_firstSecretString data (k # ks) =
     (case map_of data k of
        Some v \<Rightarrow> if v \<noteq> '''' then trim_space v else minio_firstSecretString data ks
      | None \<Rightarrow> minio_firstSecretString data ks)"

definition minio_ConfigFromSecretData :: "smap \<Rightarrow> go_error + minio_Config" where
  "minio_ConfigFromSecretData data =
     (if data = [] then Inl (ErrText ''secret data is empty'')
      else
        (let endpoint = minio_firstSecretString data [''MINIO_ENDPOINT'', ''endpoint''];
             access = minio_firstSecretString data [''MINIO_ACCESS_KEY'', ''accessKey'', ''accessKeyID''];
             secret = minio_firstSecretString data [''MINIO_SECRET_KEY'', ''secretKey'', ''secretAccessKey''];
             useSSLStr = minio_firstSecretString data [''MINIO_USE_SSL'', ''useSSL''];
             useSSL = (useSSLStr = ''true'' \<or> useSSLStr = ''1'' \<or> equal_fold useSSLStr ''yes'')
         in if endpoint = '''' \<or> access = '''' \<or> secret = ''''
            then Inl (ErrText (''secret must define endpoint (MINIO_ENDPOINT or endpoint), '' @
                               ''access key, and secret key''))
            else Inr \<lparr>mcfg_Endpoint = endpoint, mcfg_AccessKey = access, mcfg_SecretKey = secret,
                      mcfg_UseSSL = useSSL\<rparr>))"

section \<open>The SDK\<close>

text \<open>
  \<^item> \<open>miniogo_New\<close>, \<open>madmin_New\<close>: the constructors, from endpoint, access key, secret key and TLS;
  \<^item> the S3 calls of minio-go and \<open>EndpointURL\<close>, the client's URL as text;
  \<^item> the calls of the admin client. \<open>SetPolicy\<close> takes the policy, the user and whether it is a group.
\<close>

record ('h, 'w) minio_sdk =
  miniogo_New :: "string \<Rightarrow> string \<Rightarrow> string \<Rightarrow> bool \<Rightarrow> go_error + 'h"
  madmin_New :: "string \<Rightarrow> string \<Rightarrow> string \<Rightarrow> bool \<Rightarrow> go_error + 'h"
  mg_BucketExists :: "'h \<Rightarrow> string \<Rightarrow> ('w, go_error + bool) state"
  mg_MakeBucket :: "'h \<Rightarrow> string \<Rightarrow> string \<Rightarrow> bool \<Rightarrow> ('w, go_error option) state"
  mg_RemoveBucket :: "'h \<Rightarrow> string \<Rightarrow> ('w, go_error option) state"
  mg_SetBucketLifecycle :: "'h \<Rightarrow> string \<Rightarrow> lifecycle_Rule list option \<Rightarrow> ('w, go_error option) state"
  mg_SetBucketReplication :: "'h \<Rightarrow> string \<Rightarrow> replication_Rule list \<Rightarrow> ('w, go_error option) state"
  mg_EndpointURL :: "'h \<Rightarrow> string"
  ma_SetBucketQuota :: "'h \<Rightarrow> string \<Rightarrow> 64 word \<Rightarrow> ('w, go_error option) state"
  ma_AddUser :: "'h \<Rightarrow> string \<Rightarrow> string \<Rightarrow> ('w, go_error option) state"
  ma_AddCannedPolicy :: "'h \<Rightarrow> string \<Rightarrow> string \<Rightarrow> ('w, go_error option) state"
  ma_SetPolicy :: "'h \<Rightarrow> string \<Rightarrow> string \<Rightarrow> bool \<Rightarrow> ('w, go_error option) state"
  ma_RemoveUser :: "'h \<Rightarrow> string \<Rightarrow> ('w, go_error option) state"
  ma_RemoveCannedPolicy :: "'h \<Rightarrow> string \<Rightarrow> ('w, go_error option) state"

record 'h minio_Client =
  client_s3 :: 'h
  client_admin :: 'h

definition minio_NewClient :: "('h, 'w) minio_sdk \<Rightarrow> minio_Config \<Rightarrow> go_error + 'h minio_Client" where
  "minio_NewClient sdk cfg =
     (if mcfg_Endpoint cfg = '''' then Inl (ErrText ''MINIO_ENDPOINT is required'')
      else if mcfg_AccessKey cfg = '''' \<or> mcfg_SecretKey cfg = '''' then
        Inl (ErrText ''MINIO_ACCESS_KEY and MINIO_SECRET_KEY are required'')
      else
        (case miniogo_New sdk (mcfg_Endpoint cfg) (mcfg_AccessKey cfg) (mcfg_SecretKey cfg) (mcfg_UseSSL cfg) of
           Inl e \<Rightarrow> Inl (ErrWrap ''failed to create S3 client: '' e '''')
         | Inr s3 \<Rightarrow>
             (case madmin_New sdk (mcfg_Endpoint cfg) (mcfg_AccessKey cfg) (mcfg_SecretKey cfg) (mcfg_UseSSL cfg) of
                Inl e \<Rightarrow> Inl (ErrWrap ''failed to create admin client: '' e '''')
              | Inr admin \<Rightarrow> Inr \<lparr>client_s3 = s3, client_admin = admin\<rparr>)))"

section \<open>Buckets\<close>

definition minio_CreateBucket ::
  "('h, 'w) minio_sdk \<Rightarrow> 'h minio_Client \<Rightarrow> string \<Rightarrow> string \<Rightarrow> bool \<Rightarrow> ('w, go_error option) state" where
  "minio_CreateBucket sdk c bucketName region objectLocking =
     val_or_err (mg_BucketExists sdk (client_s3 c) bucketName)
       (\<lambda>e. Some (ErrWrap ''checking bucket existence: '' e ''''))
       (\<lambda>exists.
          if exists then ret None
          else
            if_err (mg_MakeBucket sdk (client_s3 c) bucketName region objectLocking)
              (\<lambda>e. Some (ErrWrap (''creating bucket '' @ quote bucketName @ '': '') e ''''))
              (ret None))"

definition minio_SetBucketQuota ::
  "('h, 'w) minio_sdk \<Rightarrow> 'h minio_Client \<Rightarrow> string \<Rightarrow> 64 word \<Rightarrow> ('w, go_error option) state" where
  "minio_SetBucketQuota sdk c bucketName quotaBytes =
     (if quotaBytes \<le>s 0 then ret None
      else ma_SetBucketQuota sdk (client_admin c) bucketName quotaBytes)"

definition minio_SetBucketLifecycle ::
  "('h, 'w) minio_sdk \<Rightarrow> 'h minio_Client \<Rightarrow> string \<Rightarrow> lifecycle_Rule list option \<Rightarrow> ('w, go_error option) state"
  where
  "minio_SetBucketLifecycle sdk c bucketName cfg = mg_SetBucketLifecycle sdk (client_s3 c) bucketName cfg"

definition minio_SetBucketReplication ::
  "('h, 'w) minio_sdk \<Rightarrow> 'h minio_Client \<Rightarrow> string \<Rightarrow> replication_Rule list \<Rightarrow> ('w, go_error option) state"
  where
  "minio_SetBucketReplication sdk c bucketName cfg = mg_SetBucketReplication sdk (client_s3 c) bucketName cfg"

definition minio_DeleteBucket ::
  "('h, 'w) minio_sdk \<Rightarrow> 'h minio_Client \<Rightarrow> string \<Rightarrow> ('w, go_error option) state" where
  "minio_DeleteBucket sdk c bucketName =
     val_or_err (mg_BucketExists sdk (client_s3 c) bucketName)
       (\<lambda>e. Some (ErrWrap ''checking bucket existence: '' e ''''))
       (\<lambda>exists.
          if \<not> exists then ret None
          else
            if_err (mg_RemoveBucket sdk (client_s3 c) bucketName)
              (\<lambda>e. Some (ErrWrap (''deleting bucket '' @ quote bucketName @ '': '') e ''''))
              (ret None))"

section \<open>Identities\<close>

definition is_alnum :: "char \<Rightarrow> bool" where
  "is_alnum c \<longleftrightarrow>
     (let n = byte c in (97 \<le> n \<and> n \<le> 122) \<or> (65 \<le> n \<and> n \<le> 90) \<or> (48 \<le> n \<and> n \<le> 57))"

definition minio_accessKeyForAccount :: "string \<Rightarrow> string" where
  "minio_accessKeyForAccount accountID =
     (let normalized = to_lower (filter is_alnum accountID);
          normalized = (if 12 < length normalized then take 12 normalized else normalized);
          normalized = (if normalized = '''' then ''user'' else normalized)
      in ''cosi'' @ normalized)"

definition minio_secretForAccount :: "string \<Rightarrow> string" where
  "minio_secretForAccount accountID =
     (let sum = sha1_sum (map of_char accountID)
      in hex_of_bytes sum @ hex_of_bytes (take 4 sum))"

section \<open>Policies\<close>

definition minio_bucketPolicy :: "string \<Rightarrow> json" where
  "minio_bucketPolicy bucketName =
     JObj [(''Version'', JStr ''2012-10-17''),
           (''Statement'', JArr [JObj
              [(''Effect'', JStr ''Allow''),
               (''Action'', JArr [JStr ''s3:GetObject'', JStr ''s3:PutObject'', JStr ''s3:DeleteObject'',
                  JStr ''s3:ListBucket'', JStr ''s3:GetBucketLocation'']),
               (''Resource'', bucket_resources bucketName)]])]"

definition minio_bucketPolicyReadOnly :: "string \<Rightarrow> json" where
  "minio_bucketPolicyReadOnly bucketName =
     JObj [(''Version'', JStr ''2012-10-17''),
           (''Statement'', JArr [JObj
              [(''Effect'', JStr ''Allow''),
               (''Action'', JArr [JStr ''s3:GetObject'', JStr ''s3:ListBucket'', JStr ''s3:GetBucketLocation'']),
               (''Resource'', bucket_resources bucketName)]])]"

text \<open>The policy \<^verbatim>\<open>GrantAccess\<close> writes for an access type.\<close>

definition minio_grantPolicy :: "string \<Rightarrow> string \<Rightarrow> json" where
  "minio_grantPolicy bucketName accessType =
     (if equal_fold accessType ''ReadOnly'' then minio_bucketPolicyReadOnly bucketName
      else minio_bucketPolicy bucketName)"

section \<open>Access\<close>

definition minio_policyName :: "string \<Rightarrow> string \<Rightarrow> string" where
  "minio_policyName bucketName accountID = ''cosi-'' @ bucketName @ ''-'' @ accountID"

definition minio_GrantAccess ::
  "('h, 'w) minio_sdk \<Rightarrow> 'h minio_Client \<Rightarrow> string \<Rightarrow> string \<Rightarrow> string \<Rightarrow> string \<Rightarrow> string \<Rightarrow>
     ('w, go_error + smap) state" where
  "minio_GrantAccess sdk c bucketName accountID accessType existingAccessKey existingSecretKey =
     (let accessKey = (if existingAccessKey = '''' then minio_accessKeyForAccount accountID
                       else existingAccessKey);
          secretKey = (if existingSecretKey = '''' then minio_secretForAccount accountID
                       else existingSecretKey);
          policyName = minio_policyName bucketName accountID;
          policy = minio_grantPolicy bucketName accessType
      in
      if_err (ma_AddUser sdk (client_admin c) accessKey secretKey)
        (\<lambda>e. Inl (ErrWrap (''creating MinIO user '' @ quote accessKey @ '': '') e ''''))
     (if_err (ma_AddCannedPolicy sdk (client_admin c) policyName (json_marshal policy))
        (\<lambda>e. Inl (ErrWrap (''creating policy '' @ quote policyName @ '': '') e ''''))
     (if_err (ma_SetPolicy sdk (client_admin c) policyName accessKey False)
        (\<lambda>e. Inl (ErrWrap (''attaching policy to user '' @ quote accessKey @ '': '') e ''''))
     (ret (Inr [(''accessKeyID'', accessKey), (''accessSecretKey'', secretKey),
                (''bucketName'', bucketName), (''endpoint'', mg_EndpointURL sdk (client_s3 c))])))))"

definition minio_RevokeAccess ::
  "('h, 'w) minio_sdk \<Rightarrow> 'h minio_Client \<Rightarrow> string \<Rightarrow> string \<Rightarrow> string \<Rightarrow> ('w, go_error option) state"
  where
  "minio_RevokeAccess sdk c bucketName accountID accessKey =
     (let policyName = minio_policyName bucketName accountID;
          accessKey = (if accessKey = '''' then minio_accessKeyForAccount accountID else accessKey)
      in do {
        _ \<leftarrow> ma_RemoveUser sdk (client_admin c) accessKey;
        _ \<leftarrow> ma_RemoveCannedPolicy sdk (client_admin c) policyName;
        ret None
      })"

text \<open>The client as a \<^verbatim>\<open>backend.Provider\<close>; it has no \<^verbatim>\<open>ConfigureBucketSecurity\<close>.\<close>

definition minio_provider :: "('h, 'w) minio_sdk \<Rightarrow> 'h minio_Client \<Rightarrow> 'w Provider" where
  "minio_provider sdk c =
     \<lparr>CreateBucket = minio_CreateBucket sdk c, SetBucketQuota = minio_SetBucketQuota sdk c,
      SetBucketLifecycle = minio_SetBucketLifecycle sdk c,
      SetBucketReplication = minio_SetBucketReplication sdk c,
      GrantAccess = minio_GrantAccess sdk c, RevokeAccess = minio_RevokeAccess sdk c,
      DeleteBucket = minio_DeleteBucket sdk c, ConfigureBucketSecurity = None\<rparr>"

section \<open>Lemmas: configuration\<close>

lemma minio_firstSecretString_Nil [simp]: "minio_firstSecretString [] ks = ''''"
  by (induction ks) simp_all

lemma minio_firstSecretString_cong:
  "map_of d = map_of d' \<Longrightarrow> minio_firstSecretString d ks = minio_firstSecretString d' ks"
  by (induction ks) (simp_all split: option.split)

lemma minio_firstSecretString_trimmed:
  "trim_space (minio_firstSecretString d ks) = minio_firstSecretString d ks"
  by (induction ks) (auto split: option.split)

declare minio_firstSecretString.simps(2) [simp del]

lemma map_of_eq_Nil_cong: "map_of d = map_of d' \<Longrightarrow> d = [] \<longleftrightarrow> d' = []"
  by (metis map_of_eq_empty_iff)

definition minio_required :: "string list list" where
  "minio_required = [[''MINIO_ENDPOINT'', ''endpoint''],
     [''MINIO_ACCESS_KEY'', ''accessKey'', ''accessKeyID''],
     [''MINIO_SECRET_KEY'', ''secretKey'', ''secretAccessKey'']]"

interpretation minio_config: secret_config minio_ConfigFromSecretData minio_firstSecretString minio_required
proof unfold_locales
  fix d d' :: smap and ks
  show "(\<exists>c. minio_ConfigFromSecretData d = Inr c) \<longleftrightarrow>
          d \<noteq> [] \<and> (\<forall>ks \<in> set minio_required. minio_firstSecretString d ks \<noteq> '''')"
    by (simp add: minio_ConfigFromSecretData_def minio_required_def Let_def)
  show "minio_firstSecretString [] ks = ''''" by simp
  show "minio_required \<noteq> []" by (simp add: minio_required_def)
  assume "map_of d = map_of d'"
  from minio_firstSecretString_cong [OF this] map_of_eq_Nil_cong [OF this]
  show "minio_ConfigFromSecretData d = minio_ConfigFromSecretData d'"
    by (simp add: minio_ConfigFromSecretData_def)
qed

lemma minio_config_fields:
  assumes "minio_ConfigFromSecretData d = Inr c"
  shows "mcfg_Endpoint c \<noteq> ''''" "mcfg_AccessKey c \<noteq> ''''" "mcfg_SecretKey c \<noteq> ''''"
    and "trim_space (mcfg_Endpoint c) = mcfg_Endpoint c"
    and "trim_space (mcfg_AccessKey c) = mcfg_AccessKey c"
    and "trim_space (mcfg_SecretKey c) = mcfg_SecretKey c"
  using assms
  by (auto simp: minio_ConfigFromSecretData_def Let_def minio_firstSecretString_trimmed
      split: if_splits)

section \<open>Lemmas: identities\<close>

definition lower_alnum :: "char \<Rightarrow> bool" where
  "lower_alnum c \<longleftrightarrow> (97 \<le> byte c \<and> byte c \<le> 122) \<or> (48 \<le> byte c \<and> byte c \<le> 57)"

lemma is_alnum_ascii: "list_all is_alnum s \<Longrightarrow> is_ascii s"
  by (auto simp: list_all_iff is_alnum_def is_ascii_def Let_def)

lemma lower_alnum_ascii_lower: "is_alnum c \<Longrightarrow> lower_alnum (ascii_lower c)"
  by (auto simp: is_alnum_def lower_alnum_def Let_def byte_ascii_lower is_upper_def)

lemma to_lower_alnum: "list_all is_alnum s \<Longrightarrow> list_all lower_alnum (to_lower s)"
  using is_alnum_ascii [of s] by (auto simp: to_lower_def list_all_iff lower_alnum_ascii_lower)

lemma take_to_lower_alnum:
  "list_all is_alnum s \<Longrightarrow> take n (to_lower s) = to_lower (take n s)"
  using is_alnum_ascii [of s]
  by (auto simp: to_lower_def is_ascii_def list_all_iff take_map dest: in_set_takeD)

lemma list_all_filter_alnum: "list_all is_alnum (filter is_alnum s)"
  by (simp add: list_all_iff)

lemma minio_accessKey_body:
  "minio_accessKeyForAccount a =
     ''cosi'' @ (if filter is_alnum a = [] then ''user'' else take 12 (to_lower (filter is_alnum a)))"
  by (simp add: minio_accessKeyForAccount_def Let_def)

interpretation minio_key: account_name minio_accessKeyForAccount "''cosi''" 12 lower_alnum
proof unfold_locales
  fix a c
  have "list_all lower_alnum (to_lower (filter is_alnum a))"
    by (simp add: to_lower_alnum list_all_filter_alnum)
  then have "list_all lower_alnum (take 12 (to_lower (filter is_alnum a)))"
    by (auto simp: list_all_iff dest: in_set_takeD)
  moreover have "list_all lower_alnum ''user''" by (simp add: lower_alnum_def)
  ultimately show "\<exists>body. minio_accessKeyForAccount a = ''cosi'' @ body \<and> body \<noteq> [] \<and>
      length body \<le> 12 \<and> list_all lower_alnum body"
    by (simp add: minio_accessKey_body)
  show "''cosi'' \<noteq> []" "list_all graphic ''cosi''" by (simp_all add: graphic_def)
  show "lower_alnum c \<Longrightarrow> graphic c" by (auto simp: lower_alnum_def graphic_def)
qed

lemma minio_accessKey_prefix:
  assumes "12 \<le> length (filter is_alnum a)"
  shows "minio_accessKeyForAccount (a @ b) = minio_accessKeyForAccount a"
proof -
  have "filter is_alnum a \<noteq> []" using assms by auto
  have "list_all is_alnum (filter is_alnum a @ filter is_alnum b)"
    by (simp add: list_all_filter_alnum)
  from take_to_lower_alnum [OF this, of 12] take_to_lower_alnum [OF list_all_filter_alnum, of 12 a]
  show ?thesis using assms \<open>filter is_alnum a \<noteq> []\<close> by (simp add: minio_accessKey_body)
qed

lemma hex_digit_graphic: "n < 16 \<Longrightarrow> graphic (hex_digit n)"
  by (auto simp: hex_digit_def graphic_def)

lemma list_all_hex: "list_all (\<lambda>b. b < 256) bs \<Longrightarrow> list_all graphic (hex_of_bytes bs)"
  by (induction bs) (auto simp: hex_of_bytes_def hex_byte_def hex_digit_graphic)

lemma minio_secret_graphic: "list_all graphic (minio_secretForAccount a)"
proof -
  let ?sum = "sha1_sum (map of_char a)"
  have "list_all (\<lambda>b. b < 256) (take 4 ?sum)"
    using sha1_sum_bytes [of "map of_char a"] by (auto simp: list_all_iff dest: in_set_takeD)
  then show ?thesis by (simp add: minio_secretForAccount_def Let_def list_all_hex sha1_sum_bytes)
qed

lemma visible_secret: "visible (minio_secretForAccount a)"
proof (rule list_all_graphic_visible)
  have "length (minio_secretForAccount a) = 48"
    by (simp add: minio_secretForAccount_def Let_def)
  then show "minio_secretForAccount a \<noteq> []" by auto
qed (rule minio_secret_graphic)

section \<open>Lemmas: the operations\<close>

lemma minio_RevokeAccess_run:
  "run_state (minio_RevokeAccess sdk c b a k) w =
     (let k' = (if k = '''' then minio_accessKeyForAccount a else k);
          w1 = world_after (ma_RemoveUser sdk (client_admin c) k') w
      in (None, world_after (ma_RemoveCannedPolicy sdk (client_admin c) (minio_policyName b a)) w1))"
  by (auto simp: minio_RevokeAccess_def Let_def split: prod.splits)

text \<open>A grant that succeeded: the three calls it made, each in the world the one before it left.\<close>

lemma minio_GrantAccess_ok:
  assumes "run_state (minio_GrantAccess sdk c b a t k s) w = (Inr m, w')"
  defines "k' \<equiv> (if k = '''' then minio_accessKeyForAccount a else k)"
    and "s' \<equiv> (if s = '''' then minio_secretForAccount a else s)"
  obtains w1 w2 where
    "run_state (ma_AddUser sdk (client_admin c) k' s') w = (None, w1)"
    "run_state (ma_AddCannedPolicy sdk (client_admin c) (minio_policyName b a)
       (json_marshal (minio_grantPolicy b t))) w1 = (None, w2)"
    "run_state (ma_SetPolicy sdk (client_admin c) (minio_policyName b a) k' False) w2 = (None, w')"
    "m = [(''accessKeyID'', k'), (''accessSecretKey'', s'), (''bucketName'', b),
          (''endpoint'', mg_EndpointURL sdk (client_s3 c))]"
  using assms(1) unfolding minio_GrantAccess_def Let_def k'_def [symmetric] s'_def [symmetric]
  by (auto simp: run_simps split: prod.splits option.splits)

lemma minio_GrantAccess_map:
  assumes "result_of (minio_GrantAccess sdk c b a t k s) w = Inr m"
  shows "m = [(''accessKeyID'', if k = '''' then minio_accessKeyForAccount a else k),
              (''accessSecretKey'', if s = '''' then minio_secretForAccount a else s),
              (''bucketName'', b), (''endpoint'', mg_EndpointURL sdk (client_s3 c))]"
proof -
  obtain w' where "run_state (minio_GrantAccess sdk c b a t k s) w = (Inr m, w')"
    using assms by (metis prod.collapse)
  then show ?thesis by (rule minio_GrantAccess_ok)
qed

interpretation minio_backend: bucket_provider "minio_provider sdk c" for sdk c
proof unfold_locales
  fix b a k w t s m and q :: "64 word"
  show "result_of (RevokeAccess (minio_provider sdk c) b a k) w = None"
    by (simp add: minio_provider_def minio_RevokeAccess_run Let_def)
  show "q \<le>s 0 \<Longrightarrow> SetBucketQuota (minio_provider sdk c) b q = ret None"
    by (simp add: minio_provider_def minio_SetBucketQuota_def)
  assume "result_of (GrantAccess (minio_provider sdk c) b a t k s) w = Inr m"
  then have m: "result_of (minio_GrantAccess sdk c b a t k s) w = Inr m"
    by (simp add: minio_provider_def)
  from minio_GrantAccess_map [OF m] show "smap_get m ''bucketName'' = b" by simp
  assume "visible k" "visible s"
  with minio_GrantAccess_map [OF m] visible_not_Nil [of k] visible_not_Nil [of s]
  show "smap_get m ''accessKeyID'' = k \<and> smap_get m ''accessSecretKey'' = s" by simp
qed

section \<open>What the properties assume of a MinIO server\<close>

text \<open>
  \<open>store_laws sdk h S\<close>: \<open>S\<close> reads the buckets that exist from the world. \<^verbatim>\<open>BucketExists\<close> reports them and
  changes none; a \<^verbatim>\<open>MakeBucket\<close> or \<^verbatim>\<open>RemoveBucket\<close> without an error has added or removed its bucket.
  Nothing is assumed of a call that fails.
\<close>

definition store_laws :: "('h, 'w) minio_sdk \<Rightarrow> 'h \<Rightarrow> ('w \<Rightarrow> string set) \<Rightarrow> bool" where
  "store_laws sdk h S \<longleftrightarrow>
     (\<forall>w b w' r. run_state (mg_BucketExists sdk h b) w = (Inr r, w') \<longrightarrow> S w' = S w \<and> r = (b \<in> S w)) \<and>
     (\<forall>w b reg l w'. run_state (mg_MakeBucket sdk h b reg l) w = (None, w') \<longrightarrow> S w' = insert b (S w)) \<and>
     (\<forall>w b w'. run_state (mg_RemoveBucket sdk h b) w = (None, w') \<longrightarrow> S w' = S w - {b})"

text \<open>
  The users, the canned policies and the policy attached to each user, as \<open>V\<close> reads them from the
  world; \<open>admin_laws\<close> says what the calls do to them when they report success. Removing a user removes
  its attachment.
\<close>

record admin_view =
  av_users :: "string \<Rightarrow> string option"
  av_policies :: "string \<Rightarrow> string option"
  av_attached :: "string \<Rightarrow> string option"

definition admin_laws :: "('h, 'w) minio_sdk \<Rightarrow> 'h \<Rightarrow> ('w \<Rightarrow> admin_view) \<Rightarrow> bool" where
  "admin_laws sdk h V \<longleftrightarrow>
     (\<forall>w u s w'. run_state (ma_AddUser sdk h u s) w = (None, w') \<longrightarrow>
        V w' = (V w)\<lparr>av_users := (av_users (V w))(u \<mapsto> s)\<rparr>) \<and>
     (\<forall>w n p w'. run_state (ma_AddCannedPolicy sdk h n p) w = (None, w') \<longrightarrow>
        V w' = (V w)\<lparr>av_policies := (av_policies (V w))(n \<mapsto> p)\<rparr>) \<and>
     (\<forall>w n u w'. run_state (ma_SetPolicy sdk h n u False) w = (None, w') \<longrightarrow>
        V w' = (V w)\<lparr>av_attached := (av_attached (V w))(u \<mapsto> n)\<rparr>) \<and>
     (\<forall>w u w'. run_state (ma_RemoveUser sdk h u) w = (None, w') \<longrightarrow>
        V w' = (V w)\<lparr>av_users := (av_users (V w))(u := None),
                      av_attached := (av_attached (V w))(u := None)\<rparr>) \<and>
     (\<forall>w n w'. run_state (ma_RemoveCannedPolicy sdk h n) w = (None, w') \<longrightarrow>
        V w' = (V w)\<lparr>av_policies := (av_policies (V w))(n := None)\<rparr>)"

lemma admin_lawsD:
  assumes "admin_laws sdk h V"
  shows "run_state (ma_AddUser sdk h u s) w = (None, w') \<Longrightarrow>
           V w' = (V w)\<lparr>av_users := (av_users (V w))(u \<mapsto> s)\<rparr>"
    and "run_state (ma_AddCannedPolicy sdk h n p) w = (None, w') \<Longrightarrow>
           V w' = (V w)\<lparr>av_policies := (av_policies (V w))(n \<mapsto> p)\<rparr>"
    and "run_state (ma_SetPolicy sdk h n u False) w = (None, w') \<Longrightarrow>
           V w' = (V w)\<lparr>av_attached := (av_attached (V w))(u \<mapsto> n)\<rparr>"
    and "run_state (ma_RemoveUser sdk h u) w = (None, w') \<Longrightarrow>
           V w' = (V w)\<lparr>av_users := (av_users (V w))(u := None),
                         av_attached := (av_attached (V w))(u := None)\<rparr>"
    and "run_state (ma_RemoveCannedPolicy sdk h n) w = (None, w') \<Longrightarrow>
           V w' = (V w)\<lparr>av_policies := (av_policies (V w))(n := None)\<rparr>"
  using assms by (simp_all add: admin_laws_def)

text \<open>What a grant leaves of the server, and what a revocation does.\<close>

definition granted :: "string \<Rightarrow> string \<Rightarrow> string \<Rightarrow> string \<Rightarrow> string \<Rightarrow> admin_view \<Rightarrow> admin_view" where
  "granted b a t k s v =
     v\<lparr>av_users := (av_users v)(k \<mapsto> s),
       av_policies := (av_policies v)(minio_policyName b a \<mapsto> json_marshal (minio_grantPolicy b t)),
       av_attached := (av_attached v)(k \<mapsto> minio_policyName b a)\<rparr>"

definition revoked :: "string \<Rightarrow> string \<Rightarrow> string \<Rightarrow> admin_view \<Rightarrow> admin_view" where
  "revoked b a k v =
     v\<lparr>av_users := (av_users v)(k := None), av_policies := (av_policies v)(minio_policyName b a := None),
       av_attached := (av_attached v)(k := None)\<rparr>"

lemma revoked_granted:
  "av_users v k = None \<Longrightarrow> av_attached v k = None \<Longrightarrow> av_policies v (minio_policyName b a) = None \<Longrightarrow>
     revoked b a k (granted b a t k s v) = v"
  by (cases v) (auto simp: revoked_def granted_def fun_eq_iff)

section \<open>A MinIO server in memory, for examples\<close>

record mem_minio =
  mem_buckets :: "string list"
  mem_users :: smap
  mem_policies :: smap
  mem_attached :: smap

definition ok_after :: "('w \<Rightarrow> 'w) \<Rightarrow> ('w, go_error option) state" where
  "ok_after f = State (\<lambda>w. (None, f w))"

lemma run_ok_after [run_simps]: "run_state (ok_after f) w = (None, f w)"
  by (simp add: ok_after_def)

definition mem_sdk :: "(unit, mem_minio) minio_sdk" where
  "mem_sdk =
     \<lparr>miniogo_New = (\<lambda>_ _ _ _. Inr ()), madmin_New = (\<lambda>_ _ _ _. Inr ()),
      mg_BucketExists = (\<lambda>_ b. State (\<lambda>w. (Inr (b \<in> set (mem_buckets w)), w))),
      mg_MakeBucket = (\<lambda>_ b _ _. ok_after (\<lambda>w. w\<lparr>mem_buckets := List.insert b (mem_buckets w)\<rparr>)),
      mg_RemoveBucket = (\<lambda>_ b. ok_after (\<lambda>w. w\<lparr>mem_buckets := removeAll b (mem_buckets w)\<rparr>)),
      mg_SetBucketLifecycle = (\<lambda>_ _ _. ret None), mg_SetBucketReplication = (\<lambda>_ _ _. ret None),
      mg_EndpointURL = (\<lambda>_. ''http://minio:9000''),
      ma_SetBucketQuota = (\<lambda>_ _ _. ret None),
      ma_AddUser = (\<lambda>_ u s. ok_after (\<lambda>w. w\<lparr>mem_users := AList.update u s (mem_users w)\<rparr>)),
      ma_AddCannedPolicy = (\<lambda>_ n p. ok_after (\<lambda>w. w\<lparr>mem_policies := AList.update n p (mem_policies w)\<rparr>)),
      ma_SetPolicy = (\<lambda>_ n u _. ok_after (\<lambda>w. w\<lparr>mem_attached := AList.update u n (mem_attached w)\<rparr>)),
      ma_RemoveUser = (\<lambda>_ u. ok_after (\<lambda>w. w\<lparr>mem_users := AList.delete u (mem_users w),
                                          mem_attached := AList.delete u (mem_attached w)\<rparr>)),
      ma_RemoveCannedPolicy =
        (\<lambda>_ n. ok_after (\<lambda>w. w\<lparr>mem_policies := AList.delete n (mem_policies w)\<rparr>))\<rparr>"

definition mem_client :: "unit minio_Client" where
  "mem_client = \<lparr>client_s3 = (), client_admin = ()\<rparr>"

definition mem_empty :: mem_minio where
  "mem_empty = \<lparr>mem_buckets = [], mem_users = [], mem_policies = [], mem_attached = []\<rparr>"

definition mem_view :: "mem_minio \<Rightarrow> admin_view" where
  "mem_view w = \<lparr>av_users = map_of (mem_users w), av_policies = map_of (mem_policies w),
     av_attached = map_of (mem_attached w)\<rparr>"

lemma mem_store_laws: "store_laws mem_sdk h (\<lambda>w. set (mem_buckets w))"
  by (auto simp: store_laws_def mem_sdk_def run_simps)

lemma mem_admin_laws: "admin_laws mem_sdk h mem_view"
  by (auto simp: admin_laws_def mem_sdk_def run_simps mem_view_def update_conv' delete_conv')

section \<open>Properties\<close>

lemma minio_create_store:
  assumes "store_laws sdk (client_s3 c) S"
    and "run_state (minio_CreateBucket sdk c b r l) w = (None, w')"
  shows "S w' = insert b (S w)"
  using assms
  by (auto simp: minio_CreateBucket_def run_simps store_laws_def split: prod.splits sum.splits
      option.splits if_splits)

lemma minio_delete_store:
  assumes "store_laws sdk (client_s3 c) S"
    and "run_state (minio_DeleteBucket sdk c b) w = (None, w')"
  shows "S w' = S w - {b}"
  using assms
  by (auto simp: minio_DeleteBucket_def run_simps store_laws_def split: prod.splits sum.splits
      option.splits if_splits)

lemma minio_create_existing:
  assumes "store_laws sdk (client_s3 c) S" and "b \<in> S w"
  shows "run_state (minio_CreateBucket (sdk\<lparr>mg_MakeBucket := f\<rparr>) c b r l) w =
         run_state (minio_CreateBucket sdk c b r l) w"
  using assms
  by (auto simp: minio_CreateBucket_def run_simps store_laws_def split: prod.splits sum.splits)

lemma minio_delete_missing:
  assumes "store_laws sdk (client_s3 c) S" and "b \<notin> S w"
  shows "run_state (minio_DeleteBucket (sdk\<lparr>mg_RemoveBucket := f\<rparr>) c b) w =
         run_state (minio_DeleteBucket sdk c b) w"
  using assms
  by (auto simp: minio_DeleteBucket_def run_simps store_laws_def split: prod.splits sum.splits)

text \<open>C24. Creating and deleting a bucket are idempotent on a server that reports its buckets
  faithfully: a create that succeeds leaves exactly one more bucket, creating it again never calls
  \<^verbatim>\<open>MakeBucket\<close>, a delete that succeeds takes exactly it away, and deleting it again never calls
  \<^verbatim>\<open>RemoveBucket\<close>.\<close>

theorem minio_bucket_lifecycle:
  assumes "store_laws sdk (client_s3 c) S"
    and "run_state (minio_CreateBucket sdk c b r l) w = (None, w1)"
    and "run_state (minio_DeleteBucket sdk c b) w1 = (None, w2)"
  shows "S w1 = insert b (S w) \<and> S w2 = S w - {b} \<and>
         run_state (minio_CreateBucket (sdk\<lparr>mg_MakeBucket := f\<rparr>) c b r' l') w1 =
           run_state (minio_CreateBucket sdk c b r' l') w1 \<and>
         run_state (minio_DeleteBucket (sdk\<lparr>mg_RemoveBucket := g\<rparr>) c b) w2 =
           run_state (minio_DeleteBucket sdk c b) w2"
  using minio_create_store [OF assms(1,2)] minio_delete_store [OF assms(1,3)]
    minio_create_existing [OF assms(1)] minio_delete_missing [OF assms(1)]
  by auto

theorem minio_bucket_lifecycle_witness:
  "set (mem_buckets (world_after (minio_DeleteBucket mem_sdk mem_client ''b'')
     (mem_empty\<lparr>mem_buckets := [''b'']\<rparr>))) = {} \<and>
   run_state (minio_CreateBucket (mem_sdk\<lparr>mg_MakeBucket := \<lambda>_ _ _ _. ret (Some (ErrText ''no''))\<rparr>)
      mem_client ''b'' '''' False) (mem_empty\<lparr>mem_buckets := [''b'']\<rparr>) = (None, mem_empty\<lparr>mem_buckets := [''b'']\<rparr>)"
proof -
  let ?w1 = "mem_empty\<lparr>mem_buckets := [''b'']\<rparr>"
  have h1: "run_state (minio_CreateBucket mem_sdk mem_client ''b'' '''' False) mem_empty = (None, ?w1)"
    and h2: "run_state (minio_DeleteBucket mem_sdk mem_client ''b'') ?w1 = (None, mem_empty)"
    and h3: "run_state (minio_CreateBucket mem_sdk mem_client ''b'' '''' False) ?w1 = (None, ?w1)"
    by (simp_all add: minio_CreateBucket_def minio_DeleteBucket_def mem_sdk_def mem_client_def
        mem_empty_def run_simps)
  from minio_bucket_lifecycle [OF mem_store_laws h1 h2, of "\<lambda>_ _ _ _. ret (Some (ErrText ''no''))"]
  show ?thesis using h2 h3 by (simp del: minio_sdk.simps) (simp add: mem_empty_def)
qed

text \<open>C9. A grant that succeeds refines the abstract \<open>granted\<close>: the server has the user with the
  secret handed out, the bucket's policy, and that policy attached to that user, and nothing else
  changed. The keys handed out are those passed in, where given, and otherwise derived from the
  account. Revoking with the access key handed out undoes it, where the removals succeed.\<close>

theorem minio_grant_then_revoke:
  assumes "admin_laws sdk (client_admin c) V"
    and "run_state (minio_GrantAccess sdk c b a t k s) w = (Inr m, w1)"
  shows "V w1 = granted b a t (smap_get m ''accessKeyID'') (smap_get m ''accessSecretKey'') (V w) \<and>
         smap_get m ''accessKeyID'' = (if k = '''' then minio_accessKeyForAccount a else k) \<and>
         smap_get m ''accessSecretKey'' = (if s = '''' then minio_secretForAccount a else s) \<and>
         (\<forall>w2. run_state (ma_RemoveUser sdk (client_admin c) (smap_get m ''accessKeyID'')) w1 = (None, w2) \<longrightarrow>
            result_of (ma_RemoveCannedPolicy sdk (client_admin c) (minio_policyName b a)) w2 = None \<longrightarrow>
            V (world_after (minio_RevokeAccess sdk c b a (smap_get m ''accessKeyID'')) w1) =
              revoked b a (smap_get m ''accessKeyID'') (V w1))"
proof -
  let ?k = "if k = '''' then minio_accessKeyForAccount a else k"
  from minio_GrantAccess_ok [OF assms(2)] obtain u1 u2 where
    calls: "run_state (ma_AddUser sdk (client_admin c) ?k
              (if s = '''' then minio_secretForAccount a else s)) w = (None, u1)"
      "run_state (ma_AddCannedPolicy sdk (client_admin c) (minio_policyName b a)
         (json_marshal (minio_grantPolicy b t))) u1 = (None, u2)"
      "run_state (ma_SetPolicy sdk (client_admin c) (minio_policyName b a) ?k False) u2 = (None, w1)"
    and m: "m = [(''accessKeyID'', ?k), (''accessSecretKey'', if s = '''' then minio_secretForAccount a else s),
              (''bucketName'', b), (''endpoint'', mg_EndpointURL sdk (client_s3 c))]"
    by blast
  note laws = admin_lawsD [OF assms(1)]
  have granted: "V w1 = granted b a t ?k (if s = '''' then minio_secretForAccount a else s) (V w)"
    using laws(1) [OF calls(1)] laws(2) [OF calls(2)] laws(3) [OF calls(3)] by (simp add: granted_def)
  have k: "?k \<noteq> ''''" using minio_key.enc_not_Nil by simp
  have "V (world_after (minio_RevokeAccess sdk c b a ?k) w1) = revoked b a ?k (V w1)"
    if user: "run_state (ma_RemoveUser sdk (client_admin c) ?k) w1 = (None, w2)"
      and policy: "result_of (ma_RemoveCannedPolicy sdk (client_admin c) (minio_policyName b a)) w2 = None" for w2
  proof -
    obtain w3 where w3: "run_state (ma_RemoveCannedPolicy sdk (client_admin c) (minio_policyName b a)) w2
        = (None, w3)" using policy by (metis prod.collapse)
    from laws(4) [OF user] laws(5) [OF w3] k user w3 show ?thesis
      by (simp add: minio_RevokeAccess_run Let_def revoked_def)
  qed
  with granted m show ?thesis by simp
qed

lemma mem_grant:
  "run_state (minio_GrantAccess mem_sdk mem_client ''b'' ''a'' ''ReadOnly'' ''k'' ''s'') mem_empty =
     (Inr [(''accessKeyID'', ''k''), (''accessSecretKey'', ''s''), (''bucketName'', ''b''),
           (''endpoint'', ''http://minio:9000'')],
      \<lparr>mem_buckets = [], mem_users = [(''k'', ''s'')],
       mem_policies = [(''cosi-b-a'', json_marshal (minio_grantPolicy ''b'' ''ReadOnly''))],
       mem_attached = [(''k'', ''cosi-b-a'')]\<rparr>)"
  by (simp add: minio_GrantAccess_def mem_sdk_def mem_client_def mem_empty_def run_simps
      minio_policyName_def Let_def)

theorem minio_grant_then_revoke_witness:
  "mem_view (world_after (minio_RevokeAccess mem_sdk mem_client ''b'' ''a'' ''k'')
     (world_after (minio_GrantAccess mem_sdk mem_client ''b'' ''a'' ''ReadOnly'' ''k'' ''s'') mem_empty)) =
   mem_view mem_empty"
proof -
  let ?w1 = "world_after (minio_GrantAccess mem_sdk mem_client ''b'' ''a'' ''ReadOnly'' ''k'' ''s'') mem_empty"
  let ?w2 = "world_after (ma_RemoveUser mem_sdk () ''k'') ?w1"
  have r: "run_state (ma_RemoveUser mem_sdk () ''k'') ?w1 = (None, ?w2)"
    "result_of (ma_RemoveCannedPolicy mem_sdk () (minio_policyName ''b'' ''a'')) ?w2 = None"
    by (simp_all add: mem_sdk_def run_simps)
  have c: "client_admin mem_client = ()" by simp
  have run: "run_state (minio_GrantAccess mem_sdk mem_client ''b'' ''a'' ''ReadOnly'' ''k'' ''s'') mem_empty =
     (Inr [(''accessKeyID'', ''k''), (''accessSecretKey'', ''s''), (''bucketName'', ''b''),
           (''endpoint'', ''http://minio:9000'')], ?w1)"
    by (simp add: mem_grant)
  note grant = minio_grant_then_revoke [OF mem_admin_laws run]
  have "mem_view (world_after (minio_RevokeAccess mem_sdk mem_client ''b'' ''a'' ''k'') ?w1) =
      revoked ''b'' ''a'' ''k'' (granted ''b'' ''a'' ''ReadOnly'' ''k'' ''s'' (mem_view mem_empty))"
    using grant r c by simp
  then show ?thesis by (simp add: revoked_granted mem_view_def mem_empty_def)
qed

definition read_actions :: "string list" where
  "read_actions = [''s3:GetObject'', ''s3:ListBucket'', ''s3:GetBucketLocation'']"

definition write_actions :: "string list" where
  "write_actions = [''s3:PutObject'', ''s3:DeleteObject'']"

lemma one_statement_policy:
  "policy_allows (JObj [(''Version'', v), (''Statement'', JArr [JObj
       [(''Effect'', JStr ''Allow''), (''Action'', JArr (map JStr as)), (''Resource'', rs)]])]) act res \<longleftrightarrow>
   list_ex (\<lambda>p. glob p act) as \<and> list_ex (\<lambda>p. glob p res) (json_strings (Some rs))"
  by (simp add: policy_allows_def policy_denies_def policy_statements_def statement_matches_def comp_def
      concat_map_singleton [of id, simplified])

lemma glob_actions:
  "list_ex (\<lambda>p. glob p act) read_actions \<longleftrightarrow> act \<in> set read_actions"
  "list_ex (\<lambda>p. glob p act) write_actions \<longleftrightarrow> act \<in> set write_actions"
  by (auto simp: read_actions_def write_actions_def glob_literal)

text \<open>C10. Least privilege: the policy of a grant allows reading its bucket and the objects in it, and
  writing and deleting objects only where the access type is not \<^verbatim>\<open>ReadOnly\<close>; it allows nothing else,
  and nothing on any other bucket.\<close>

theorem minio_least_privilege:
  assumes "literal b"
  shows "policy_allows (minio_grantPolicy b t) act res \<longleftrightarrow>
           in_bucket b res \<and>
           (act \<in> set read_actions \<or> act \<in> set write_actions \<and> \<not> equal_fold t ''ReadOnly'')"
    (is "?allowed \<longleftrightarrow> _")
proof -
  have ro: "minio_bucketPolicyReadOnly b = JObj [(''Version'', JStr ''2012-10-17''),
      (''Statement'', JArr [JObj [(''Effect'', JStr ''Allow''), (''Action'', JArr (map JStr read_actions)),
         (''Resource'', bucket_resources b)]])]"
    by (simp add: minio_bucketPolicyReadOnly_def read_actions_def)
  have rw: "minio_bucketPolicy b = JObj [(''Version'', JStr ''2012-10-17''),
      (''Statement'', JArr [JObj [(''Effect'', JStr ''Allow''), (''Action'', JArr (map JStr
          ([''s3:GetObject'', ''s3:PutObject'', ''s3:DeleteObject'', ''s3:ListBucket'', ''s3:GetBucketLocation'']))),
         (''Resource'', bucket_resources b)]])]"
    by (simp add: minio_bucketPolicy_def)
  have rw_actions: "list_ex (\<lambda>p. glob p act)
      [''s3:GetObject'', ''s3:PutObject'', ''s3:DeleteObject'', ''s3:ListBucket'', ''s3:GetBucketLocation''] \<longleftrightarrow>
      act \<in> set read_actions \<or> act \<in> set write_actions"
    by (auto simp: read_actions_def write_actions_def glob_literal)
  show ?thesis
  proof (cases "equal_fold t ''ReadOnly''")
    case True
    then show ?thesis
      by (auto simp: minio_grantPolicy_def ro one_statement_policy glob_actions bucket_resources_match assms)
  next
    case False
    then have grant: "minio_grantPolicy b t = minio_bucketPolicy b" by (simp add: minio_grantPolicy_def)
    show ?thesis
      unfolding grant rw one_statement_policy rw_actions bucket_resources_match [OF assms]
      using False by blast
  qed
qed

theorem minio_least_privilege_witness:
  "\<not> policy_allows (minio_grantPolicy ''logs'' ''readonly'') ''s3:PutObject'' ''arn:aws:s3:::logs/x'' \<and>
   policy_allows (minio_grantPolicy ''logs'' ''ReadWrite'') ''s3:PutObject'' ''arn:aws:s3:::logs/x'' \<and>
   \<not> policy_allows (minio_grantPolicy ''logs'' ''ReadWrite'') ''s3:PutObject'' ''arn:aws:s3:::logs-2/x''"
proof -
  have "literal ''logs''" by simp
  note priv = minio_least_privilege [OF this]
  have "equal_fold ''readonly'' ''ReadOnly''" "\<not> equal_fold ''ReadWrite'' ''ReadOnly''"
    by (simp_all add: equal_fold_ascii is_ascii_def fold_rune_def)
  then show ?thesis
    by (simp add: priv in_bucket_def bucket_arn_def read_actions_def write_actions_def)
qed

lemma is_alnum_set:
  "is_alnum c \<longleftrightarrow> c \<in> set ''0123456789ABCDEFGHIJKLMNOPQRSTUVWXYZabcdefghijklmnopqrstuvwxyz''"
proof -
  let ?s = "''0123456789ABCDEFGHIJKLMNOPQRSTUVWXYZabcdefghijklmnopqrstuvwxyz''"
  have bytes: "map byte ?s = [48..<58] @ [65..<91] @ [97..<123]" by code_simp
  have inj: "c \<in> S \<longleftrightarrow> byte c \<in> byte ` S" for S by (auto simp: image_iff)
  have "c \<in> set ?s \<longleftrightarrow> byte c \<in> byte ` set ?s" by (rule inj)
  also have "byte ` set ?s = set (map byte ?s)" by (rule list.set_map [symmetric])
  also have "byte c \<in> \<dots> \<longleftrightarrow> is_alnum c" 
    unfolding bytes set_append set_upt Un_iff atLeastLessThan_iff is_alnum_def Let_def by arith
  finally show ?thesis ..
qed

lemma minio_accessKey_collision:
  assumes "take 12 (to_lower (filter is_alnum a')) = take 12 (to_lower (filter is_alnum a))"
  shows "minio_accessKeyForAccount a' = minio_accessKeyForAccount a"
proof -
  have nil: "take 12 (to_lower (filter is_alnum s)) = [] \<longleftrightarrow> filter is_alnum s = []" for s
    by (simp add: to_lower_alnum list_all_filter_alnum)
  show ?thesis using assms nil [of a] nil [of a'] by (simp add: minio_accessKey_body)
qed

lemma minio_accessKey_eq:
  assumes "filter is_alnum a \<noteq> ''''" "filter is_alnum a' \<noteq> ''''"
  shows "minio_accessKeyForAccount a' = minio_accessKeyForAccount a \<longleftrightarrow>
    take 12 (to_lower (filter is_alnum a')) = take 12 (to_lower (filter is_alnum a))"
  using assms by (simp add: minio_accessKey_body)

lemma minio_revoke_removes_user:
  assumes "admin_laws sdk (client_admin c) V"
    and "run_state (ma_RemoveUser sdk (client_admin c) (minio_accessKeyForAccount a)) w = (None, w1)"
    and "run_state (ma_RemoveCannedPolicy sdk (client_admin c) (minio_policyName b a)) w1 = (None, w2)"
  shows "av_users (V (world_after (minio_RevokeAccess sdk c b a '''') w)) (minio_accessKeyForAccount a) = None"
proof -
  from admin_lawsD(4) [OF assms(1,2)] admin_lawsD(5) [OF assms(1,3)]
  have "V w2 = revoked b a (minio_accessKeyForAccount a) (V w)" by (simp add: revoked_def)
  with assms(2,3) show ?thesis by (simp add: minio_RevokeAccess_run Let_def revoked_def)
qed

text \<open>C25. The access key of an account is \<^verbatim>\<open>cosi\<close> and the first twelve of its letters and digits in lower
  case, or \<^verbatim>\<open>user\<close> where it has none. It does not identify the account: two accounts with a letter or
  digit have the same key exactly where those twelve agree, and then revoking the access of the one
  removes the MinIO user of the other. So two claims of a namespace with twelve or more letters and
  digits always share their user.\<close>

theorem minio_access_key:
  "minio_accessKeyForAccount a =
     ''cosi'' @ (if filter is_alnum a = '''' then ''user'' else take 12 (to_lower (filter is_alnum a))) \<and>
   (is_alnum x \<longleftrightarrow> x \<in> set ''0123456789ABCDEFGHIJKLMNOPQRSTUVWXYZabcdefghijklmnopqrstuvwxyz'') \<and>
   5 \<le> length (minio_accessKeyForAccount a) \<and> length (minio_accessKeyForAccount a) \<le> 16 \<and>
   (\<exists>body. minio_accessKeyForAccount a = ''cosi'' @ body \<and> list_all lower_alnum body) \<and>
   (filter is_alnum a \<noteq> '''' \<and> filter is_alnum a' \<noteq> '''' \<longrightarrow>
      (minio_accessKeyForAccount a' = minio_accessKeyForAccount a \<longleftrightarrow>
         take 12 (to_lower (filter is_alnum a')) = take 12 (to_lower (filter is_alnum a)))) \<and>
   (take 12 (to_lower (filter is_alnum a')) = take 12 (to_lower (filter is_alnum a)) \<and>
      admin_laws sdk (client_admin c) V \<and>
      run_state (ma_RemoveUser sdk (client_admin c) (minio_accessKeyForAccount a)) w = (None, w1) \<and>
      run_state (ma_RemoveCannedPolicy sdk (client_admin c) (minio_policyName b a)) w1 = (None, w2) \<longrightarrow>
      av_users (V (world_after (minio_RevokeAccess sdk c b a '''') w)) (minio_accessKeyForAccount a') = None) \<and>
   (12 \<le> length (filter is_alnum (claim_Namespace claim)) \<and> claim_Namespace other = claim_Namespace claim \<longrightarrow>
      minio_accessKeyForAccount (account_id other) = minio_accessKeyForAccount (account_id claim) \<and>
      (admin_laws sdk (client_admin c) V \<and>
       run_state (ma_RemoveUser sdk (client_admin c) (minio_accessKeyForAccount (account_id claim))) w = (None, w1) \<and>
       run_state (ma_RemoveCannedPolicy sdk (client_admin c) (minio_policyName b (account_id claim))) w1 = (None, w2) \<longrightarrow>
       av_users (V (world_after (minio_RevokeAccess sdk c b (account_id claim) '''') w))
         (minio_accessKeyForAccount (account_id other)) = None))"
proof (intro conjI impI)
  show "minio_accessKeyForAccount a =
     ''cosi'' @ (if filter is_alnum a = '''' then ''user'' else take 12 (to_lower (filter is_alnum a)))"
    by (rule minio_accessKey_body)
  show "is_alnum x \<longleftrightarrow> x \<in> set ''0123456789ABCDEFGHIJKLMNOPQRSTUVWXYZabcdefghijklmnopqrstuvwxyz''"
    by (rule is_alnum_set)
  show "5 \<le> length (minio_accessKeyForAccount a)" "length (minio_accessKeyForAccount a) \<le> 16"
    using minio_key.length_enc [of a] by simp_all
  show "\<exists>body. minio_accessKeyForAccount a = ''cosi'' @ body \<and> list_all lower_alnum body"
    using minio_key.enc_shape [of a] by blast
  show "minio_accessKeyForAccount a' = minio_accessKeyForAccount a \<longleftrightarrow>
      take 12 (to_lower (filter is_alnum a')) = take 12 (to_lower (filter is_alnum a))"
    if "filter is_alnum a \<noteq> '''' \<and> filter is_alnum a' \<noteq> ''''"
    using that minio_accessKey_eq by blast
  show "av_users (V (world_after (minio_RevokeAccess sdk c b a '''') w)) (minio_accessKeyForAccount a') = None"
    if "take 12 (to_lower (filter is_alnum a')) = take 12 (to_lower (filter is_alnum a)) \<and>
      admin_laws sdk (client_admin c) V \<and>
      run_state (ma_RemoveUser sdk (client_admin c) (minio_accessKeyForAccount a)) w = (None, w1) \<and>
      run_state (ma_RemoveCannedPolicy sdk (client_admin c) (minio_policyName b a)) w1 = (None, w2)"
    using that minio_revoke_removes_user [of sdk c V a w w1 b w2] minio_accessKey_collision [of a' a] by simp
  assume "12 \<le> length (filter is_alnum (claim_Namespace claim)) \<and> claim_Namespace other = claim_Namespace claim"
  then show same: "minio_accessKeyForAccount (account_id other) = minio_accessKeyForAccount (account_id claim)"
    using minio_accessKey_prefix [of "claim_Namespace claim"] by (simp add: account_id_def)
  assume "admin_laws sdk (client_admin c) V \<and>
      run_state (ma_RemoveUser sdk (client_admin c) (minio_accessKeyForAccount (account_id claim))) w = (None, w1) \<and>
      run_state (ma_RemoveCannedPolicy sdk (client_admin c) (minio_policyName b (account_id claim))) w1 = (None, w2)"
  then show "av_users (V (world_after (minio_RevokeAccess sdk c b (account_id claim) '''') w))
      (minio_accessKeyForAccount (account_id other)) = None"
    unfolding same by (elim conjE) (rule minio_revoke_removes_user)
qed

theorem minio_access_key_witness:
  "minio_accessKeyForAccount ''team-a-photos-eu'' = ''cositeamaphotose'' \<and>
   av_users (mem_view (world_after (minio_RevokeAccess mem_sdk mem_client ''b''
       (account_id (named_claim ''team-billing-eu'' ''invoices'')) '''')
       (mem_empty\<lparr>mem_users :=
          [(minio_accessKeyForAccount (account_id (named_claim ''team-billing-eu'' ''photos'')), ''s'')]\<rparr>)))
     (minio_accessKeyForAccount (account_id (named_claim ''team-billing-eu'' ''photos''))) = None"
proof
  have "filter is_alnum ''team-a-photos-eu'' \<noteq> ''''"
    "take 12 (to_lower (filter is_alnum ''team-a-photos-eu'')) = ''teamaphotose''"
    by code_simp+
  then show "minio_accessKeyForAccount ''team-a-photos-eu'' = ''cositeamaphotose''"
    using minio_access_key [THEN conjunct1, of "''team-a-photos-eu''"] by simp
  let ?claim = "named_claim ''team-billing-eu'' ''invoices''"
  let ?other = "named_claim ''team-billing-eu'' ''photos''"
  let ?w = "mem_empty\<lparr>mem_users := [(minio_accessKeyForAccount (account_id ?other), ''s'')]\<rparr>"
  let ?m1 = "ma_RemoveUser mem_sdk () (minio_accessKeyForAccount (account_id ?claim))"
  let ?m2 = "ma_RemoveCannedPolicy mem_sdk () (minio_policyName ''b'' (account_id ?claim))"
  have agree: "take 12 (to_lower (filter is_alnum (account_id ?other))) =
      take 12 (to_lower (filter is_alnum (account_id ?claim)))"
    by code_simp
  have runs: "run_state ?m1 ?w = (None, world_after ?m1 ?w)"
    "run_state ?m2 (world_after ?m1 ?w) = (None, world_after ?m2 (world_after ?m1 ?w))"
    by (simp_all add: mem_sdk_def run_simps)
  have c: "client_admin mem_client = ()" by simp
  show "av_users (mem_view (world_after (minio_RevokeAccess mem_sdk mem_client ''b'' (account_id ?claim) '''') ?w))
      (minio_accessKeyForAccount (account_id ?other)) = None"
    using minio_access_key [where sdk = mem_sdk and c = mem_client and V = mem_view and w = ?w
        and b = "''b''" and ?w1.0 = "world_after ?m1 ?w" and a = "account_id ?claim" and a' = "account_id ?other"
        and ?w2.0 = "world_after ?m2 (world_after ?m1 ?w)", unfolded c,
        THEN conjunct2, THEN conjunct2, THEN conjunct2, THEN conjunct2, THEN conjunct2, THEN conjunct2,
        THEN conjunct1, THEN mp] agree runs mem_admin_laws by blast
qed

text \<open>C26. Configuring the client from a Secret: the data are accepted exactly when an endpoint, an
  access key and a secret key can be read from them; the order of the data does not count; and with an
  accepted configuration \<^verbatim>\<open>NewClient\<close> fails only where a constructor of the SDK does, which it calls
  with values that are not blank and carry no surrounding space.\<close>

theorem minio_config_contract:
  "((\<exists>cfg. minio_ConfigFromSecretData d = Inr cfg) \<longleftrightarrow>
      (\<forall>ks \<in> set minio_required. minio_firstSecretString d ks \<noteq> '''')) \<and>
   (set d = set d' \<and> distinct (map fst d) \<and> distinct (map fst d') \<longrightarrow>
      minio_ConfigFromSecretData d = minio_ConfigFromSecretData d') \<and>
   (minio_ConfigFromSecretData d = Inr cfg \<longrightarrow>
      (\<forall>f \<in> {mcfg_Endpoint, mcfg_AccessKey, mcfg_SecretKey}. f cfg \<noteq> '''' \<and> trim_space (f cfg) = f cfg) \<and>
      (\<forall>e. minio_NewClient sdk cfg = Inl e \<longrightarrow>
         (\<exists>e'. miniogo_New sdk (mcfg_Endpoint cfg) (mcfg_AccessKey cfg) (mcfg_SecretKey cfg) (mcfg_UseSSL cfg)
                 = Inl e' \<and> e = ErrWrap ''failed to create S3 client: '' e' '''' \<or>
               madmin_New sdk (mcfg_Endpoint cfg) (mcfg_AccessKey cfg) (mcfg_SecretKey cfg) (mcfg_UseSSL cfg)
                 = Inl e' \<and> e = ErrWrap ''failed to create admin client: '' e' '''')))"
proof (intro conjI impI)
  show "(\<exists>cfg. minio_ConfigFromSecretData d = Inr cfg) \<longleftrightarrow>
      (\<forall>ks \<in> set minio_required. minio_firstSecretString d ks \<noteq> '''')"
    by (rule minio_config.accepts_iff)
  show "minio_ConfigFromSecretData d = minio_ConfigFromSecretData d'"
    if "set d = set d' \<and> distinct (map fst d) \<and> distinct (map fst d')"
    using that minio_config.permuted by blast
  assume cfg: "minio_ConfigFromSecretData d = Inr cfg"
  note fields = minio_config_fields [OF cfg]
  show "\<forall>f \<in> {mcfg_Endpoint, mcfg_AccessKey, mcfg_SecretKey}. f cfg \<noteq> '''' \<and> trim_space (f cfg) = f cfg"
    using fields by simp
  show "\<forall>e. minio_NewClient sdk cfg = Inl e \<longrightarrow>
         (\<exists>e'. miniogo_New sdk (mcfg_Endpoint cfg) (mcfg_AccessKey cfg) (mcfg_SecretKey cfg) (mcfg_UseSSL cfg)
                 = Inl e' \<and> e = ErrWrap ''failed to create S3 client: '' e' '''' \<or>
               madmin_New sdk (mcfg_Endpoint cfg) (mcfg_AccessKey cfg) (mcfg_SecretKey cfg) (mcfg_UseSSL cfg)
                 = Inl e' \<and> e = ErrWrap ''failed to create admin client: '' e' '''')"
    using fields(1-3) by (auto simp: minio_NewClient_def split: sum.splits)
qed

lemma minio_example_config:
  "minio_ConfigFromSecretData [(''endpoint'', ''m:9000''), (''accessKey'', ''ak''), (''secretKey'', ''sk'')]
     = Inr \<lparr>mcfg_Endpoint = ''m:9000'', mcfg_AccessKey = ''ak'', mcfg_SecretKey = ''sk'',
            mcfg_UseSSL = False\<rparr>"
proof -
  have "trim_space ''m:9000'' = ''m:9000''" "trim_space ''ak'' = ''ak''" "trim_space ''sk'' = ''sk''"
    by (simp_all add: trim_space_graphic graphic_def)
  then show ?thesis
    by (simp add: minio_ConfigFromSecretData_def minio_firstSecretString.simps Let_def
        equal_fold_def runes_def)
qed

theorem minio_config_contract_witness:
  "trim_space (mcfg_Endpoint \<lparr>mcfg_Endpoint = ''m:9000'', mcfg_AccessKey = ''ak'', mcfg_SecretKey = ''sk'',
      mcfg_UseSSL = False\<rparr>) = ''m:9000''"
  using minio_config_contract [where sdk = mem_sdk, THEN conjunct2, THEN conjunct2, THEN mp,
      OF minio_example_config, THEN conjunct1] by simp

end
