(* ===== verification/Aws_Provider.thy ===== *)
theory Aws_Provider
  imports Contracts Iam_Policy
begin

text \<open>
  internal/backend/aws: configuration from a Secret (config.go), the IAM policy of a grant (policy.go)
  and the provider over S3 and IAM (provider.go). The AWS SDK is a parameter: a record of the calls the
  code makes, over the world \<open>'w\<close>, with \<open>'c\<close> a loaded configuration and \<open>'h\<close> a client. A method takes
  its receiver as an option, for a nil pointer; a nil pointer that is dereferenced is \<open>ErrPanic\<close>.
\<close>

section \<open>config.go\<close>

record aws_Config =
  acfg_Region :: string
  acfg_AccessKeyID :: string
  acfg_SecretAccessKey :: string
  acfg_S3Endpoint :: string
  acfg_IAMEndpoint :: string

fun aws_firstSecretString :: "smap \<Rightarrow> string list \<Rightarrow> string" where
  "aws_firstSecretString data [] = ''''"
| "aws_firstSecretString data (k # ks) =
     (case map_of data k of
        Some v \<Rightarrow> if v \<noteq> '''' then trim_space v else aws_firstSecretString data ks
      | None \<Rightarrow> aws_firstSecretString data ks)"

definition aws_ConfigFromSecretData :: "smap \<Rightarrow> go_error + aws_Config" where
  "aws_ConfigFromSecretData data =
     (if data = [] then Inl (ErrText ''secret data is empty'')
      else
        (let region = aws_firstSecretString data [''AWS_REGION'', ''region''];
             accessKeyID = aws_firstSecretString data [''AWS_ACCESS_KEY_ID'', ''accessKeyID''];
             secretAccessKey = aws_firstSecretString data
               [''AWS_SECRET_ACCESS_KEY'', ''secretAccessKey'', ''secretAccessKeyID''];
             s3Endpoint = aws_firstSecretString data [''AWS_S3_ENDPOINT'', ''s3Endpoint''];
             iamEndpoint = aws_firstSecretString data [''AWS_IAM_ENDPOINT'', ''iamEndpoint'']
         in if region = '''' \<or> accessKeyID = '''' \<or> secretAccessKey = ''''
            then Inl (ErrText ''secret must define AWS_REGION, AWS_ACCESS_KEY_ID, AWS_SECRET_ACCESS_KEY'')
            else Inr \<lparr>acfg_Region = region, acfg_AccessKeyID = accessKeyID,
                      acfg_SecretAccessKey = secretAccessKey, acfg_S3Endpoint = s3Endpoint,
                      acfg_IAMEndpoint = iamEndpoint\<rparr>))"

section \<open>policy.go\<close>

definition bucketPolicyDocument :: "string \<Rightarrow> bool \<Rightarrow> json" where
  "bucketPolicyDocument bucketName readOnly =
     (let actions = [''s3:GetObject'', ''s3:ListBucket'', ''s3:GetBucketLocation''];
          actions = (if \<not> readOnly then actions @ [''s3:PutObject'', ''s3:DeleteObject''] else actions)
      in JObj [(''Version'', JStr ''2012-10-17''),
               (''Statement'', JArr [JObj
                  [(''Effect'', JStr ''Allow''), (''Action'', JArr (map JStr actions)),
                   (''Resource'', bucket_resources bucketName)]])])"

section \<open>The SDK\<close>

record s3_CreateBucketInput =
  cbi_Bucket :: string
  cbi_ObjectLockEnabledForBucket :: "bool option"
  cbi_LocationConstraint :: "string option"

record s3_PublicAccessBlock =
  pab_BlockPublicAcls :: bool
  pab_IgnorePublicAcls :: bool
  pab_BlockPublicPolicy :: bool
  pab_RestrictPublicBuckets :: bool

datatype s3_Encryption = Aes256 | AwsKms string

datatype s3_Ownership = BucketOwnerEnforced | BucketOwnerPreferred | ObjectWriter

datatype s3_ExpirationStatus = StatusEnabled | StatusDisabled

record s3_LifecycleRule =
  slr_Status :: s3_ExpirationStatus
  slr_ID :: "string option"
  slr_Prefix :: "string option"
  slr_Days :: "32 word option"

record iam_AccessKey =
  iak_AccessKeyId :: "string option"
  iak_SecretAccessKey :: "string option"

text \<open>
  \<^item> \<open>aws_LoadConfig\<close>: \<^verbatim>\<open>awsconfig.LoadDefaultConfig\<close> with a region and static credentials;
    \<open>s3_NewFromConfig\<close> with the base endpoint, where set, and path style; \<open>iam_NewFromConfig\<close> alike;
  \<^item> the calls of the S3 and the IAM client. \<open>iam_CreateAccessKey\<close> yields the key of the output, a
    pointer; \<open>iam_ListAccessKeys\<close> the key ids of its first page.
\<close>

record ('c, 'h, 'w) aws_sdk =
  aws_LoadConfig :: "string \<Rightarrow> string \<Rightarrow> string \<Rightarrow> go_error + 'c"
  s3_NewFromConfig :: "'c \<Rightarrow> string option \<Rightarrow> bool \<Rightarrow> 'h"
  iam_NewFromConfig :: "'c \<Rightarrow> string option \<Rightarrow> 'h"
  s3_CreateBucket :: "'h \<Rightarrow> s3_CreateBucketInput \<Rightarrow> ('w, go_error option) state"
  s3_DeleteBucket :: "'h \<Rightarrow> string \<Rightarrow> ('w, go_error option) state"
  s3_PutBucketLifecycleConfiguration ::
    "'h \<Rightarrow> string \<Rightarrow> s3_LifecycleRule list \<Rightarrow> ('w, go_error option) state"
  s3_PutPublicAccessBlock :: "'h \<Rightarrow> string \<Rightarrow> s3_PublicAccessBlock \<Rightarrow> ('w, go_error option) state"
  s3_PutBucketOwnershipControls :: "'h \<Rightarrow> string \<Rightarrow> s3_Ownership list \<Rightarrow> ('w, go_error option) state"
  s3_PutBucketEncryption :: "'h \<Rightarrow> string \<Rightarrow> s3_Encryption list \<Rightarrow> ('w, go_error option) state"
  s3_PutBucketPolicy :: "'h \<Rightarrow> string \<Rightarrow> string \<Rightarrow> ('w, go_error option) state"
  iam_CreateUser :: "'h \<Rightarrow> string \<Rightarrow> ('w, go_error option) state"
  iam_DeleteUser :: "'h \<Rightarrow> string \<Rightarrow> ('w, go_error option) state"
  iam_CreateAccessKey :: "'h \<Rightarrow> string \<Rightarrow> ('w, go_error + iam_AccessKey option) state"
  iam_DeleteAccessKey :: "'h \<Rightarrow> string \<Rightarrow> string option \<Rightarrow> ('w, go_error option) state"
  iam_ListAccessKeys :: "'h \<Rightarrow> string \<Rightarrow> ('w, go_error + string option list) state"
  iam_PutUserPolicy :: "'h \<Rightarrow> string \<Rightarrow> string \<Rightarrow> string \<Rightarrow> ('w, go_error option) state"
  iam_DeleteUserPolicy :: "'h \<Rightarrow> string \<Rightarrow> string \<Rightarrow> ('w, go_error option) state"

section \<open>The provider and its constructors\<close>

record 'h aws_Provider =
  aws_s3 :: "'h option"
  aws_iam :: "'h option"
  aws_region :: string
  aws_endpoint :: string
  aws_bucketPolicyJSON :: string

definition nonblank :: "string \<Rightarrow> string option" where
  "nonblank s = (if trim_space s \<noteq> '''' then Some (trim_space s) else None)"

definition aws_New :: "('c, 'h, 'w) aws_sdk \<Rightarrow> aws_Config \<Rightarrow> go_error + 'h aws_Provider" where
  "aws_New sdk cfg =
     (case aws_LoadConfig sdk (acfg_Region cfg) (acfg_AccessKeyID cfg) (acfg_SecretAccessKey cfg) of
        Inl e \<Rightarrow> Inl (ErrWrap ''load aws config: '' e '''')
      | Inr awsCfg \<Rightarrow>
          (let s3Client = s3_NewFromConfig sdk awsCfg (nonblank (acfg_S3Endpoint cfg))
                            (nonblank (acfg_S3Endpoint cfg) \<noteq> None);
               iamClient = iam_NewFromConfig sdk awsCfg (nonblank (acfg_IAMEndpoint cfg));
               ep = trim_space (acfg_S3Endpoint cfg);
               ep = (if ep = '''' then ''https://s3.'' @ trim_space (acfg_Region cfg) @ ''.amazonaws.com''
                     else ep)
           in Inr \<lparr>aws_s3 = Some s3Client, aws_iam = Some iamClient,
                   aws_region = trim_space (acfg_Region cfg), aws_endpoint = ep,
                   aws_bucketPolicyJSON = ''''\<rparr>))"

definition aws_NewWithClients ::
  "string \<Rightarrow> string \<Rightarrow> 'h option \<Rightarrow> 'h option \<Rightarrow> 'h aws_Provider" where
  "aws_NewWithClients region endpoint s3c iamc =
     (let region = trim_space region;
          endpoint = (if endpoint = '''' \<and> region \<noteq> '''' then ''https://s3.'' @ region @ ''.amazonaws.com''
                      else endpoint)
      in \<lparr>aws_s3 = s3c, aws_iam = iamc, aws_region = region, aws_endpoint = trim_space endpoint,
          aws_bucketPolicyJSON = ''''\<rparr>)"

definition WithBucketPolicyDocument :: "string \<Rightarrow> 'h aws_Provider option \<Rightarrow> 'h aws_Provider option" where
  "WithBucketPolicyDocument raw p =
     (case p of
        None \<Rightarrow> None
      | Some p \<Rightarrow>
          if raw = '''' then Some (p\<lparr>aws_bucketPolicyJSON := ''''\<rparr>)
          else Some (p\<lparr>aws_bucketPolicyJSON := raw\<rparr>))"

section \<open>Parameters\<close>

definition paramBool :: "smap \<Rightarrow> string \<Rightarrow> bool \<Rightarrow> go_error + bool" where
  "paramBool parameters key def =
     (case map_of parameters key of
        None \<Rightarrow> Inr def
      | Some raw \<Rightarrow>
          (let raw = trim_space raw in
           if raw = '''' then Inr def
           else (case parse_bool raw of
                   None \<Rightarrow> Inl (ErrText (''invalid bool for '' @ quote key @ '': '' @ quote raw))
                 | Some v \<Rightarrow> Inr v)))"

definition paramString :: "smap \<Rightarrow> string \<Rightarrow> string \<Rightarrow> string" where
  "paramString parameters key def =
     (let raw = trim_space (smap_get parameters key) in if raw = '''' then def else raw)"

section \<open>The bucket policy\<close>

definition deny_insecure_transport :: "string \<Rightarrow> json" where
  "deny_insecure_transport bucketName =
     JObj [(''Sid'', JStr ''DenyInsecureTransport''), (''Effect'', JStr ''Deny''),
           (''Principal'', JObj [(''AWS'', JStr ''*'')]), (''Action'', JArr [JStr ''s3:*'']),
           (''Resource'', bucket_resources bucketName),
           (''Condition'', JObj [(''Bool'', JObj [(''aws:SecureTransport'', JStr ''false'')])])]"

definition tlsOnlyBucketPolicy :: "string \<Rightarrow> (string \<times> json) list" where
  "tlsOnlyBucketPolicy bucketName =
     [(''Version'', JStr ''2012-10-17''), (''Statement'', JArr [deny_insecure_transport bucketName])]"

definition getStatements :: "(string \<times> json) list \<Rightarrow> go_error + json list" where
  "getStatements doc =
     (case map_of doc ''Statement'' of
        None \<Rightarrow> Inr []
      | Some (JArr v) \<Rightarrow> Inr v
      | Some _ \<Rightarrow> Inl (ErrText ''bucket policy Statement must be an array''))"

definition mergePolicyDocuments ::
  "(string \<times> json) list \<Rightarrow> string \<Rightarrow> go_error + (string \<times> json) list" where
  "mergePolicyDocuments base userRaw =
     (if userRaw = '''' then Inr base
      else
        (case unmarshal_map userRaw of
           None \<Rightarrow> Inl (ErrWrap ''invalid bucket policy JSON: '' json_error '''')
         | Some user \<Rightarrow>
             (case getStatements base of
                Inl e \<Rightarrow> Inl e
              | Inr baseSt \<Rightarrow>
                  (case getStatements user of
                     Inl e \<Rightarrow> Inl e
                   | Inr userSt \<Rightarrow>
                       (let out = user;
                            out = (case map_of out ''Version'' of
                                     Some _ \<Rightarrow> out
                                   | None \<Rightarrow>
                                       (case map_of base ''Version'' of
                                          Some v \<Rightarrow> AList.update ''Version'' v out
                                        | None \<Rightarrow> AList.update ''Version'' (JStr ''2012-10-17'') out));
                            out = (if baseSt \<noteq> [] \<or> userSt \<noteq> []
                                   then AList.update ''Statement'' (JArr (baseSt @ userSt)) out
                                   else out)
                        in Inr out)))))"

section \<open>ConfigureBucketSecurity\<close>

definition the_client :: "('h aws_Provider \<Rightarrow> 'h option) \<Rightarrow> 'h aws_Provider option \<Rightarrow> 'h option" where
  "the_client f p = Option.bind p f"

definition nil_client :: go_error where
  "nil_client = ErrPanic ''invalid memory address or nil pointer dereference''"

text \<open>The default encryption, then the bucket policy: the last two parts of the method.\<close>

definition apply_encryption ::
  "('c, 'h, 'w) aws_sdk \<Rightarrow> 'h \<Rightarrow> string \<Rightarrow> string \<Rightarrow> string \<Rightarrow> ('w, go_error option) state" where
  "apply_encryption sdk s3 bucketName defaultEnc kmsKeyArn =
     (if defaultEnc = ''NONE'' then ret None
      else if defaultEnc = ''SSE-S3'' then s3_PutBucketEncryption sdk s3 bucketName [Aes256]
      else if defaultEnc = ''SSE-KMS'' then
        (if trim_space kmsKeyArn = ''''
         then ret (Some (ErrText
                ''security.kmsKeyArn is required when security.defaultEncryption=SSE-KMS''))
         else s3_PutBucketEncryption sdk s3 bucketName [AwsKms kmsKeyArn])
      else ret (Some (ErrText (''unsupported security.defaultEncryption '' @ quote defaultEnc @
                               '' (expected SSE-S3, SSE-KMS, none)''))))"

definition apply_bucket_policy ::
  "('c, 'h, 'w) aws_sdk \<Rightarrow> 'h \<Rightarrow> string \<Rightarrow> bool \<Rightarrow> string \<Rightarrow> ('w, go_error option) state" where
  "apply_bucket_policy sdk s3 bucketName tlsOnlyPolicy policyJSON =
     (if \<not> tlsOnlyPolicy \<and> policyJSON = '''' then ret None
      else
        (let base = (if tlsOnlyPolicy then tlsOnlyBucketPolicy bucketName
                     else [(''Version'', JStr ''2012-10-17''), (''Statement'', JArr [])])
         in case mergePolicyDocuments base policyJSON of
              Inl e \<Rightarrow> ret (Some e)
            | Inr merged \<Rightarrow> s3_PutBucketPolicy sdk s3 bucketName (json_marshal (JObj merged))))"

definition aws_ConfigureBucketSecurity ::
  "('c, 'h, 'w) aws_sdk \<Rightarrow> 'h aws_Provider option \<Rightarrow> string \<Rightarrow> smap \<Rightarrow> ('w, go_error option) state" where
  "aws_ConfigureBucketSecurity sdk p bucketName parameters =
     (case the_client aws_s3 p of
        None \<Rightarrow> ret (Some (ErrText ''aws provider not configured (s3 client nil)''))
      | Some s3 \<Rightarrow>
     (case paramBool parameters ''security.blockPublicAccess'' True of
        Inl e \<Rightarrow> ret (Some e)
      | Inr blockPublicAccess \<Rightarrow>
     (case paramBool parameters ''security.disableAcls'' True of
        Inl e \<Rightarrow> ret (Some e)
      | Inr disableAcls \<Rightarrow>
     (case paramBool parameters ''security.tlsOnlyPolicy'' True of
        Inl e \<Rightarrow> ret (Some e)
      | Inr tlsOnlyPolicy \<Rightarrow>
          (let defaultEnc = to_upper (paramString parameters ''security.defaultEncryption'' ''SSE-S3'');
               kmsKeyArn = paramString parameters ''security.kmsKeyArn'' ''''
           in
           if_err (if blockPublicAccess
                   then s3_PutPublicAccessBlock sdk s3 bucketName
                          \<lparr>pab_BlockPublicAcls = True, pab_IgnorePublicAcls = True,
                           pab_BlockPublicPolicy = True, pab_RestrictPublicBuckets = True\<rparr>
                   else ret None) Some
          (if_err (if disableAcls
                   then s3_PutBucketOwnershipControls sdk s3 bucketName [BucketOwnerEnforced]
                   else ret None) Some
          (if_err (apply_encryption sdk s3 bucketName defaultEnc kmsKeyArn) Some
             (apply_bucket_policy sdk s3 bucketName tlsOnlyPolicy
                (case p of Some q \<Rightarrow> aws_bucketPolicyJSON q | None \<Rightarrow> '''')))))))))"

section \<open>Buckets\<close>

definition aws_CreateBucket ::
  "('c, 'h, 'w) aws_sdk \<Rightarrow> 'h aws_Provider option \<Rightarrow> string \<Rightarrow> string \<Rightarrow> bool \<Rightarrow> ('w, go_error option) state"
  where
  "aws_CreateBucket sdk p bucketName region objectLocking =
     (let region = trim_space region;
          input = \<lparr>cbi_Bucket = bucketName,
                   cbi_ObjectLockEnabledForBucket = (if objectLocking then Some True else None),
                   cbi_LocationConstraint =
                     (if region \<noteq> '''' \<and> \<not> equal_fold region ''us-east-1'' then Some region else None)\<rparr>
      in case the_client aws_s3 p of
           None \<Rightarrow> ret (Some nil_client)
         | Some s3 \<Rightarrow>
             if_err (s3_CreateBucket sdk s3 input)
               (\<lambda>err. if errors_as (aws_of BucketAlreadyOwnedByYou) err \<noteq> None then None
                      else if errors_as (aws_of BucketAlreadyExists) err \<noteq> None then None
                      else Some err)
               (ret None))"

definition aws_SetBucketQuota :: "string \<Rightarrow> 64 word \<Rightarrow> ('w, go_error option) state" where
  "aws_SetBucketQuota bucketName quotaBytes = ret None"

definition aws_lifecycle_rule :: "lifecycle_Rule \<Rightarrow> s3_LifecycleRule" where
  "aws_lifecycle_rule r =
     \<lparr>slr_Status = StatusEnabled,
      slr_ID = (if trim_space (lc_ID r) \<noteq> '''' then Some (lc_ID r) else None),
      slr_Prefix = (if trim_space (lc_Prefix r) \<noteq> '''' then Some (lc_Prefix r) else None),
      slr_Days = (if 0 <s lc_ExpirationDays r then Some (ucast (lc_ExpirationDays r)) else None)\<rparr>"

definition aws_SetBucketLifecycle ::
  "('c, 'h, 'w) aws_sdk \<Rightarrow> 'h aws_Provider option \<Rightarrow> string \<Rightarrow> lifecycle_Rule list option \<Rightarrow>
     ('w, go_error option) state" where
  "aws_SetBucketLifecycle sdk p bucketName cfg =
     (case cfg of
        None \<Rightarrow> ret None
      | Some rules \<Rightarrow>
          if rules = [] then ret None
          else
            (case the_client aws_s3 p of
               None \<Rightarrow> ret (Some nil_client)
             | Some s3 \<Rightarrow>
                 s3_PutBucketLifecycleConfiguration sdk s3 bucketName (map aws_lifecycle_rule rules)))"

definition aws_SetBucketReplication :: "string \<Rightarrow> replication_Rule list \<Rightarrow> ('w, go_error option) state"
  where
  "aws_SetBucketReplication bucketName cfg = ret None"

definition aws_DeleteBucket ::
  "('c, 'h, 'w) aws_sdk \<Rightarrow> 'h aws_Provider option \<Rightarrow> string \<Rightarrow> ('w, go_error option) state" where
  "aws_DeleteBucket sdk p bucketName =
     (case the_client aws_s3 p of
        None \<Rightarrow> ret (Some nil_client)
      | Some s3 \<Rightarrow>
          if_err (s3_DeleteBucket sdk s3 bucketName)
            (\<lambda>err. if errors_as (aws_of NoSuchBucket) err \<noteq> None then None else Some err)
            (ret None))"

section \<open>Identities\<close>

definition user_name_rune :: "nat \<Rightarrow> nat" where
  "user_name_rune r =
     (if 97 \<le> r \<and> r \<le> 122 then r else if 48 \<le> r \<and> r \<le> 57 then r
      else if r = 45 \<or> r = 95 then r else 45)"

definition userNameForAccount :: "string \<Rightarrow> string" where
  "userNameForAccount accountID =
     (let normalized = map_runes user_name_rune (to_lower accountID);
          normalized = (if 64 < length normalized then take 64 normalized else normalized);
          normalized = trim_char (CHR ''-'') normalized;
          normalized = (if normalized = '''' then ''user'' else normalized)
      in ''cosi-'' @ normalized)"

definition aws_policyName :: "string \<Rightarrow> string \<Rightarrow> string" where
  "aws_policyName bucketName accountID = ''bucket-'' @ bucketName @ ''-'' @ userNameForAccount accountID"

section \<open>Access\<close>

definition aws_ensureUser :: "('c, 'h, 'w) aws_sdk \<Rightarrow> 'h \<Rightarrow> string \<Rightarrow> ('w, go_error option) state" where
  "aws_ensureUser sdk iam userName =
     if_err (iam_CreateUser sdk iam userName)
       (\<lambda>err. if errors_as (aws_of EntityAlreadyExists) err \<noteq> None then None else Some err)
       (ret None)"

text \<open>Delete the keys a listing of the user returns, whatever each deletion says.\<close>

definition aws_deleteListedKeys :: "('c, 'h, 'w) aws_sdk \<Rightarrow> 'h \<Rightarrow> string \<Rightarrow> ('w, unit) state" where
  "aws_deleteListedKeys sdk iam userName = do {
     lk \<leftarrow> iam_ListAccessKeys sdk iam userName;
     case lk of
       Inl lerr \<Rightarrow> ret ()
     | Inr keys \<Rightarrow> for_each (\<lambda>k. discard (iam_DeleteAccessKey sdk iam userName k)) keys
   }"

definition key_limit :: "go_error \<Rightarrow> bool" where
  "key_limit err \<longleftrightarrow>
     (case errors_as (aws_of LimitExceeded) err of
        Some limit \<Rightarrow> contains limit ''AccessKeysPerUser'' | None \<Rightarrow> False) \<or>
     contains (err_text err) ''AccessKeysPerUser''"

text \<open>A new key; at the limit of keys per user the old ones are deleted and the call made once more.\<close>

definition aws_createKey ::
  "('c, 'h, 'w) aws_sdk \<Rightarrow> 'h \<Rightarrow> string \<Rightarrow> ('w, go_error + iam_AccessKey option) state" where
  "aws_createKey sdk iam userName = do {
     out \<leftarrow> iam_CreateAccessKey sdk iam userName;
     case out of
       Inr k \<Rightarrow> ret (Inr k)
     | Inl err \<Rightarrow>
         if key_limit err then do {
           _ \<leftarrow> aws_deleteListedKeys sdk iam userName;
           iam_CreateAccessKey sdk iam userName
         }
         else ret (Inl err)
   }"

definition aws_ToString :: "string option \<Rightarrow> string" where
  "aws_ToString s = (case s of None \<Rightarrow> '''' | Some t \<Rightarrow> t)"

definition aws_GrantAccess ::
  "('c, 'h, 'w) aws_sdk \<Rightarrow> 'h aws_Provider option \<Rightarrow> string \<Rightarrow> string \<Rightarrow> string \<Rightarrow> string \<Rightarrow> string \<Rightarrow>
     ('w, go_error + smap) state" where
  "aws_GrantAccess sdk p bucketName accountID accessType existingAccessKey existingSecretKey =
     (case the_client aws_iam p of
        None \<Rightarrow> ret (Inl (ErrText ''aws provider not configured (iam client nil)''))
      | Some iam \<Rightarrow>
          (let userName = userNameForAccount accountID;
               readOnly = equal_fold (trim_space accessType) ''ReadOnly'';
               pol = json_marshal (bucketPolicyDocument bucketName readOnly);
               pn = aws_policyName bucketName accountID
           in
           if_err (aws_ensureUser sdk iam userName) Inl
          (if_err (iam_PutUserPolicy sdk iam userName pn pol) Inl
          (if trim_space existingAccessKey \<noteq> '''' \<and> trim_space existingSecretKey \<noteq> ''''
           then ret (Inr [(''accessKeyID'', trim_space existingAccessKey),
                          (''accessSecretKey'', trim_space existingSecretKey),
                          (''bucketName'', bucketName), (''endpoint'', '''')])
           else
             val_or_err (aws_createKey sdk iam userName) Inl
               (\<lambda>key. case key of
                  None \<Rightarrow> ret (Inl nil_client)
                | Some k \<Rightarrow>
                    ret (Inr [(''accessKeyID'', aws_ToString (iak_AccessKeyId k)),
                              (''accessSecretKey'', aws_ToString (iak_SecretAccessKey k)),
                              (''bucketName'', bucketName),
                              (''endpoint'',
                               trim_space (case p of Some q \<Rightarrow> aws_endpoint q | None \<Rightarrow> ''''))]))))))"

definition aws_RevokeAccess ::
  "('c, 'h, 'w) aws_sdk \<Rightarrow> 'h aws_Provider option \<Rightarrow> string \<Rightarrow> string \<Rightarrow> string \<Rightarrow>
     ('w, go_error option) state" where
  "aws_RevokeAccess sdk p bucketName accountID accessKey =
     (case the_client aws_iam p of
        None \<Rightarrow> ret (Some (ErrText ''aws provider not configured (iam client nil)''))
      | Some iam \<Rightarrow>
          (let userName = userNameForAccount accountID; pn = aws_policyName bucketName accountID in do {
             _ \<leftarrow> iam_DeleteUserPolicy sdk iam userName pn;
             _ \<leftarrow> (if trim_space accessKey \<noteq> ''''
                   then discard (iam_DeleteAccessKey sdk iam userName (Some (trim_space accessKey)))
                   else aws_deleteListedKeys sdk iam userName);
             _ \<leftarrow> iam_DeleteUser sdk iam userName;
             ret None
           }))"

text \<open>The provider as a \<^verbatim>\<open>backend.Provider\<close>.\<close>

definition aws_provider :: "('c, 'h, 'w) aws_sdk \<Rightarrow> 'h aws_Provider option \<Rightarrow> 'w Provider" where
  "aws_provider sdk p =
     \<lparr>CreateBucket = aws_CreateBucket sdk p, SetBucketQuota = aws_SetBucketQuota,
      SetBucketLifecycle = aws_SetBucketLifecycle sdk p,
      SetBucketReplication = aws_SetBucketReplication,
      GrantAccess = aws_GrantAccess sdk p, RevokeAccess = aws_RevokeAccess sdk p,
      DeleteBucket = aws_DeleteBucket sdk p,
      ConfigureBucketSecurity = Some (aws_ConfigureBucketSecurity sdk p)\<rparr>"

section \<open>Lemmas: configuration\<close>

lemma aws_firstSecretString_Nil [simp]: "aws_firstSecretString [] ks = ''''"
  by (induction ks) simp_all

lemma aws_firstSecretString_cong:
  "map_of d = map_of d' \<Longrightarrow> aws_firstSecretString d ks = aws_firstSecretString d' ks"
  by (induction ks) (simp_all split: option.split)

lemma aws_firstSecretString_trimmed:
  "trim_space (aws_firstSecretString d ks) = aws_firstSecretString d ks"
  by (induction ks) (auto split: option.split)

declare aws_firstSecretString.simps(2) [simp del]

definition aws_required :: "string list list" where
  "aws_required = [[''AWS_REGION'', ''region''], [''AWS_ACCESS_KEY_ID'', ''accessKeyID''],
     [''AWS_SECRET_ACCESS_KEY'', ''secretAccessKey'', ''secretAccessKeyID'']]"

interpretation aws_config: secret_config aws_ConfigFromSecretData aws_firstSecretString aws_required
proof unfold_locales
  fix d d' :: smap and ks
  show "(\<exists>c. aws_ConfigFromSecretData d = Inr c) \<longleftrightarrow>
          d \<noteq> [] \<and> (\<forall>ks \<in> set aws_required. aws_firstSecretString d ks \<noteq> '''')"
    by (simp add: aws_ConfigFromSecretData_def aws_required_def Let_def)
  show "aws_firstSecretString [] ks = ''''" by simp
  show "aws_required \<noteq> []" by (simp add: aws_required_def)
  assume m: "map_of d = map_of d'"
  then have "d = [] \<longleftrightarrow> d' = []" by (metis map_of_eq_empty_iff)
  with aws_firstSecretString_cong [OF m]
  show "aws_ConfigFromSecretData d = aws_ConfigFromSecretData d'"
    by (simp add: aws_ConfigFromSecretData_def)
qed

section \<open>Lemmas: identities\<close>

definition user_name_char :: "char \<Rightarrow> bool" where
  "user_name_char c \<longleftrightarrow> (97 \<le> byte c \<and> byte c \<le> 122) \<or> (48 \<le> byte c \<and> byte c \<le> 57) \<or>
     byte c = 45 \<or> byte c = 95"

lemma user_name_rune_ascii: "user_name_rune r < 128"
  by (simp add: user_name_rune_def)

lemma user_name_char_rune: "user_name_char (chr (user_name_rune r))"
  by (auto simp: user_name_char_def user_name_rune_def)

lemma map_user_name: "list_all user_name_char (map_runes user_name_rune s)"
proof -
  have "user_name_rune r < 0x80" for r using user_name_rune_ascii [of r] by simp
  then have "map_runes user_name_rune s = map (\<lambda>r. chr (user_name_rune r)) (runes s)"
    by (simp add: map_runes_def string_of_runes_def encode_rune_def concat_map_singleton comp_def)
  then show ?thesis by (simp add: list_all_iff user_name_char_rune)
qed

lemma userNameForAccount_body:
  "\<exists>body. userNameForAccount a = ''cosi-'' @ body \<and> body \<noteq> [] \<and> length body \<le> 64 \<and>
          list_all user_name_char body"
proof -
  let ?n = "take 64 (map_runes user_name_rune (to_lower a))"
  let ?t = "trim_char (CHR ''-'') ?n"
  have name: "userNameForAccount a = ''cosi-'' @ (if ?t = '''' then ''user'' else ?t)"
    by (simp add: userNameForAccount_def Let_def)
  have "length ?t \<le> 64"
    using length_trim_words [of "[''-'']" ?n] by (simp add: trim_char_def)
  moreover have "list_all user_name_char ?t"
    using set_trim_words [of "[''-'']" ?n] map_user_name [of "to_lower a"]
    by (auto simp: trim_char_def list_all_iff dest: in_set_takeD)
  moreover have "list_all user_name_char ''user''" by (simp add: user_name_char_def)
  ultimately show ?thesis by (auto simp: name)
qed

interpretation aws_user: account_name userNameForAccount "''cosi-''" 64 user_name_char
proof unfold_locales
  fix a c
  show "\<exists>body. userNameForAccount a = ''cosi-'' @ body \<and> body \<noteq> [] \<and> length body \<le> 64 \<and>
          list_all user_name_char body"
    by (rule userNameForAccount_body)
  show "''cosi-'' \<noteq> []" "list_all graphic ''cosi-''" by (simp_all add: graphic_def)
  show "user_name_char c \<Longrightarrow> graphic c" by (auto simp: user_name_char_def graphic_def)
qed

section \<open>Lemmas: access\<close>

lemma aws_GrantAccess_map:
  assumes "result_of (aws_GrantAccess sdk p b a t k s) w = Inr m"
  shows "smap_get m ''bucketName'' = b"
    and "trim_space k \<noteq> '''' \<Longrightarrow> trim_space s \<noteq> '''' \<Longrightarrow>
           smap_get m ''accessKeyID'' = trim_space k \<and> smap_get m ''accessSecretKey'' = trim_space s \<and>
           smap_get m ''endpoint'' = ''''"
  using assms
  by (auto simp: aws_GrantAccess_def run_simps Let_def split: option.splits prod.splits sum.splits if_splits)

lemma aws_RevokeAccess_result:
  "result_of (aws_RevokeAccess sdk p b a k) w =
     (if the_client aws_iam p = None then Some (ErrText ''aws provider not configured (iam client nil)'')
      else None)"
  by (auto simp: aws_RevokeAccess_def run_simps Let_def split: option.splits prod.splits)

interpretation aws_backend: bucket_provider
  "aws_provider sdk (Some \<lparr>aws_s3 = s3, aws_iam = Some iam, aws_region = region, aws_endpoint = endpoint,
     aws_bucketPolicyJSON = doc\<rparr>)" for sdk s3 iam region endpoint doc
proof unfold_locales
  fix b a k w t s m and q :: "64 word"
  let ?p = "Some \<lparr>aws_s3 = s3, aws_iam = Some iam, aws_region = region, aws_endpoint = endpoint,
     aws_bucketPolicyJSON = doc\<rparr>"
  show "result_of (RevokeAccess (aws_provider sdk ?p) b a k) w = None"
    by (simp add: aws_provider_def aws_RevokeAccess_result the_client_def)
  show "q \<le>s 0 \<Longrightarrow> SetBucketQuota (aws_provider sdk ?p) b q = ret None"
    by (simp add: aws_provider_def aws_SetBucketQuota_def)
  assume "result_of (GrantAccess (aws_provider sdk ?p) b a t k s) w = Inr m"
  then have m: "result_of (aws_GrantAccess sdk ?p b a t k s) w = Inr m"
    by (simp add: aws_provider_def)
  from aws_GrantAccess_map(1) [OF m] show "smap_get m ''bucketName'' = b" .
  assume "visible k" "visible s"
  with aws_GrantAccess_map(2) [OF m]
  show "smap_get m ''accessKeyID'' = k \<and> smap_get m ''accessSecretKey'' = s"
    by (simp add: visible_trim visible_not_Nil)
qed

section \<open>Lemmas: security\<close>

definition switched_off :: "smap \<Rightarrow> string \<Rightarrow> bool" where
  "switched_off params key \<longleftrightarrow>
     (\<exists>raw. map_of params key = Some raw \<and> parse_bool (trim_space raw) = Some False)"

lemma paramBool_off: "paramBool params key True = Inr False \<longleftrightarrow> switched_off params key"
  by (auto simp: paramBool_def switched_off_def Let_def parse_bool_def split: option.splits)

lemma paramBool_missing [simp]: "map_of params key = None \<Longrightarrow> paramBool params key def = Inr def"
  by (simp add: paramBool_def)

definition block_all_public :: s3_PublicAccessBlock where
  "block_all_public = \<lparr>pab_BlockPublicAcls = True, pab_IgnorePublicAcls = True,
     pab_BlockPublicPolicy = True, pab_RestrictPublicBuckets = True\<rparr>"

text \<open>Some run of the call reports success.\<close>

abbreviation succeeded :: "('w, go_error option) state \<Rightarrow> bool" where
  "succeeded m \<equiv> \<exists>w. result_of m w = None"

lemma if_err_Some_ok:
  "result_of (if_err m Some k) w = None \<Longrightarrow> succeeded m \<and> result_of k (world_after m w) = None"
  by (auto simp: run_simps intro!: exI [of _ w] split: prod.splits option.splits)

lemma merge_parts:
  assumes "mergePolicyDocuments base raw = Inr out" and "raw \<noteq> ''''"
  obtains user bs us where "unmarshal_map raw = Some user" "getStatements base = Inr bs"
    "getStatements user = Inr us"
    "out = (let o1 = (case map_of user ''Version'' of Some _ \<Rightarrow> user
                      | None \<Rightarrow> AList.update ''Version'' (case map_of base ''Version'' of Some v \<Rightarrow> v
                                  | None \<Rightarrow> JStr ''2012-10-17'') user)
            in if bs \<noteq> [] \<or> us \<noteq> [] then AList.update ''Statement'' (JArr (bs @ us)) o1 else o1)"
proof -
  obtain user where u: "unmarshal_map raw = Some user"
    using assms by (cases "unmarshal_map raw") (simp_all add: mergePolicyDocuments_def)
  obtain bs where b: "getStatements base = Inr bs"
    using assms u by (cases "getStatements base") (simp_all add: mergePolicyDocuments_def)
  obtain us where s: "getStatements user = Inr us"
    using assms u b by (cases "getStatements user") (simp_all add: mergePolicyDocuments_def)
  show thesis
    using assms u b s
    by (intro that [OF u b s])
      (auto simp: mergePolicyDocuments_def Let_def split: option.splits)
qed

lemma merged_statements:
  assumes "getStatements user = Inr us" and "map_of out ''Statement'' =
      (if bs \<noteq> [] \<or> us \<noteq> [] then Some (JArr (bs @ us)) else map_of user ''Statement'')"
  shows "getStatements out = Inr (bs @ us)"
proof (cases "bs = [] \<and> us = []")
  case True
  with assms have "map_of out ''Statement'' = map_of user ''Statement''" by simp
  with assms(1) True show ?thesis by (simp add: getStatements_def)
next
  case False
  then have "map_of out ''Statement'' = Some (JArr (bs @ us))" by (auto simp: assms(2))
  then show ?thesis by (simp add: getStatements_def)
qed

lemma merge_ok:
  assumes "mergePolicyDocuments base raw = Inr out" and "getStatements base = Inr bs"
  shows "\<exists>us. getStatements out = Inr (bs @ us)"
proof (cases "raw = []")
  case True
  with assms show ?thesis by (simp add: mergePolicyDocuments_def)
next
  case False
  from merge_parts [OF assms(1) False] obtain user bs' us where
    user: "getStatements base = Inr bs'" "getStatements user = Inr us" and
    out: "out = (let o1 = (case map_of user ''Version'' of Some _ \<Rightarrow> user
                      | None \<Rightarrow> AList.update ''Version'' (case map_of base ''Version'' of Some v \<Rightarrow> v
                                  | None \<Rightarrow> JStr ''2012-10-17'') user)
            in if bs' \<noteq> [] \<or> us \<noteq> [] then AList.update ''Statement'' (JArr (bs' @ us)) o1 else o1)" .
  have "map_of out ''Statement'' =
      (if bs' \<noteq> [] \<or> us \<noteq> [] then Some (JArr (bs' @ us)) else map_of user ''Statement'')"
    by (simp add: out Let_def update_conv' split: option.split)
  from merged_statements [OF user(2) this] user(1) assms(2) show ?thesis by auto
qed

lemma getStatements_tls: "getStatements (tlsOnlyBucketPolicy b) = Inr [deny_insecure_transport b]"
  by (simp add: getStatements_def tlsOnlyBucketPolicy_def)

lemma apply_encryption_ok:
  "succeeded (apply_encryption sdk s3 b enc kms) \<Longrightarrow>
     enc = ''NONE'' \<or> enc = ''SSE-S3'' \<and> succeeded (s3_PutBucketEncryption sdk s3 b [Aes256]) \<or>
     enc = ''SSE-KMS'' \<and> trim_space kms \<noteq> '''' \<and> succeeded (s3_PutBucketEncryption sdk s3 b [AwsKms kms])"
  by (auto simp: apply_encryption_def split: if_splits)

lemma apply_bucket_policy_ok:
  assumes "result_of (apply_bucket_policy sdk s3 b True doc) w = None"
  shows "\<exists>merged us. mergePolicyDocuments (tlsOnlyBucketPolicy b) doc = Inr merged \<and>
           getStatements merged = Inr (deny_insecure_transport b # us) \<and>
           succeeded (s3_PutBucketPolicy sdk s3 b (json_marshal (JObj merged)))"
proof -
  obtain merged where m: "mergePolicyDocuments (tlsOnlyBucketPolicy b) doc = Inr merged"
    using assms by (auto simp: apply_bucket_policy_def Let_def split: sum.splits)
  with merge_ok [OF m getStatements_tls] assms show ?thesis
    by (auto simp: apply_bucket_policy_def Let_def intro!: exI [of _ w])
qed

section \<open>An AWS account in memory, for examples\<close>

text \<open>
  It records the S3 calls it gets with their argument and fails those \<open>fails\<close> names; its IAM has one
  user with at most two keys, which it numbers.
\<close>

record mem_aws =
  aws_log :: "(string \<times> string) list"
  aws_keys :: "string list"
  aws_made :: nat

definition aws_call :: "(string \<Rightarrow> go_error option) \<Rightarrow> string \<Rightarrow> string \<Rightarrow> (mem_aws, go_error option) state"
  where
  "aws_call fails n x = State (\<lambda>w. (fails n, w\<lparr>aws_log := aws_log w @ [(n, x)]\<rparr>))"

lemma run_aws_call [run_simps]:
  "run_state (aws_call fails n x) w = (fails n, w\<lparr>aws_log := aws_log w @ [(n, x)]\<rparr>)"
  by (simp add: aws_call_def)

definition mem_aws_sdk :: "(string \<Rightarrow> go_error option) \<Rightarrow> (unit, unit, mem_aws) aws_sdk" where
  "mem_aws_sdk fails =
     \<lparr>aws_LoadConfig = (\<lambda>_ _ _. Inr ()), s3_NewFromConfig = (\<lambda>_ _ _. ()), iam_NewFromConfig = (\<lambda>_ _. ()),
      s3_CreateBucket = (\<lambda>_ input. aws_call fails ''CreateBucket'' (cbi_Bucket input)),
      s3_DeleteBucket = (\<lambda>_ b. aws_call fails ''DeleteBucket'' b),
      s3_PutBucketLifecycleConfiguration = (\<lambda>_ b _. aws_call fails ''PutBucketLifecycleConfiguration'' b),
      s3_PutPublicAccessBlock = (\<lambda>_ b _. aws_call fails ''PutPublicAccessBlock'' b),
      s3_PutBucketOwnershipControls = (\<lambda>_ b _. aws_call fails ''PutBucketOwnershipControls'' b),
      s3_PutBucketEncryption = (\<lambda>_ b _. aws_call fails ''PutBucketEncryption'' b),
      s3_PutBucketPolicy = (\<lambda>_ b doc. aws_call fails ''PutBucketPolicy'' doc),
      iam_CreateUser = (\<lambda>_ u. aws_call fails ''CreateUser'' u),
      iam_DeleteUser = (\<lambda>_ u. aws_call fails ''DeleteUser'' u),
      iam_CreateAccessKey = (\<lambda>_ u. State (\<lambda>w.
        if 2 \<le> length (aws_keys w)
        then (Inl (ErrAws LimitExceeded ''Cannot exceed quota for AccessKeysPerUser: 2''), w)
        else (Inr (Some \<lparr>iak_AccessKeyId = Some (replicate (Suc (aws_made w)) CHR ''K''),
                         iak_SecretAccessKey = Some ''secret''\<rparr>),
              w\<lparr>aws_made := Suc (aws_made w),
                aws_keys := aws_keys w @ [replicate (Suc (aws_made w)) CHR ''K'']\<rparr>))),
      iam_DeleteAccessKey = (\<lambda>_ u k. State (\<lambda>w.
        (None, w\<lparr>aws_keys := filter (\<lambda>k'. Some k' \<noteq> k) (aws_keys w)\<rparr>))),
      iam_ListAccessKeys = (\<lambda>_ u. State (\<lambda>w. (Inr (map Some (aws_keys w)), w))),
      iam_PutUserPolicy = (\<lambda>_ u n doc. aws_call fails ''PutUserPolicy'' n),
      iam_DeleteUserPolicy = (\<lambda>_ u n. aws_call fails ''DeleteUserPolicy'' n)\<rparr>"

definition no_fails :: "string \<Rightarrow> go_error option" where
  "no_fails n = None"

definition mem_aws_empty :: mem_aws where
  "mem_aws_empty = \<lparr>aws_log = [], aws_keys = [], aws_made = 0\<rparr>"

definition mem_aws_provider :: "unit aws_Provider" where
  "mem_aws_provider = \<lparr>aws_s3 = Some (), aws_iam = Some (), aws_region = ''eu-west-1'',
     aws_endpoint = ''https://s3.eu-west-1.amazonaws.com'', aws_bucketPolicyJSON = ''''\<rparr>"

section \<open>Properties\<close>

text \<open>C11. Security is on unless it is switched off by name. Where \<^verbatim>\<open>ConfigureBucketSecurity\<close>
  succeeds, each guard was either switched off by its own parameter, parsed as false (or \<^verbatim>\<open>NONE\<close>), or
  its call succeeded: all four public-access blocks, bucket-owner-enforced ownership, encryption with
  the algorithm asked for, and a bucket policy whose first statement denies plain HTTP.\<close>

theorem aws_secure_by_default:
  assumes "result_of (aws_ConfigureBucketSecurity sdk p b params) w = None"
  shows "\<exists>q s3. p = Some q \<and> aws_s3 q = Some s3 \<and>
    (switched_off params ''security.blockPublicAccess'' \<or>
       succeeded (s3_PutPublicAccessBlock sdk s3 b block_all_public)) \<and>
    (switched_off params ''security.disableAcls'' \<or>
       succeeded (s3_PutBucketOwnershipControls sdk s3 b [BucketOwnerEnforced])) \<and>
    (case to_upper (paramString params ''security.defaultEncryption'' ''SSE-S3'') of enc \<Rightarrow>
       enc = ''NONE'' \<or> enc = ''SSE-S3'' \<and> succeeded (s3_PutBucketEncryption sdk s3 b [Aes256]) \<or>
       enc = ''SSE-KMS'' \<and> (\<exists>kms. trim_space kms \<noteq> '''' \<and> succeeded (s3_PutBucketEncryption sdk s3 b [AwsKms kms]))) \<and>
    (switched_off params ''security.tlsOnlyPolicy'' \<or>
       (\<exists>merged us. getStatements merged = Inr (deny_insecure_transport b # us) \<and>
          succeeded (s3_PutBucketPolicy sdk s3 b (json_marshal (JObj merged)))))"
proof -
  obtain q s3 where p: "p = Some q" "aws_s3 q = Some s3"
    using assms by (auto simp: aws_ConfigureBucketSecurity_def the_client_def split: option.splits
        bind_splits)
  obtain block acls tls where params:
    "paramBool params ''security.blockPublicAccess'' True = Inr block"
    "paramBool params ''security.disableAcls'' True = Inr acls"
    "paramBool params ''security.tlsOnlyPolicy'' True = Inr tls"
    using assms p by (auto simp: aws_ConfigureBucketSecurity_def the_client_def split: sum.splits)
  let ?enc = "to_upper (paramString params ''security.defaultEncryption'' ''SSE-S3'')"
  let ?kms = "paramString params ''security.kmsKeyArn'' ''''"
  let ?policy = "apply_bucket_policy sdk s3 b tls (aws_bucketPolicyJSON q)"
  let ?crypt = "apply_encryption sdk s3 b ?enc ?kms"
  let ?acl = "if acls then s3_PutBucketOwnershipControls sdk s3 b [BucketOwnerEnforced] else ret None"
  let ?pub = "if block then s3_PutPublicAccessBlock sdk s3 b block_all_public else ret None"
  from assms have "result_of (if_err ?pub Some (if_err ?acl Some (if_err ?crypt Some ?policy))) w = None"
    by (simp add: aws_ConfigureBucketSecurity_def the_client_def p params Let_def block_all_public_def
        split del: if_split cong: if_cong)
  from if_err_Some_ok [OF this] have pub: "succeeded ?pub"
    and "result_of (if_err ?acl Some (if_err ?crypt Some ?policy)) (world_after ?pub w) = None" by blast+
  from if_err_Some_ok [OF this(2)] obtain w1 where acl: "succeeded ?acl"
    and "result_of (if_err ?crypt Some ?policy) w1 = None" by blast
  from if_err_Some_ok [OF this(2)] obtain w2 where crypt: "succeeded ?crypt"
    and policy: "result_of ?policy w2 = None" by blast
  have "switched_off params ''security.blockPublicAccess'' \<or>
      succeeded (s3_PutPublicAccessBlock sdk s3 b block_all_public)"
    using pub params(1) by (cases block) (simp_all add: paramBool_off)
  moreover have "switched_off params ''security.disableAcls'' \<or>
      succeeded (s3_PutBucketOwnershipControls sdk s3 b [BucketOwnerEnforced])"
    using acl params(2) by (cases acls) (simp_all add: paramBool_off)
  moreover have "switched_off params ''security.tlsOnlyPolicy'' \<or>
      (\<exists>merged us. getStatements merged = Inr (deny_insecure_transport b # us) \<and>
         succeeded (s3_PutBucketPolicy sdk s3 b (json_marshal (JObj merged))))"
    using apply_bucket_policy_ok [of sdk s3 b "aws_bucketPolicyJSON q" w2] policy params(3)
    by (cases tls) (auto simp: paramBool_off)
  ultimately show ?thesis using p apply_encryption_ok [OF crypt] by auto
qed

lemma to_upper_sse_s3: "to_upper ''SSE-S3'' = ''SSE-S3''"
  by code_simp

lemma mem_aws_configured:
  "result_of (aws_ConfigureBucketSecurity (mem_aws_sdk no_fails) (Some mem_aws_provider) ''b'' [])
     mem_aws_empty = None"
  by (simp add: aws_ConfigureBucketSecurity_def the_client_def mem_aws_provider_def paramString_def Let_def
      to_upper_sse_s3 apply_encryption_def apply_bucket_policy_def mergePolicyDocuments_def run_simps
      mem_aws_sdk_def no_fails_def)

theorem aws_secure_by_default_witness:
  "succeeded (s3_PutPublicAccessBlock (mem_aws_sdk no_fails) () ''b'' block_all_public) \<and>
   \<not> switched_off [] ''security.tlsOnlyPolicy''"
  using aws_secure_by_default [OF mem_aws_configured] by (simp add: switched_off_def)

lemma getStatements_array: "getStatements doc = Inr st \<Longrightarrow> json_array (json_field (JObj doc) ''Statement'') = st"
  by (auto simp: getStatements_def split: option.splits json.splits)

lemma policy_denies_mono:
  assumes "getStatements doc = Inr st" "getStatements doc' = Inr (st @ st')"
    and "policy_denies (JObj doc) act res"
  shows "policy_denies (JObj doc') act res"
  using assms(3) getStatements_array [OF assms(1)] getStatements_array [OF assms(2)]
  by (auto simp: policy_denies_def policy_statements_def)

text \<open>C12. Merging a user's policy keeps the guardrails: the base's statements come first, then all of
  the user's, in order; the user's version and other members are kept; and whatever the base denies
  the merged policy denies, so that no statement of the user can allow it.\<close>

theorem merge_keeps_guardrails:
  assumes "mergePolicyDocuments base raw = Inr out" and "raw \<noteq> ''''"
  shows "\<exists>user bs us. unmarshal_map raw = Some user \<and> getStatements base = Inr bs \<and>
     getStatements user = Inr us \<and> getStatements out = Inr (bs @ us) \<and>
     map_of out ''Version'' = Some (case map_of user ''Version'' of Some v \<Rightarrow> v
        | None \<Rightarrow> (case map_of base ''Version'' of Some v \<Rightarrow> v | None \<Rightarrow> JStr ''2012-10-17'')) \<and>
     (\<forall>k. k \<notin> {''Version'', ''Statement''} \<longrightarrow> map_of out k = map_of user k) \<and>
     (\<forall>act res. policy_denies (JObj base) act res \<longrightarrow> \<not> policy_allows (JObj out) act res)"
proof -
  from merge_parts [OF assms] obtain user bs us where
    parts: "unmarshal_map raw = Some user" "getStatements base = Inr bs" "getStatements user = Inr us" and
    out: "out = (let o1 = (case map_of user ''Version'' of Some _ \<Rightarrow> user
                      | None \<Rightarrow> AList.update ''Version'' (case map_of base ''Version'' of Some v \<Rightarrow> v
                                  | None \<Rightarrow> JStr ''2012-10-17'') user)
            in if bs \<noteq> [] \<or> us \<noteq> [] then AList.update ''Statement'' (JArr (bs @ us)) o1 else o1)" .
  have statement: "map_of out ''Statement'' =
      (if bs \<noteq> [] \<or> us \<noteq> [] then Some (JArr (bs @ us)) else map_of user ''Statement'')"
    by (simp add: out Let_def update_conv' split: option.split)
  have merged: "getStatements out = Inr (bs @ us)"
    using parts(3) statement by (rule merged_statements)
  moreover have "map_of out ''Version'' = Some (case map_of user ''Version'' of Some v \<Rightarrow> v
        | None \<Rightarrow> (case map_of base ''Version'' of Some v \<Rightarrow> v | None \<Rightarrow> JStr ''2012-10-17''))"
    by (simp add: out Let_def update_conv' split: option.split)
  moreover have "\<forall>k. k \<notin> {''Version'', ''Statement''} \<longrightarrow> map_of out k = map_of user k"
    by (simp add: out Let_def update_conv' split: option.split)
  moreover have "\<forall>act res. policy_denies (JObj base) act res \<longrightarrow> \<not> policy_allows (JObj out) act res"
    using policy_denies_mono [OF parts(2) merged] by (auto simp: policy_allows_def)
  ultimately show ?thesis using parts by blast
qed

lemma unmarshal_example:
  "unmarshal_map (concat [''{'', [chr 34], ''Statement'', [chr 34], '': []}'']) = Some [(''Statement'', JArr [])]"
  by code_simp

theorem merge_keeps_guardrails_witness:
  "\<exists>out. mergePolicyDocuments (tlsOnlyBucketPolicy ''b'')
       (concat [''{'', [chr 34], ''Statement'', [chr 34], '': []}'']) = Inr out \<and>
     \<not> policy_allows (JObj out) ''s3:GetObject'' ''arn:aws:s3:::b/x''"
proof -
  let ?raw = "concat [''{'', [chr 34], ''Statement'', [chr 34], '': []}'']"
  obtain out where out: "mergePolicyDocuments (tlsOnlyBucketPolicy ''b'') ?raw = Inr out"
    unfolding mergePolicyDocuments_def unmarshal_example by (simp add: getStatements_def tlsOnlyBucketPolicy_def)
  have "glob ''s3:*'' ''s3:GetObject''" using glob_literal_star [of "''s3:''"] by simp
  moreover have "in_bucket ''b'' ''arn:aws:s3:::b/x''" by (simp add: in_bucket_def bucket_arn_def)
  ultimately have "policy_denies (JObj (tlsOnlyBucketPolicy ''b'')) ''s3:GetObject'' ''arn:aws:s3:::b/x''"
    using bucket_resources_match [of "''b''" "''arn:aws:s3:::b/x''"]
    by (simp add: policy_denies_def policy_statements_def tlsOnlyBucketPolicy_def
        deny_insecure_transport_def statement_matches_def)
  with merge_keeps_guardrails [OF out] out show ?thesis by auto
qed

definition security_switches :: "string list" where
  "security_switches = [''security.blockPublicAccess'', ''security.disableAcls'', ''security.tlsOnlyPolicy'']"

lemma paramBool_error:
  "paramBool params key def = Inl e \<longleftrightarrow>
     (\<exists>raw. map_of params key = Some raw \<and> trim_space raw \<noteq> '''' \<and> parse_bool (trim_space raw) = None \<and>
        e = ErrText (''invalid bool for '' @ quote key @ '': '' @ quote (trim_space raw)))"
  by (auto simp: paramBool_def Let_def split: option.splits)

text \<open>A switch that is neither blank nor a Go boolean is refused before anything is configured: the
  error quotes the first such switch, and the world is the one before the call.\<close>

theorem aws_bad_switch_no_call:
  assumes "aws_s3 q = Some s3" and "key \<in> set security_switches"
    and "map_of params key = Some raw" and "trim_space raw \<noteq> ''''" and "parse_bool (trim_space raw) = None"
  shows "\<exists>key' \<in> set security_switches. \<exists>raw'. map_of params key' = Some raw' \<and>
           parse_bool (trim_space raw') = None \<and>
           run_state (aws_ConfigureBucketSecurity sdk (Some q) b params) w =
             (Some (ErrText (''invalid bool for '' @ quote key' @ '': '' @ quote (trim_space raw'))), w)"
proof -
  let ?run = "run_state (aws_ConfigureBucketSecurity sdk (Some q) b params) w"
  have bad: "\<exists>key' \<in> set security_switches. \<exists>e. paramBool params key' True = Inl e \<and> ?run = (Some e, w)"
  proof -
    have "\<exists>e. paramBool params key True = Inl e" using assms(3-5) by (simp add: paramBool_error)
    then show ?thesis
      using assms(1,2)
      by (cases "paramBool params ''security.blockPublicAccess'' True";
          cases "paramBool params ''security.disableAcls'' True";
          cases "paramBool params ''security.tlsOnlyPolicy'' True")
        (auto simp: security_switches_def aws_ConfigureBucketSecurity_def the_client_def)
  qed
  then obtain key' e where k: "key' \<in> set security_switches" "paramBool params key' True = Inl e"
    "?run = (Some e, w)" by blast
  from k(2) obtain raw' where "map_of params key' = Some raw'" "parse_bool (trim_space raw') = None"
    "e = ErrText (''invalid bool for '' @ quote key' @ '': '' @ quote (trim_space raw'))"
    unfolding paramBool_error by blast
  with k show ?thesis by blast
qed

theorem aws_bad_switch_no_call_witness:
  "\<exists>e. run_state (aws_ConfigureBucketSecurity (mem_aws_sdk no_fails) (Some mem_aws_provider) ''b''
     [(''security.disableAcls'', ''maybe'')]) mem_aws_empty = (Some e, mem_aws_empty)"
proof -
  have h: "aws_s3 mem_aws_provider = Some ()" "''security.disableAcls'' \<in> set security_switches"
    "map_of [(''security.disableAcls'', ''maybe'')] ''security.disableAcls'' = Some ''maybe''"
    by (simp_all add: mem_aws_provider_def security_switches_def)
  have t: "trim_space ''maybe'' \<noteq> ''''" "parse_bool (trim_space ''maybe'') = None"
    by (simp_all add: trim_space_graphic graphic_def parse_bool_def)
  show ?thesis
    using aws_bad_switch_no_call [OF h t, of "mem_aws_sdk no_fails" "''b''" mem_aws_empty] by blast
qed

text \<open>The request a creation sends.\<close>

definition create_input :: "string \<Rightarrow> string \<Rightarrow> bool \<Rightarrow> s3_CreateBucketInput" where
  "create_input b region lock =
     \<lparr>cbi_Bucket = b, cbi_ObjectLockEnabledForBucket = (if lock then Some True else None),
      cbi_LocationConstraint =
        (let r = trim_space region in
         if r = '''' \<or> equal_fold r ''us-east-1'' then None else Some r)\<rparr>"

text \<open>\<^verbatim>\<open>CreateBucket\<close> and \<^verbatim>\<open>DeleteBucket\<close> make one call each and are idempotent: a bucket that exists
  already, whoever owns it, counts as created and one that is missing as deleted, also where the SDK
  wraps the error; every other error is returned as it is. The location constraint is the region,
  except for us-east-1 in any case.\<close>

theorem aws_bucket_calls:
  assumes "aws_s3 q = Some s3"
  shows "world_after (aws_CreateBucket sdk (Some q) b region lock) w = world_after (s3_CreateBucket sdk s3 (create_input b region lock)) w \<and>
         result_of (aws_CreateBucket sdk (Some q) b region lock) w =
           (case result_of (s3_CreateBucket sdk s3 (create_input b region lock)) w of None \<Rightarrow> None
            | Some e \<Rightarrow> if \<exists>c \<in> {BucketAlreadyOwnedByYou, BucketAlreadyExists}. errors_as (aws_of c) e \<noteq> None
                        then None else Some e) \<and>
         world_after (aws_DeleteBucket sdk (Some q) b) w = world_after (s3_DeleteBucket sdk s3 b) w \<and>
         result_of (aws_DeleteBucket sdk (Some q) b) w =
           (case result_of (s3_DeleteBucket sdk s3 b) w of None \<Rightarrow> None
            | Some e \<Rightarrow> if errors_as (aws_of NoSuchBucket) e \<noteq> None then None else Some e)"
proof -
  have input: "\<lparr>cbi_Bucket = b, cbi_ObjectLockEnabledForBucket = (if lock then Some True else None),
      cbi_LocationConstraint = (if trim_space region \<noteq> '''' \<and> \<not> equal_fold (trim_space region) ''us-east-1''
        then Some (trim_space region) else None)\<rparr> = create_input b region lock"
    by (simp add: create_input_def)
  have "aws_CreateBucket sdk (Some q) b region lock =
      if_err (s3_CreateBucket sdk s3 (create_input b region lock))
        (\<lambda>err. if errors_as (aws_of BucketAlreadyOwnedByYou) err \<noteq> None then None
               else if errors_as (aws_of BucketAlreadyExists) err \<noteq> None then None else Some err) (ret None)"
    unfolding aws_CreateBucket_def Let_def input using assms by (simp add: the_client_def)
  moreover have "aws_DeleteBucket sdk (Some q) b =
      if_err (s3_DeleteBucket sdk s3 b)
        (\<lambda>err. if errors_as (aws_of NoSuchBucket) err \<noteq> None then None else Some err) (ret None)"
    using assms by (simp add: aws_DeleteBucket_def the_client_def)
  ultimately show ?thesis by (simp add: run_simps split: prod.split option.split)
qed

theorem aws_bucket_calls_witness:
  "result_of (aws_CreateBucket (mem_aws_sdk (\<lambda>_. Some (ErrWrap ''operation error S3: '' (ErrAws BucketAlreadyExists ''taken'') '''')))
     (Some mem_aws_provider) ''b'' ''eu-west-1'' False) mem_aws_empty = None"
  by (subst aws_bucket_calls [of _ "()", THEN conjunct2, THEN conjunct1])
    (simp_all add: mem_aws_provider_def mem_aws_sdk_def run_simps)

lemma sint_ucast_wrap:
  fixes d :: "64 word"
  assumes "0 <s d"
  shows "sint (ucast d :: 32 word) = (sint d + 2 ^ 31) mod 2 ^ 32 - 2 ^ 31"
proof -
  have "0 < sint d" using assms by (simp add: word_sless_alt)
  moreover have "sint d < 2 ^ 63" using sint_lt [of d] by simp
  ultimately have "uint d = sint d"
    by (simp add: uint_sint take_bit_int_eq_self)
  then have "sint (ucast d :: 32 word) = signed_take_bit 31 (sint d)"
    by (simp add: sint_uint unsigned_ucast_eq signed_take_bit_take_bit)
  then show ?thesis by (simp add: signed_take_bit_eq_take_bit_shift take_bit_eq_mod)
qed

text \<open>C28. A lifecycle rule keeps its ID and prefix where they are not blank, and its expiration up to
  \<open>2 ^ 31 - 1\<close> days. Any positive number of days is converted to \<^verbatim>\<open>int32\<close>: beyond that bound it wraps to
  the signed residue modulo \<open>2 ^ 32\<close>, to no days at all for \<open>2 ^ 32\<close>. Its status is not read: a rule that
  is disabled in the claim is enabled on the bucket.\<close>

theorem aws_lifecycle_translation:
  "(0 <s lc_ExpirationDays r \<longrightarrow> map_option sint (slr_Days (aws_lifecycle_rule r)) =
      Some ((sint (lc_ExpirationDays r) + 2 ^ 31) mod 2 ^ 32 - 2 ^ 31)) \<and>
   (0 <s lc_ExpirationDays r \<and> sint (lc_ExpirationDays r) < 2 ^ 31 \<longrightarrow>
      (\<exists>v. slr_Days (aws_lifecycle_rule r) = Some v \<and> sint v = sint (lc_ExpirationDays r))) \<and>
   (\<not> 0 <s lc_ExpirationDays r \<longrightarrow> slr_Days (aws_lifecycle_rule r) = None) \<and>
   slr_Days (aws_lifecycle_rule (r\<lparr>lc_ExpirationDays := 2 ^ 32\<rparr>)) = Some 0 \<and>
   slr_ID (aws_lifecycle_rule r) = (if trim_space (lc_ID r) = '''' then None else Some (lc_ID r)) \<and>
   slr_Prefix (aws_lifecycle_rule r) = (if trim_space (lc_Prefix r) = '''' then None else Some (lc_Prefix r)) \<and>
   aws_lifecycle_rule (r\<lparr>lc_Status := ''Disabled''\<rparr>) = aws_lifecycle_rule (r\<lparr>lc_Status := ''Enabled''\<rparr>) \<and>
   slr_Status (aws_lifecycle_rule r) = StatusEnabled"
proof (intro conjI impI)
  show "map_option sint (slr_Days (aws_lifecycle_rule r)) =
      Some ((sint (lc_ExpirationDays r) + 2 ^ 31) mod 2 ^ 32 - 2 ^ 31)" if "0 <s lc_ExpirationDays r"
    using that sint_ucast_wrap [OF that] by (simp add: aws_lifecycle_rule_def)
next
  assume d: "0 <s lc_ExpirationDays r \<and> sint (lc_ExpirationDays r) < 2 ^ 31"
  then have "0 < sint (lc_ExpirationDays r)" by (simp add: word_sless_alt)
  with d show "\<exists>v. slr_Days (aws_lifecycle_rule r) = Some v \<and> sint v = sint (lc_ExpirationDays r)"
    using sint_ucast_wrap [of "lc_ExpirationDays r"] by (simp add: aws_lifecycle_rule_def)
next
  have "0 <s (2 ^ 32 :: 64 word)" by (simp add: word_sless_alt)
  moreover have "ucast (2 ^ 32 :: 64 word) = (0 :: 32 word)" by simp
  ultimately show "slr_Days (aws_lifecycle_rule (r\<lparr>lc_ExpirationDays := 2 ^ 32\<rparr>)) = Some 0"
    by (simp add: aws_lifecycle_rule_def)
qed (simp_all add: aws_lifecycle_rule_def)

theorem aws_lifecycle_translation_witness:
  "map_option sint (slr_Days (aws_lifecycle_rule \<lparr>lc_ID = ''r'', lc_Status = ''Disabled'', lc_Prefix = '''',
      lc_ExpirationDays = 3000000000\<rparr>)) = Some (- 1294967296) \<and>
   (\<exists>v. slr_Days (aws_lifecycle_rule \<lparr>lc_ID = ''r'', lc_Status = ''Disabled'', lc_Prefix = '''',
      lc_ExpirationDays = 30\<rparr>) = Some v \<and> sint v = 30)"
  using aws_lifecycle_translation [THEN conjunct1, of "\<lparr>lc_ID = ''r'', lc_Status = ''Disabled'',
      lc_Prefix = '''', lc_ExpirationDays = 3000000000\<rparr>"]
    aws_lifecycle_translation [THEN conjunct2, THEN conjunct1, of "\<lparr>lc_ID = ''r'', lc_Status = ''Disabled'',
      lc_Prefix = '''', lc_ExpirationDays = 30\<rparr>"]
  by (simp add: word_sless_alt)

lemma user_name_char_lower: "user_name_char c \<Longrightarrow> byte c < 128 \<and> \<not> is_upper c \<and> user_name_rune (byte c) = byte c"
  by (auto simp: user_name_char_def is_upper_def user_name_rune_def)

lemma userNameForAccount_fits:
  assumes "a \<noteq> ''''" "length a \<le> 64" "list_all user_name_char a" "hd a \<noteq> CHR ''-''" "last a \<noteq> CHR ''-''"
  shows "userNameForAccount a = ''cosi-'' @ a"
proof -
  have chars: "\<And>c. c \<in> set a \<Longrightarrow> byte c < 128 \<and> \<not> is_upper c \<and> user_name_rune (byte c) = byte c"
    using assms(3) user_name_char_lower by (auto simp: list_all_iff)
  then have ascii: "is_ascii a" by (simp add: is_ascii_def list_all_iff)
  with chars have lower: "to_lower a = a" by (intro to_lower_unchanged) (auto simp: list_all_iff)
  have "map_runes user_name_rune a = map (\<lambda>c. chr (user_name_rune (byte c))) a"
    using ascii user_name_rune_ascii by (rule map_runes_ascii)
  also have "\<dots> = map id a" using chars by (intro map_cong) auto
  finally have runes: "map_runes user_name_rune a = a" by simp
  have "trim_char (CHR ''-'') a = a"
    unfolding trim_char_def
  proof (rule trim_words_stable)
    fix w
    assume "w \<in> set [''-'']" and "w \<noteq> []"
    with assms(1,4,5) show "\<not> prefix w a \<and> \<not> suffix w a"
      using prefix_hd [of w a] suffix_last [of w a] by auto
  qed
  with assms(1,2) show ?thesis by (simp add: userNameForAccount_def Let_def lower runes)
qed

text \<open>C29. The IAM user of an account is \<^verbatim>\<open>cosi-\<close> and one to sixty-four characters of the alphabet
  \<^verbatim>\<open>a-z0-9-_\<close>; an account that fits is kept as it is, so that one of 64 characters gives a name of 69
  where IAM allows 64. The name does not identify the account: there are fewer names than accounts, and
  already the account does not identify the claim.\<close>

theorem aws_user_name:
  "6 \<le> length (userNameForAccount a) \<and> length (userNameForAccount a) \<le> 69 \<and>
   (\<exists>body. userNameForAccount a = ''cosi-'' @ body \<and> list_all user_name_char body) \<and>
   trim_space (userNameForAccount a) = userNameForAccount a \<and>
   (a \<noteq> '''' \<and> length a \<le> 64 \<and> list_all user_name_char a \<and> hd a \<noteq> CHR ''-'' \<and> last a \<noteq> CHR ''-'' \<longrightarrow>
      userNameForAccount a = ''cosi-'' @ a) \<and>
   \<not> inj userNameForAccount \<and>
   account_id (named_claim ns (x @ ''-'' @ y)) = account_id (named_claim (ns @ ''-'' @ x) y)"
  using aws_user.length_enc [of a] aws_user.enc_shape [of a] aws_user.trim_enc [of a] aws_user.collision
    userNameForAccount_fits [of a]
  by (auto simp: account_id_def named_claim_def zero_meta_def)

theorem aws_user_name_witness:
  "length (userNameForAccount (replicate 64 (CHR ''a''))) = 69"
proof -
  have h: "replicate 64 (CHR ''a'') \<noteq> '''' \<and> length (replicate 64 (CHR ''a'')) \<le> 64 \<and>
      list_all user_name_char (replicate 64 (CHR ''a'')) \<and> hd (replicate 64 (CHR ''a'')) \<noteq> CHR ''-'' \<and>
      last (replicate 64 (CHR ''a'')) \<noteq> CHR ''-''"
    by (simp add: list_all_iff user_name_char_def)
  have "userNameForAccount (replicate 64 (CHR ''a'')) = ''cosi-'' @ replicate 64 (CHR ''a'')"
    using aws_user_name [of "replicate 64 (CHR ''a'')"] h by blast
  then show ?thesis by simp
qed

text \<open>
  What IAM does with the keys of one user, as \<open>K\<close> reads them from the world: below the limit a new key
  is made, at the limit the typed error comes back; listing returns them; deleting removes one.
\<close>

definition key_laws ::
  "('c, 'h, 'w) aws_sdk \<Rightarrow> 'h \<Rightarrow> string \<Rightarrow> ('w \<Rightarrow> string list) \<Rightarrow> nat \<Rightarrow> bool" where
  "key_laws sdk h u K limit \<longleftrightarrow>
     (\<forall>w. length (K w) < limit \<longrightarrow>
        (\<exists>k s w'. run_state (iam_CreateAccessKey sdk h u) w =
           (Inr (Some \<lparr>iak_AccessKeyId = Some k, iak_SecretAccessKey = Some s\<rparr>), w') \<and> K w' = K w @ [k])) \<and>
     (\<forall>w. limit \<le> length (K w) \<longrightarrow>
        (\<exists>m w'. run_state (iam_CreateAccessKey sdk h u) w = (Inl (ErrAws LimitExceeded m), w') \<and>
           contains m ''AccessKeysPerUser'' \<and> K w' = K w)) \<and>
     (\<forall>w. \<exists>w'. run_state (iam_ListAccessKeys sdk h u) w = (Inr (map Some (K w)), w') \<and> K w' = K w) \<and>
     (\<forall>w k. K (world_after (iam_DeleteAccessKey sdk h u (Some k)) w) = filter (\<lambda>k'. k' \<noteq> k) (K w))"

lemma delete_all_keys:
  assumes "key_laws sdk h u K limit"
  shows "set (K w) \<subseteq> set ks \<Longrightarrow>
     K (world_after (for_each (\<lambda>k. discard (iam_DeleteAccessKey sdk h u k)) (map Some ks)) w) = []"
proof (induction ks arbitrary: w)
  case (Cons k ks)
  let ?w1 = "world_after (iam_DeleteAccessKey sdk h u (Some k)) w"
  have "K ?w1 = filter (\<lambda>k'. k' \<noteq> k) (K w)" using assms by (simp add: key_laws_def)
  then have "set (K ?w1) \<subseteq> set ks" using Cons.prems by auto
  from Cons.IH [OF this] show ?case by (simp add: run_discard)
qed simp

text \<open>C30. At IAM's limit of access keys a grant recovers: the keys the user had are deleted, the call is
  made once more, and a key comes out, the only one left. Below the limit the other keys stay.\<close>

theorem aws_key_limit_recovery:
  assumes "key_laws sdk h u K limit" and "0 < limit"
  shows "\<exists>k s w'. run_state (aws_createKey sdk h u) w =
           (Inr (Some \<lparr>iak_AccessKeyId = Some k, iak_SecretAccessKey = Some s\<rparr>), w') \<and>
         K w' = (if length (K w) < limit then K w @ [k] else [k])"
proof (cases "length (K w) < limit")
  case True
  then obtain k s w' where "run_state (iam_CreateAccessKey sdk h u) w =
      (Inr (Some \<lparr>iak_AccessKeyId = Some k, iak_SecretAccessKey = Some s\<rparr>), w')" "K w' = K w @ [k]"
    using assms(1) unfolding key_laws_def by blast
  with True show ?thesis by (simp add: aws_createKey_def)
next
  case False
  then have "limit \<le> length (K w)" by simp
  then obtain m w1 where full: "run_state (iam_CreateAccessKey sdk h u) w = (Inl (ErrAws LimitExceeded m), w1)"
    "contains m ''AccessKeysPerUser''" "K w1 = K w"
    using assms(1) unfolding key_laws_def by blast
  obtain w2 where list: "run_state (iam_ListAccessKeys sdk h u) w1 = (Inr (map Some (K w1)), w2)" "K w2 = K w1"
    using assms(1) unfolding key_laws_def by blast
  let ?w3 = "world_after (aws_deleteListedKeys sdk h u) w1"
  have "K ?w3 = []"
    using delete_all_keys [OF assms(1), of w2 "K w1"] list by (simp add: aws_deleteListedKeys_def)
  then obtain k s w' where again: "run_state (iam_CreateAccessKey sdk h u) ?w3 =
      (Inr (Some \<lparr>iak_AccessKeyId = Some k, iak_SecretAccessKey = Some s\<rparr>), w')" "K w' = [k]"
    using assms unfolding key_laws_def by (metis append_Nil list.size(3))
  have limit: "key_limit (ErrAws LimitExceeded m)" using full(2) by (simp add: key_limit_def)
  have "run_state (aws_createKey sdk h u) w =
      (Inr (Some \<lparr>iak_AccessKeyId = Some k, iak_SecretAccessKey = Some s\<rparr>), w')"
    using full(1) again(1) limit by (auto simp: aws_createKey_def split: prod.splits)
  with again(2) False show ?thesis by simp
qed

lemma mem_aws_key_laws: "key_laws (mem_aws_sdk no_fails) () u aws_keys 2"
proof -
  have "contains ''Cannot exceed quota for AccessKeysPerUser: 2'' ''AccessKeysPerUser''" by code_simp
  then show ?thesis by (auto simp: key_laws_def mem_aws_sdk_def)
qed

theorem aws_key_limit_recovery_witness:
  "\<exists>k s w'. run_state (aws_createKey (mem_aws_sdk no_fails) () ''cosi-a'')
       (mem_aws_empty\<lparr>aws_keys := [''old1'', ''old2'']\<rparr>) =
       (Inr (Some \<lparr>iak_AccessKeyId = Some k, iak_SecretAccessKey = Some s\<rparr>), w') \<and> aws_keys w' = [k]"
  using aws_key_limit_recovery [OF mem_aws_key_laws, of "''cosi-a''" "mem_aws_empty\<lparr>aws_keys := [''old1'', ''old2'']\<rparr>"]
  by simp

text \<open>C31. Granting again with the keys of the Secret never succeeds on AWS: the provider hands out an
  empty endpoint with them, which provisioning refuses as incomplete, so a claim whose Secret holds
  keys cannot be reconciled to success.\<close>

theorem aws_regrant_fails:
  assumes "trim_space k \<noteq> ''''" and "trim_space s \<noteq> ''''"
  shows "\<exists>op e. result_of (ProvisionBucketAndGrantAccess (aws_provider sdk p) claim cls k s) w =
                  Inl (ErrProvisioning op (provision_bucket_name claim cls) e)"
proof -
  have "\<exists>err. result_of (ProvisionBucketAndGrantAccess (aws_provider sdk p) claim cls k s) w = Inl err"
  proof (rule ccontr)
    assume "\<not> ?thesis"
    then obtain creds w' where run: "run_state (ProvisionBucketAndGrantAccess (aws_provider sdk p) claim cls k s) w
        = (Inr creds, w')" by (metis prod.collapse sum.exhaust)
    from ProvisionBucketAndGrantAccess_ok [OF run] obtain w1 where
      "run_state (grantAccess (aws_provider sdk p) claim (provision_bucket_name claim cls) k s) w1 = (Inr creds, w')"
      by blast
    from grantAccess_ok [OF this] obtain m where
      "result_of (aws_GrantAccess sdk p (provision_bucket_name claim cls) (account_id claim)
         (spec_AccessType (claim_Spec claim)) k s) w1 = Inr m"
      "trim_space (smap_get m ''endpoint'') \<noteq> ''''"
      by (auto simp: aws_provider_def)
    with aws_GrantAccess_map(2) assms show False by fastforce
  qed
  then obtain err where
    err: "result_of (ProvisionBucketAndGrantAccess (aws_provider sdk p) claim cls k s) w = Inl err" by blast
  from ProvisionBucketAndGrantAccess_error [OF err] err show ?thesis by auto
qed

theorem aws_regrant_fails_witness:
  "\<exists>op e. result_of (ProvisionBucketAndGrantAccess (aws_provider (mem_aws_sdk no_fails) (Some mem_aws_provider))
     example_claim zero_class ''AKIA1'' ''secret'') mem_aws_empty = Inl (ErrProvisioning op ''ns1-c1'' e)"
proof -
  have "trim_space ''AKIA1'' \<noteq> ''''" "trim_space ''secret'' \<noteq> ''''"
    by (simp_all add: trim_space_graphic graphic_def)
  from aws_regrant_fails [OF this, of "mem_aws_sdk no_fails" "Some mem_aws_provider" example_claim zero_class
      mem_aws_empty]
  show ?thesis unfolding example_name .
qed

end
