(* ===== verification/Kube.thy ===== *)
theory Kube
  imports Minio_Client Aws_Provider
begin

text \<open>
  What the operator uses of Kubernetes: the objects it reads beside its own resources, the API client
  and the helper functions of controller-runtime and apimachinery as parameters, and the state a
  running operator keeps: the world, the resolver's caches and the metrics counted so far.
\<close>

section \<open>Objects\<close>

record Secret =
  secret_Namespace :: string
  secret_Name :: string
  secret_Type :: string
  secret_ResourceVersion :: string
  secret_Data :: smap
  secret_StringData :: smap
  secret_Owners :: "string list"

record ConfigMap =
  cm_ResourceVersion :: string
  cm_Data :: smap

text \<open>An \<^verbatim>\<open>unstructured.Unstructured\<close>: its metadata as far as it is used, and its object tree.\<close>

record Unstructured =
  u_Kind :: string
  u_Meta :: ObjectMeta
  u_Object :: "(string \<times> json) list"

section \<open>The client and the helpers, as parameters\<close>

text \<open>
  \<^item> \<open>k_Get...\<close>: \<^verbatim>\<open>client.Get\<close> of the object of that namespace and name;
  \<^item> \<open>k_UpdateClaim\<close>, \<open>k_UpdateClaimStatus\<close>: \<^verbatim>\<open>Update\<close> and \<^verbatim>\<open>Status().Update\<close>, which overwrite their
    argument with the server's reply, here returned;
  \<^item> \<open>k_GetUnstructured\<close> and the calls after it: the same for an object of a kind, namespace and name;
  \<^item> \<open>k_CreateOrUpdateSecret\<close>: \<^verbatim>\<open>controllerutil.CreateOrUpdate\<close> on the Secret of a namespace and name,
    with the function that fills it in;
  \<^item> \<open>k_CreateSecret\<close>, \<open>k_UpdateSecret\<close>, \<open>k_DeleteSecret\<close>: the client's calls on a Secret;
  \<^item> the finalizer helpers of controllerutil, on the list of an object's finalizers;
  \<^item> \<open>k_SetControllerReference\<close>, \<open>k_SetStatusCondition\<close>, \<open>k_IsStatusConditionTrue\<close>: pure helpers.
\<close>

record 'w kube =
  k_GetClaim :: "string \<Rightarrow> string \<Rightarrow> ('w, go_error + BucketClaim) state"
  k_GetClass :: "string \<Rightarrow> ('w, go_error + BucketClass) state"
  k_GetSecret :: "string \<Rightarrow> string \<Rightarrow> ('w, go_error + Secret) state"
  k_GetConfigMap :: "string \<Rightarrow> string \<Rightarrow> ('w, go_error + ConfigMap) state"
  k_UpdateClaim :: "BucketClaim \<Rightarrow> ('w, go_error + BucketClaim) state"
  k_UpdateClaimStatus :: "BucketClaim \<Rightarrow> ('w, go_error + BucketClaim) state"
  k_GetUnstructured :: "string \<Rightarrow> string \<Rightarrow> string \<Rightarrow> ('w, go_error + Unstructured) state"
  k_CreateUnstructured :: "Unstructured \<Rightarrow> ('w, go_error option) state"
  k_UpdateUnstructured :: "Unstructured \<Rightarrow> ('w, go_error + Unstructured) state"
  k_UpdateUnstructuredStatus :: "Unstructured \<Rightarrow> ('w, go_error option) state"
  k_CreateOrUpdateSecret ::
    "string \<Rightarrow> string \<Rightarrow> (Secret \<Rightarrow> go_error + Secret) \<Rightarrow> ('w, go_error + Secret) state"
  k_CreateSecret :: "Secret \<Rightarrow> ('w, go_error option) state"
  k_UpdateSecret :: "Secret \<Rightarrow> ('w, go_error option) state"
  k_DeleteSecret :: "string \<Rightarrow> string \<Rightarrow> ('w, go_error option) state"
  k_ContainsFinalizer :: "string list \<Rightarrow> string \<Rightarrow> bool"
  k_AddFinalizer :: "string list \<Rightarrow> string \<Rightarrow> string list"
  k_RemoveFinalizer :: "string list \<Rightarrow> string \<Rightarrow> string list"
  k_SetControllerReference :: "ObjectMeta \<Rightarrow> Secret \<Rightarrow> go_error + Secret"
  k_SetStatusCondition :: "Condition list \<Rightarrow> Condition \<Rightarrow> Condition list"
  k_IsStatusConditionTrue :: "Condition list \<Rightarrow> string \<Rightarrow> bool"

section \<open>The state of the operator\<close>

record ('h, 'w) op_state =
  st_world :: 'w
  st_cache :: "(string \<times> (string \<times> 'h minio_Client)) list"
  st_awsCache :: "(string \<times> (string \<times> 'h aws_Provider)) list"
  st_metrics :: "(string \<times> string) list"

text \<open>An operation on the world, run inside the operator.\<close>

definition in_world :: "('w, 'a) state \<Rightarrow> (('h, 'w) op_state, 'a) state" where
  "in_world m = State (\<lambda>s. let (r, w) = run_state m (st_world s) in (r, s\<lparr>st_world := w\<rparr>))"

lemma run_in_world [run_simps]:
  "run_state (in_world m) s =
     (result_of m (st_world s), s\<lparr>st_world := world_after m (st_world s)\<rparr>)"
  by (simp add: in_world_def split: prod.split)

text \<open>\<^verbatim>\<open>metric.WithLabelValues(label).Inc()\<close> (or \<^verbatim>\<open>Observe\<close>, whose value is not modelled).\<close>

definition inc :: "string \<Rightarrow> string \<Rightarrow> (('h, 'w) op_state, unit) state" where
  "inc metric label = State (\<lambda>s. ((), s\<lparr>st_metrics := st_metrics s @ [(metric, label)]\<rparr>))"

lemma run_inc [run_simps]:
  "run_state (inc metric label) s = ((), s\<lparr>st_metrics := st_metrics s @ [(metric, label)]\<rparr>)"
  by (simp add: inc_def)

text \<open>An invariant of the world, through the operations of the operator.\<close>

abbreviation of_world :: "('w \<Rightarrow> bool) \<Rightarrow> ('h, 'w) op_state \<Rightarrow> bool" where
  "of_world I \<equiv> \<lambda>s. I (st_world s)"

lemma keeps_in_world [keeps_rules]: "keeps I m Q \<Longrightarrow> keeps (of_world I) (in_world m) Q"
  by (simp add: keeps_def run_in_world)

lemma keeps_inc [keeps_rules]: "keeps (of_world I) (inc metric label) (\<lambda>_. True)"
  by (simp add: keeps_def run_inc)

text \<open>What \<^verbatim>\<open>Reconcile\<close> returns: done, requeue after so many seconds, or an error.\<close>

datatype ctrl_result = Done | RequeueAfter nat | Failed go_error

section \<open>A cluster in memory, for examples\<close>

text \<open>Objects by name, and a MinIO server; the helpers as apimachinery documents them.\<close>

record mem_cluster =
  mc_claims :: "((string \<times> string) \<times> BucketClaim) list"
  mc_classes :: "(string \<times> BucketClass) list"
  mc_secrets :: "((string \<times> string) \<times> Secret) list"
  mc_configmaps :: "((string \<times> string) \<times> ConfigMap) list"
  mc_objects :: "((string \<times> string \<times> string) \<times> Unstructured) list"
  mc_minio :: mem_minio
  mc_conflicts :: nat \<comment> \<open>writes of a status that will still be refused, where the cluster refuses any\<close>

definition found :: "(mem_cluster \<Rightarrow> ('k \<times> 'v) list) \<Rightarrow> 'k \<Rightarrow> (mem_cluster, go_error + 'v) state" where
  "found f k = State (\<lambda>w. ((case map_of (f w) k of None \<Rightarrow> Inl (ErrApi ReasonNotFound ''not found'')
                            | Some v \<Rightarrow> Inr v), w))"

lemma run_found [run_simps]:
  "run_state (found f k) w = ((case map_of (f w) k of None \<Rightarrow> Inl (ErrApi ReasonNotFound ''not found'')
                               | Some v \<Rightarrow> Inr v), w)"
  by (simp add: found_def)

fun mem_SetStatusCondition :: "Condition list \<Rightarrow> Condition \<Rightarrow> Condition list" where
  "mem_SetStatusCondition [] c = [c]"
| "mem_SetStatusCondition (d # ds) c =
     (if cond_Type d = cond_Type c then c # ds else d # mem_SetStatusCondition ds c)"

definition mem_IsStatusConditionTrue :: "Condition list \<Rightarrow> string \<Rightarrow> bool" where
  "mem_IsStatusConditionTrue cs t =
     (case find (\<lambda>c. cond_Type c = t) cs of None \<Rightarrow> False | Some c \<Rightarrow> cond_Status c = ''True'')"

definition claim_key :: "BucketClaim \<Rightarrow> string \<times> string" where
  "claim_key c = (claim_Namespace c, claim_Name c)"

definition put_claim :: "BucketClaim \<Rightarrow> (mem_cluster, go_error + BucketClaim) state" where
  "put_claim c = State (\<lambda>w. (Inr c, w\<lparr>mc_claims := AList.update (claim_key c) c (mc_claims w)\<rparr>))"

definition put_object :: "Unstructured \<Rightarrow> mem_cluster \<Rightarrow> mem_cluster" where
  "put_object u w = w\<lparr>mc_objects := AList.update
     (u_Kind u, meta_Namespace (u_Meta u), meta_Name (u_Meta u)) u (mc_objects w)\<rparr>"

definition put_secret :: "Secret \<Rightarrow> mem_cluster \<Rightarrow> mem_cluster" where
  "put_secret s w = w\<lparr>mc_secrets := AList.update (secret_Namespace s, secret_Name s) s (mc_secrets w)\<rparr>"

definition zero_secret :: "string \<Rightarrow> string \<Rightarrow> Secret" where
  "zero_secret ns n = \<lparr>secret_Namespace = ns, secret_Name = n, secret_Type = '''', secret_ResourceVersion = '''',
     secret_Data = [], secret_StringData = [], secret_Owners = []\<rparr>"

definition mem_kube :: "mem_cluster kube" where
  "mem_kube =
     \<lparr>k_GetClaim = (\<lambda>ns n. found mc_claims (ns, n)), k_GetClass = (\<lambda>n. found mc_classes n),
      k_GetSecret = (\<lambda>ns n. found mc_secrets (ns, n)), k_GetConfigMap = (\<lambda>ns n. found mc_configmaps (ns, n)),
      k_UpdateClaim = put_claim, k_UpdateClaimStatus = put_claim,
      k_GetUnstructured = (\<lambda>kind ns n. found mc_objects (kind, ns, n)),
      k_CreateUnstructured = (\<lambda>u. ok_after (put_object u)),
      k_UpdateUnstructured = (\<lambda>u. State (\<lambda>w. (Inr u, put_object u w))),
      k_UpdateUnstructuredStatus = (\<lambda>u. ok_after (put_object u)),
      k_CreateOrUpdateSecret = (\<lambda>ns n f. State (\<lambda>w.
        case f (case map_of (mc_secrets w) (ns, n) of None \<Rightarrow> zero_secret ns n | Some s \<Rightarrow> s) of
          Inl e \<Rightarrow> (Inl e, w)
        | Inr s \<Rightarrow> (Inr s, put_secret (s\<lparr>secret_Data := secret_StringData s\<rparr>) w))),
      k_CreateSecret = (\<lambda>s. ok_after (put_secret s)), k_UpdateSecret = (\<lambda>s. ok_after (put_secret s)),
      k_DeleteSecret = (\<lambda>ns n. ok_after (\<lambda>w. w\<lparr>mc_secrets := AList.delete (ns, n) (mc_secrets w)\<rparr>)),
      k_ContainsFinalizer = (\<lambda>fs f. f \<in> set fs), k_AddFinalizer = (\<lambda>fs f. if f \<in> set fs then fs else fs @ [f]),
      k_RemoveFinalizer = (\<lambda>fs f. filter (\<lambda>g. g \<noteq> f) fs),
      k_SetControllerReference = (\<lambda>m s. Inr (s\<lparr>secret_Owners := [meta_Name m]\<rparr>)),
      k_SetStatusCondition = mem_SetStatusCondition,
      k_IsStatusConditionTrue = mem_IsStatusConditionTrue\<rparr>"

definition on_minio :: "(mem_minio, 'a) state \<Rightarrow> (mem_cluster, 'a) state" where
  "on_minio m = State (\<lambda>w. let (r, x) = run_state m (mc_minio w) in (r, w\<lparr>mc_minio := x\<rparr>))"

lemma run_on_minio [run_simps]:
  "run_state (on_minio m) w = (result_of m (mc_minio w), w\<lparr>mc_minio := world_after m (mc_minio w)\<rparr>)"
  by (simp add: on_minio_def split: prod.split)

definition cluster_minio :: "(unit, mem_cluster) minio_sdk" where
  "cluster_minio =
     \<lparr>miniogo_New = (\<lambda>_ _ _ _. Inr ()), madmin_New = (\<lambda>_ _ _ _. Inr ()),
      mg_BucketExists = (\<lambda>h b. on_minio (mg_BucketExists mem_sdk h b)),
      mg_MakeBucket = (\<lambda>h b r l. on_minio (mg_MakeBucket mem_sdk h b r l)),
      mg_RemoveBucket = (\<lambda>h b. on_minio (mg_RemoveBucket mem_sdk h b)),
      mg_SetBucketLifecycle = (\<lambda>_ _ _. ret None), mg_SetBucketReplication = (\<lambda>_ _ _. ret None),
      mg_EndpointURL = (\<lambda>_. ''http://minio:9000''),
      ma_SetBucketQuota = (\<lambda>_ _ _. ret None),
      ma_AddUser = (\<lambda>h u s. on_minio (ma_AddUser mem_sdk h u s)),
      ma_AddCannedPolicy = (\<lambda>h n p. on_minio (ma_AddCannedPolicy mem_sdk h n p)),
      ma_SetPolicy = (\<lambda>h n u g. on_minio (ma_SetPolicy mem_sdk h n u g)),
      ma_RemoveUser = (\<lambda>h u. on_minio (ma_RemoveUser mem_sdk h u)),
      ma_RemoveCannedPolicy = (\<lambda>h n. on_minio (ma_RemoveCannedPolicy mem_sdk h n))\<rparr>"

lemma cluster_grant:
  "\<exists>m w'. run_state (GrantAccess (minio_provider cluster_minio mem_client) b a t k s) w = (Inr m, w')"
  by (simp add: minio_provider_def minio_GrantAccess_def cluster_minio_def mem_sdk_def mem_client_def Let_def run_simps)

definition cluster_aws :: "(unit, unit, mem_cluster) aws_sdk" where
  "cluster_aws =
     \<lparr>aws_LoadConfig = (\<lambda>_ _ _. Inr ()), s3_NewFromConfig = (\<lambda>_ _ _. ()), iam_NewFromConfig = (\<lambda>_ _. ()),
      s3_CreateBucket = (\<lambda>_ _. ret None), s3_DeleteBucket = (\<lambda>_ _. ret None),
      s3_PutBucketLifecycleConfiguration = (\<lambda>_ _ _. ret None), s3_PutPublicAccessBlock = (\<lambda>_ _ _. ret None),
      s3_PutBucketOwnershipControls = (\<lambda>_ _ _. ret None), s3_PutBucketEncryption = (\<lambda>_ _ _. ret None),
      s3_PutBucketPolicy = (\<lambda>_ _ _. ret None), iam_CreateUser = (\<lambda>_ _. ret None),
      iam_DeleteUser = (\<lambda>_ _. ret None), iam_CreateAccessKey = (\<lambda>_ _. ret (Inr None)),
      iam_DeleteAccessKey = (\<lambda>_ _ _. ret None), iam_ListAccessKeys = (\<lambda>_ _. ret (Inr [])),
      iam_PutUserPolicy = (\<lambda>_ _ _ _. ret None), iam_DeleteUserPolicy = (\<lambda>_ _ _. ret None)\<rparr>"

definition empty_cluster :: mem_cluster where
  "empty_cluster = \<lparr>mc_claims = [], mc_classes = [], mc_secrets = [], mc_configmaps = [], mc_objects = [],
     mc_minio = mem_empty, mc_conflicts = 0\<rparr>"

definition start_state :: "mem_cluster \<Rightarrow> (unit, mem_cluster) op_state" where
  "start_state w = \<lparr>st_world = w, st_cache = [], st_awsCache = [], st_metrics = []\<rparr>"

end
