(* ===== verification/Resolver.thy ===== *)
theory Resolver
  imports Kube
begin

text \<open>
  internal/backend/resolve/resolver.go: the storage provider of a \<^verbatim>\<open>BucketClass\<close>, from its credential
  Secret and, on AWS, its bucket policy document, with a cache for each backend keyed by the objects
  read and guarded by their resource versions. Each lookup with its insertion runs under a mutex, so
  it is one step here.
\<close>

record ('c, 'h, 'w) resolver_deps =
  rd_kube :: "'w kube"
  rd_minio :: "('h, 'w) minio_sdk"
  rd_aws :: "('c, 'h, 'w) aws_sdk"
  rd_DefaultMinio :: "'h minio_Client option"

text \<open>The SDKs are parameters of the model beside the fields of \<^verbatim>\<open>NewResolver\<close>; its caches start empty.\<close>

definition NewResolver ::
  "'w kube \<Rightarrow> ('h, 'w) minio_sdk \<Rightarrow> ('c, 'h, 'w) aws_sdk \<Rightarrow> 'h minio_Client option \<Rightarrow> ('c, 'h, 'w) resolver_deps" where
  "NewResolver c minio aws defaultMinio =
     \<lparr>rd_kube = c, rd_minio = minio, rd_aws = aws, rd_DefaultMinio = defaultMinio\<rparr>"

definition class_prefix :: "BucketClass \<Rightarrow> string" where
  "class_prefix cls = ''bucketClass '' @ quote (class_Name cls) @ '': ''"

section \<open>A cache guarded by resource versions\<close>

text \<open>
  The shape both caches share: the entry of a key is reused where its version is the current one, and
  otherwise replaced by what \<open>built\<close> builds; a failed build leaves the cache as it was.
\<close>

definition cached ::
  "(string \<times> (string \<times> 'v)) list \<Rightarrow> string \<Rightarrow> string \<Rightarrow> go_error + 'v \<Rightarrow>
     (go_error + 'v) \<times> (string \<times> (string \<times> 'v)) list" where
  "cached cache key rv built =
     (case map_of cache key of
        Some (rv', v) \<Rightarrow>
          if rv' = rv then (Inr v, cache)
          else (case built of Inl e \<Rightarrow> (Inl e, cache) | Inr v' \<Rightarrow> (Inr v', AList.update key (rv, v') cache))
      | None \<Rightarrow> (case built of Inl e \<Rightarrow> (Inl e, cache) | Inr v' \<Rightarrow> (Inr v', AList.update key (rv, v') cache)))"

section \<open>MinIO\<close>

definition minio_cached ::
  "('h, 'w) minio_sdk \<Rightarrow> minio_Config \<Rightarrow> string \<Rightarrow> string \<Rightarrow> (('h, 'w) op_state, go_error + 'h minio_Client) state"
  where
  "minio_cached sdk cfg cacheKey rv = State (\<lambda>s.
     let (r, cache) = cached (st_cache s) cacheKey rv (minio_NewClient sdk cfg)
     in (r, s\<lparr>st_cache := cache\<rparr>))"

definition default_minio :: "('c, 'h, 'w) resolver_deps \<Rightarrow> go_error + 'w Provider" where
  "default_minio d =
     (case rd_DefaultMinio d of
        None \<Rightarrow> Inl (ErrText ''no default MinIO client configured'')
      | Some c \<Rightarrow> Inr (minio_provider (rd_minio d) c))"

definition minioProviderForClass ::
  "('c, 'h, 'w) resolver_deps \<Rightarrow> BucketClass \<Rightarrow> (('h, 'w) op_state, go_error + 'w Provider) state" where
  "minioProviderForClass d cls =
     (case class_MinioCredentialSecretRef cls of
        None \<Rightarrow> ret (default_minio d)
      | Some ref \<Rightarrow>
          if sref_Name ref = '''' then ret (default_minio d)
          else if sref_Namespace ref = '''' then
            ret (Inl (ErrText (class_prefix cls @
                   ''minioCredentialSecretRef.namespace is required when name is set'')))
          else
            val_or_err (in_world (k_GetSecret (rd_kube d) (sref_Namespace ref) (sref_Name ref))) Inl
              (\<lambda>secret.
                 case minio_ConfigFromSecretData (secret_Data secret) of
                   Inl e \<Rightarrow> ret (Inl (ErrWrap (''invalid MinIO credential secret '' @ sref_Namespace ref @ ''/'' @
                                       sref_Name ref @ '': '') e ''''))
                 | Inr cfg \<Rightarrow>
                     val_or_err
                       (minio_cached (rd_minio d) cfg (sref_Namespace ref @ ''/'' @ sref_Name ref)
                          (secret_ResourceVersion secret))
                       Inl (\<lambda>c. ret (Inr (minio_provider (rd_minio d) c)))))"

section \<open>AWS\<close>

text \<open>The bucket policy a class refers to: its cache key, resource version and document.\<close>

definition policy_missing :: "BucketClass \<Rightarrow> BucketPolicyRef \<Rightarrow> go_error" where
  "policy_missing cls pr =
     ErrText (class_prefix cls @ ''bucketPolicyRef '' @ policy_Namespace pr @ ''/'' @ policy_Name pr @
              '' missing data['' @ quote (policy_Key pr) @ '']'')"

definition read_policy ::
  "'w kube \<Rightarrow> BucketClass \<Rightarrow> BucketPolicyRef \<Rightarrow> string \<Rightarrow> (('h, 'w) op_state, go_error + string \<times> string) state"
  where
  "read_policy k cls pr kind =
     (if kind = ''ConfigMap'' then
        val_or_err (in_world (k_GetConfigMap k (policy_Namespace pr) (policy_Name pr))) Inl
          (\<lambda>cm. let raw = trim_space (smap_get (cm_Data cm) (policy_Key pr)) in
             if raw = '''' then ret (Inl (policy_missing cls pr))
             else ret (Inr (cm_ResourceVersion cm, raw)))
      else if kind = ''Secret'' then
        val_or_err (in_world (k_GetSecret k (policy_Namespace pr) (policy_Name pr))) Inl
          (\<lambda>ps. let raw = smap_get (secret_Data ps) (policy_Key pr) in
             if raw = '''' then ret (Inl (policy_missing cls pr))
             else ret (Inr (secret_ResourceVersion ps, raw)))
      else ret (Inl (ErrText (class_prefix cls @ ''bucketPolicyRef.kind must be ConfigMap or Secret''))))"

definition bucket_policy_of ::
  "'w kube \<Rightarrow> BucketClass \<Rightarrow> (('h, 'w) op_state, go_error + string \<times> string \<times> string) state" where
  "bucket_policy_of k cls =
     (case class_BucketPolicyRef cls of
        None \<Rightarrow> ret (Inr ('''', '''', ''''))
      | Some pr \<Rightarrow>
          if trim_space (policy_Name pr) = '''' then ret (Inr ('''', '''', ''''))
          else
            (let kind = trim_space (policy_Kind pr);
                 kind = (if kind = '''' then ''ConfigMap'' else kind)
             in
             if trim_space (policy_Namespace pr) = '''' \<or> trim_space (policy_Key pr) = '''' then
               ret (Inl (ErrText (class_prefix cls @ ''bucketPolicyRef requires namespace, name, and key'')))
             else
               val_or_err (read_policy k cls pr kind) Inl
                 (\<lambda>(rv, doc).
                    case unmarshal_map doc of
                      None \<Rightarrow> ret (Inl (ErrWrap (class_prefix cls @ ''bucketPolicyRef JSON invalid: '') json_error ''''))
                    | Some _ \<Rightarrow>
                        ret (Inr (kind @ '':'' @ policy_Namespace pr @ ''/'' @ policy_Name pr @ ''#'' @ policy_Key pr,
                                  rv, doc)))))"

definition aws_cached ::
  "('c, 'h, 'w) aws_sdk \<Rightarrow> aws_Config \<Rightarrow> string \<Rightarrow> string \<Rightarrow> string \<Rightarrow>
     (('h, 'w) op_state, go_error + 'h aws_Provider) state" where
  "aws_cached sdk cfg policyDoc cacheKey rv = State (\<lambda>s.
     let built = (case aws_New sdk cfg of
                   Inl e \<Rightarrow> Inl e
                 | Inr p \<Rightarrow> (case WithBucketPolicyDocument policyDoc (Some p) of
                               Some p' \<Rightarrow> Inr p' | None \<Rightarrow> Inl nil_client));
         (r, cache) = cached (st_awsCache s) cacheKey rv built
     in (r, s\<lparr>st_awsCache := cache\<rparr>))"

definition awsProviderForClass ::
  "('c, 'h, 'w) resolver_deps \<Rightarrow> BucketClass \<Rightarrow> (('h, 'w) op_state, go_error + 'w Provider) state" where
  "awsProviderForClass d cls =
     (case class_AwsCredentialSecretRef cls of
        None \<Rightarrow> ret (Inl (ErrText (class_prefix cls @ ''awsCredentialSecretRef is required when backend=AWS'')))
      | Some ref \<Rightarrow>
          if sref_Name ref = '''' then
            ret (Inl (ErrText (class_prefix cls @ ''awsCredentialSecretRef is required when backend=AWS'')))
          else if sref_Namespace ref = '''' then
            ret (Inl (ErrText (class_prefix cls @
                   ''awsCredentialSecretRef.namespace is required when name is set'')))
          else
            val_or_err (in_world (k_GetSecret (rd_kube d) (sref_Namespace ref) (sref_Name ref))) Inl
              (\<lambda>secret.
                 case aws_ConfigFromSecretData (secret_Data secret) of
                   Inl e \<Rightarrow> ret (Inl (ErrWrap (''invalid AWS credential secret '' @ sref_Namespace ref @ ''/'' @
                                       sref_Name ref @ '': '') e ''''))
                 | Inr cfg \<Rightarrow>
                     val_or_err (bucket_policy_of (rd_kube d) cls) Inl
                       (\<lambda>(policyKey, policyRV, policyDoc).
                          val_or_err
                            (aws_cached (rd_aws d) cfg policyDoc
                               (sref_Namespace ref @ ''/'' @ sref_Name ref @ ''|'' @ policyKey)
                               (secret_ResourceVersion secret @ ''|'' @ policyRV))
                            Inl (\<lambda>p. ret (Inr (aws_provider (rd_aws d) (Some p)))))))"

section \<open>ProviderForClass\<close>

text \<open>The resolver and the class are pointers: \<open>None\<close> is nil.\<close>

definition ProviderForClass ::
  "('c, 'h, 'w) resolver_deps option \<Rightarrow> BucketClass option \<Rightarrow> (('h, 'w) op_state, go_error + 'w Provider) state"
  where
  "ProviderForClass r class =
     (case r of
        None \<Rightarrow> ret (Inl (ErrText ''resolver is nil''))
      | Some d \<Rightarrow>
          (case KindForBucketClass class of
             Inl e \<Rightarrow> ret (Inl e)
           | Inr kind \<Rightarrow>
               (case class of
                  None \<Rightarrow> ret (Inl nil_client)
                | Some cls \<Rightarrow>
                    if kind = KindMinIO then minioProviderForClass d cls
                    else if kind = KindAWS then awsProviderForClass d cls
                    else ret (Inl (ErrWrap '''' ErrNotImplemented ('': '' @ kind))))))"

section \<open>Lemmas\<close>

text \<open>
  \<open>B key rv\<close> is what a build from the objects of that key and version gives. A cache is right for \<open>B\<close>
  where every entry is what its version builds; then a lookup gives what a fresh build would.
\<close>

definition cache_ok :: "(string \<Rightarrow> string \<Rightarrow> go_error + 'v) \<Rightarrow> (string \<times> (string \<times> 'v)) list \<Rightarrow> bool" where
  "cache_ok B cache \<longleftrightarrow> (\<forall>key rv v. map_of cache key = Some (rv, v) \<longrightarrow> B key rv = Inr v)"

lemma cache_ok_Nil [simp]: "cache_ok B []"
  by (simp add: cache_ok_def)

lemma cached_transparent:
  assumes "cache_ok B cache"
  shows "fst (cached cache key rv (B key rv)) = B key rv"
    and "cache_ok B (snd (cached cache key rv (B key rv)))"
  using assms
  by (auto simp: cached_def cache_ok_def update_conv' split: option.splits sum.splits)

lemma minio_cached_run:
  "run_state (minio_cached sdk cfg key rv) s =
     (fst (cached (st_cache s) key rv (minio_NewClient sdk cfg)),
      s\<lparr>st_cache := snd (cached (st_cache s) key rv (minio_NewClient sdk cfg))\<rparr>)"
  by (simp add: minio_cached_def split: prod.split)

text \<open>The client a Secret's data builds.\<close>

definition minio_build :: "('h, 'w) minio_sdk \<Rightarrow> smap \<Rightarrow> go_error + 'h minio_Client" where
  "minio_build sdk data =
     (case minio_ConfigFromSecretData data of Inl e \<Rightarrow> Inl e | Inr cfg \<Rightarrow> minio_NewClient sdk cfg)"

text \<open>
  \<open>versioned k content\<close>: a Secret of one name never has two contents under one resource version, which
  is what a resource version is for; \<open>content\<close> gives the data.
\<close>

definition versioned :: "'w kube \<Rightarrow> (string \<Rightarrow> string \<Rightarrow> smap) \<Rightarrow> bool" where
  "versioned k content \<longleftrightarrow>
     (\<forall>ns n w s w'. run_state (k_GetSecret k ns n) w = (Inr s, w') \<longrightarrow>
        secret_Data s = content (ns @ ''/'' @ n) (secret_ResourceVersion s))"

lemma aws_cached_run:
  "run_state (aws_cached sdk cfg doc key rv) s =
     (let built = (case aws_New sdk cfg of
                     Inl e \<Rightarrow> Inl e | Inr p \<Rightarrow> Inr (p\<lparr>aws_bucketPolicyJSON := doc\<rparr>));
          r = cached (st_awsCache s) key rv built
      in (fst r, s\<lparr>st_awsCache := snd r\<rparr>))"
  by (simp add: aws_cached_def Let_def WithBucketPolicyDocument_def split: prod.split sum.split)

section \<open>Properties\<close>

text \<open>C15. The cache of MinIO clients is transparent: where a resource version identifies a Secret's data
  and every entry is what its version builds, resolving a class gives the same provider or error as
  with an empty cache, reads the same objects, and leaves every entry right again. So a rotated Secret
  is picked up at its next resolution.\<close>

theorem minio_cache_transparent:
  fixes d :: "('c, 'h, 'w) resolver_deps"
  assumes "versioned (rd_kube d) content"
    and "cache_ok (\<lambda>key rv. minio_build (rd_minio d) (content key rv)) (st_cache s)"
  shows "result_of (minioProviderForClass d cls) s = result_of (minioProviderForClass d cls) (s\<lparr>st_cache := []\<rparr>) \<and>
         st_world (world_after (minioProviderForClass d cls) s) =
           st_world (world_after (minioProviderForClass d cls) (s\<lparr>st_cache := []\<rparr>)) \<and>
         cache_ok (\<lambda>key rv. minio_build (rd_minio d) (content key rv))
           (st_cache (world_after (minioProviderForClass d cls) s))"
proof (cases "\<exists>ref. class_MinioCredentialSecretRef cls = Some ref \<and> sref_Name ref \<noteq> '''' \<and> sref_Namespace ref \<noteq> ''''")
  case False
  with assms(2) show ?thesis
    by (auto simp: minioProviderForClass_def split: option.splits)
next
  case True
  then obtain ref where ref: "class_MinioCredentialSecretRef cls = Some ref" "sref_Name ref \<noteq> ''''"
    "sref_Namespace ref \<noteq> ''''" by blast
  obtain r w' where get: "run_state (k_GetSecret (rd_kube d) (sref_Namespace ref) (sref_Name ref)) (st_world s) = (r, w')"
    by fastforce
  show ?thesis
  proof (cases r)
    case (Inl e)
    with ref get assms(2) show ?thesis by (simp add: minioProviderForClass_def run_simps)
  next
    case (Inr secret)
    let ?key = "sref_Namespace ref @ ''/'' @ sref_Name ref" and ?rv = "secret_ResourceVersion secret"
    let ?B = "\<lambda>key rv. minio_build (rd_minio d) (content key rv)"
    have data: "secret_Data secret = content ?key ?rv"
      using assms(1) get Inr unfolding versioned_def by blast
    show ?thesis
    proof (cases "minio_ConfigFromSecretData (secret_Data secret)")
      case (Inl e)
      with ref get \<open>r = Inr secret\<close> assms(2) show ?thesis
        by (simp add: minioProviderForClass_def run_simps)
    next
      case (Inr cfg)
      then have B: "?B ?key ?rv = minio_NewClient (rd_minio d) cfg" by (simp add: minio_build_def data)
      note hit = cached_transparent [OF assms(2), of ?key ?rv, unfolded B]
      note miss = cached_transparent(1) [of ?B "[]" ?key ?rv, unfolded B, OF cache_ok_Nil]
      from ref get \<open>r = Inr secret\<close> Inr hit miss show ?thesis
        by (cases "minio_NewClient (rd_minio d) cfg")
          (simp_all add: minioProviderForClass_def run_simps minio_cached_run)
    qed
  qed
qed

definition example_deps :: "(unit, unit, mem_cluster) resolver_deps" where
  "example_deps = \<lparr>rd_kube = mem_kube, rd_minio = cluster_minio, rd_aws = cluster_aws,
     rd_DefaultMinio = Some mem_client\<rparr>"

definition example_secret :: Secret where
  "example_secret = (zero_secret ''sys'' ''minio'')\<lparr>secret_ResourceVersion := ''7'', secret_Data :=
     [(''endpoint'', ''m:9000''), (''accessKey'', ''ak''), (''secretKey'', ''sk'')]\<rparr>"

text \<open>A cluster whose one Secret never changes: \<open>k_GetSecret\<close> answers with it whatever is asked.\<close>

definition one_secret_deps :: "(unit, unit, mem_cluster) resolver_deps" where
  "one_secret_deps = example_deps\<lparr>rd_kube := mem_kube\<lparr>k_GetSecret := \<lambda>ns n. ret (Inr example_secret)\<rparr>\<rparr>"

theorem minio_cache_transparent_witness:
  "result_of (minioProviderForClass one_secret_deps
       (zero_class\<lparr>class_MinioCredentialSecretRef := Some \<lparr>sref_Name = ''minio'', sref_Namespace = ''sys''\<rparr>\<rparr>))
     ((start_state empty_cluster)\<lparr>st_cache := [(''sys/minio'', (''7'', mem_client))]\<rparr>) =
   result_of (minioProviderForClass one_secret_deps
       (zero_class\<lparr>class_MinioCredentialSecretRef := Some \<lparr>sref_Name = ''minio'', sref_Namespace = ''sys''\<rparr>\<rparr>))
     (start_state empty_cluster)"
proof -
  let ?cls = "zero_class\<lparr>class_MinioCredentialSecretRef := Some \<lparr>sref_Name = ''minio'', sref_Namespace = ''sys''\<rparr>\<rparr>"
  let ?s = "(start_state empty_cluster)\<lparr>st_cache := [(''sys/minio'', (''7'', mem_client))]\<rparr>"
  let ?content = "\<lambda>key rv. secret_Data example_secret"
  have v: "versioned (rd_kube one_secret_deps) ?content"
    by (simp add: versioned_def one_secret_deps_def example_deps_def)
  have "minio_build cluster_minio (secret_Data example_secret) = Inr mem_client"
    by (simp add: minio_build_def example_secret_def minio_example_config minio_NewClient_def cluster_minio_def
        mem_client_def)
  then have c: "cache_ok (\<lambda>key rv. minio_build (rd_minio one_secret_deps) (?content key rv)) (st_cache ?s)"
    by (simp add: cache_ok_def one_secret_deps_def example_deps_def)
  have "?s\<lparr>st_cache := []\<rparr> = start_state empty_cluster" by (simp add: start_state_def)
  with minio_cache_transparent [OF v c, of ?cls] show ?thesis by simp
qed

lemma awsProviderForClass_cong:
  assumes "rd_kube d = rd_kube d'" and "rd_aws d = rd_aws d'"
  shows "awsProviderForClass d cls = awsProviderForClass d' cls"
  unfolding awsProviderForClass_def assms ..

lemma minioProviderForClass_cong:
  assumes "rd_kube d = rd_kube d'" and "rd_minio d = rd_minio d'" and "rd_DefaultMinio d = rd_DefaultMinio d'"
  shows "minioProviderForClass d cls = minioProviderForClass d' cls"
  unfolding minioProviderForClass_def default_minio_def assms ..

lemma minioProviderForClass_named:
  assumes "rd_kube d = rd_kube d'" and "rd_minio d = rd_minio d'"
    and "class_MinioCredentialSecretRef cls = Some ref" "sref_Name ref \<noteq> ''''"
  shows "minioProviderForClass d cls = minioProviderForClass d' cls"
  using assms(4) unfolding minioProviderForClass_def assms(1,2,3) by simp

text \<open>C32. A class gets no backend but its own. On AWS neither the MinIO SDK, nor the default client, nor
  the MinIO cache counts; on MinIO the AWS SDK and its cache do not; and a class that names a MinIO
  Secret never falls back to the default client. Every provider handed out is built from one of the
  two SDKs, over a client that is not nil.\<close>

theorem resolver_isolation:
  assumes "KindForBucketClass (Some cls) = Inr kind"
  shows "(kind = KindAWS \<longrightarrow>
            run_state (ProviderForClass (Some (d\<lparr>rd_DefaultMinio := c', rd_minio := m'\<rparr>)) (Some cls)) s =
            run_state (ProviderForClass (Some d) (Some cls)) s \<and>
            (\<forall>p. result_of (ProviderForClass (Some d) (Some cls)) s = Inr p \<longrightarrow>
               (\<exists>q. p = aws_provider (rd_aws d) (Some q)))) \<and>
         (kind = KindMinIO \<longrightarrow>
            run_state (ProviderForClass (Some (d\<lparr>rd_aws := a'\<rparr>)) (Some cls)) s =
            run_state (ProviderForClass (Some d) (Some cls)) s \<and>
            (\<forall>p. result_of (ProviderForClass (Some d) (Some cls)) s = Inr p \<longrightarrow>
               (\<exists>c. p = minio_provider (rd_minio d) c))) \<and>
         (kind = KindMinIO \<and> (\<exists>ref. class_MinioCredentialSecretRef cls = Some ref \<and> sref_Name ref \<noteq> '''') \<longrightarrow>
            run_state (ProviderForClass (Some (d\<lparr>rd_DefaultMinio := c'\<rparr>)) (Some cls)) s =
            run_state (ProviderForClass (Some d) (Some cls)) s)"
proof (intro conjI impI)

  assume aws: "kind = KindAWS"
  show "run_state (ProviderForClass (Some (d\<lparr>rd_DefaultMinio := c', rd_minio := m'\<rparr>)) (Some cls)) s =
      run_state (ProviderForClass (Some d) (Some cls)) s"
    using assms aws
    by (simp add: ProviderForClass_def awsProviderForClass_cong [of "d\<lparr>rd_DefaultMinio := c', rd_minio := m'\<rparr>" d])
  show "\<forall>p. result_of (ProviderForClass (Some d) (Some cls)) s = Inr p \<longrightarrow>
      (\<exists>q. p = aws_provider (rd_aws d) (Some q))"
    using assms aws
    by (auto simp: ProviderForClass_def awsProviderForClass_def run_simps
        split: option.splits prod.splits sum.splits if_splits)
next
  assume minio: "kind = KindMinIO"
  show "run_state (ProviderForClass (Some (d\<lparr>rd_aws := a'\<rparr>)) (Some cls)) s =
      run_state (ProviderForClass (Some d) (Some cls)) s"
    using assms minio
    by (simp add: ProviderForClass_def minioProviderForClass_cong [of "d\<lparr>rd_aws := a'\<rparr>" d])
  show "\<forall>p. result_of (ProviderForClass (Some d) (Some cls)) s = Inr p \<longrightarrow>
      (\<exists>c. p = minio_provider (rd_minio d) c)"
    using assms minio
    by (auto simp: ProviderForClass_def minioProviderForClass_def default_minio_def run_simps
        split: option.splits prod.splits sum.splits if_splits)
next
  assume "kind = KindMinIO \<and> (\<exists>ref. class_MinioCredentialSecretRef cls = Some ref \<and> sref_Name ref \<noteq> '''')"
  then show "run_state (ProviderForClass (Some (d\<lparr>rd_DefaultMinio := c'\<rparr>)) (Some cls)) s =
      run_state (ProviderForClass (Some d) (Some cls)) s"
    using assms
    by (auto simp: ProviderForClass_def minioProviderForClass_named [of "d\<lparr>rd_DefaultMinio := c'\<rparr>" d])
qed

theorem resolver_isolation_witness:
  "run_state (ProviderForClass (Some (example_deps\<lparr>rd_aws := cluster_aws\<lparr>aws_LoadConfig := \<lambda>_ _ _. Inl json_error\<rparr>\<rparr>))
      (Some zero_class)) (start_state empty_cluster) =
   run_state (ProviderForClass (Some example_deps) (Some zero_class)) (start_state empty_cluster)"
proof -
  have "KindForBucketClass (Some zero_class) = Inr KindMinIO"
    by (simp add: KindForBucketClass_def zero_class_def)
  from resolver_isolation [OF this, THEN conjunct2, THEN conjunct1, THEN mp, OF refl, THEN conjunct1]
  show ?thesis .
qed

end
