(* ===== verification/Bucketclaim_Controller.thy ===== *)
theory Bucketclaim_Controller
  imports Resolver
begin

text \<open>
  internal/controller/bucketclaim\_controller.go: the reconciler of a \<^verbatim>\<open>BucketClaim\<close>, stage by stage, with
  the counters of metrics.go it increments. Log lines and the measured durations are not modelled.
\<close>

section \<open>Constants\<close>

definition bucketClaimFinalizer :: string where
  "bucketClaimFinalizer = ''objectstorage.k8s.io/finalizer''"

definition operator_driver :: string where
  "operator_driver = ''k8s-s3-bucket-operator''"

abbreviation claimConditionReady :: string where
  "claimConditionReady \<equiv> ''Ready''"

text \<open>The reasons of the \<^verbatim>\<open>Ready\<close> condition; the three others of the file are never used.\<close>

abbreviation claimReasonProvisioning :: string where
  "claimReasonProvisioning \<equiv> ''Provisioning''"

abbreviation claimReasonBucketProvisioned :: string where
  "claimReasonBucketProvisioned \<equiv> ''BucketProvisioned''"

abbreviation claimReasonBucketClassLookupFail :: string where
  "claimReasonBucketClassLookupFail \<equiv> ''BucketClassLookupFailed''"

abbreviation claimReasonUnsupportedDriver :: string where
  "claimReasonUnsupportedDriver \<equiv> ''UnsupportedDriver''"

abbreviation claimReasonCreateBucketFailed :: string where
  "claimReasonCreateBucketFailed \<equiv> ''CreateBucketFailed''"

abbreviation claimReasonConfigureBucketFailed :: string where
  "claimReasonConfigureBucketFailed \<equiv> ''ConfigureBucketFailed''"

abbreviation claimReasonGrantAccessFailed :: string where
  "claimReasonGrantAccessFailed \<equiv> ''GrantAccessFailed''"

abbreviation claimReasonReconcileSecretFailed :: string where
  "claimReasonReconcileSecretFailed \<equiv> ''ReconcileSecretFailed''"

abbreviation claimReasonMinioCredentialSecretInvalid :: string where
  "claimReasonMinioCredentialSecretInvalid \<equiv> ''MinioCredentialSecretInvalid''"

abbreviation claimReasonAwsCredentialSecretInvalid :: string where
  "claimReasonAwsCredentialSecretInvalid \<equiv> ''AwsCredentialSecretInvalid''"

abbreviation claimReasonUnsupportedBackend :: string where
  "claimReasonUnsupportedBackend \<equiv> ''UnsupportedBackend''"

definition maxConditionMessageRunes :: nat where
  "maxConditionMessageRunes = 1024"

record ('c, 'h, 'w) claim_reconciler =
  cr_kube :: "'w kube"
  cr_resolver :: "('c, 'h, 'w) resolver_deps option"
  cr_EnableCOSI :: bool

section \<open>Metrics\<close>

text \<open>The names of the four collectors.\<close>

abbreviation reconcileTotal :: string where
  "reconcileTotal \<equiv> ''bucket_operator_reconcile_total''"

abbreviation reconcileErrorsTotal :: string where
  "reconcileErrorsTotal \<equiv> ''bucket_operator_reconcile_errors_total''"

abbreviation reconcileDurationSeconds :: string where
  "reconcileDurationSeconds \<equiv> ''bucket_operator_reconcile_duration_seconds''"

abbreviation bucketsBoundTotal :: string where
  "bucketsBoundTotal \<equiv> ''bucket_operator_buckets_bound_total''"

text \<open>The collectors, in the order in which \<^verbatim>\<open>init\<close> registers them; the buckets of the histogram are the library's.\<close>

datatype collector_kind = CounterVec | HistogramVec

record collector =
  col_Kind :: collector_kind
  col_Name :: string
  col_Help :: string
  col_Labels :: "string list"

definition collectors :: "collector list" where
  "collectors =
     [\<lparr>col_Kind = CounterVec, col_Name = reconcileTotal,
       col_Help = ''Total number of BucketClaim reconcile attempts.'', col_Labels = [''result'']\<rparr>,
      \<lparr>col_Kind = CounterVec, col_Name = reconcileErrorsTotal,
       col_Help = ''Total number of BucketClaim reconcile errors by stage.'', col_Labels = [''stage'']\<rparr>,
      \<lparr>col_Kind = HistogramVec, col_Name = reconcileDurationSeconds,
       col_Help = ''BucketClaim reconcile duration in seconds.'', col_Labels = [''bucketclass'']\<rparr>,
      \<lparr>col_Kind = CounterVec, col_Name = bucketsBoundTotal,
       col_Help = ''Total number of BucketClaims successfully bound.'', col_Labels = [''bucketclass'']\<rparr>]"

definition inc_total :: "string \<Rightarrow> (('h, 'w) op_state, unit) state" where
  "inc_total result = inc reconcileTotal result"

definition inc_error :: "string \<Rightarrow> (('h, 'w) op_state, unit) state" where
  "inc_error stage = inc reconcileErrorsTotal stage"

text \<open>A failed stage counts once by its stage and once in the total.\<close>

definition count_failure :: "string \<Rightarrow> (('h, 'w) op_state, unit) state" where
  "count_failure stage = do { _ \<leftarrow> inc_error stage; inc_total ''error'' }"

section \<open>Status\<close>

definition trimConditionMessage :: "string \<Rightarrow> string" where
  "trimConditionMessage msg =
     (let rs = runes msg in
      if length rs \<le> maxConditionMessageRunes then msg
      else string_of_runes (take maxConditionMessageRunes rs) @ [chr 0xE2, chr 0x80, chr 0xA6])"

definition ready_condition :: "string \<Rightarrow> int \<Rightarrow> string \<Rightarrow> string \<Rightarrow> Condition" where
  "ready_condition status generation reason message =
     \<lparr>cond_Type = claimConditionReady, cond_Status = status, cond_ObservedGeneration = generation,
      cond_Reason = reason, cond_Message = message\<rparr>"

definition set_claim_status ::
  "'w kube \<Rightarrow> string \<Rightarrow> bool \<Rightarrow> string \<Rightarrow> string \<Rightarrow> string \<Rightarrow> BucketClaim \<Rightarrow> BucketClaim" where
  "set_claim_status k phase ready status reason message c =
     c\<lparr>claim_Status := (claim_Status c)\<lparr>status_Phase := phase, status_BucketReady := ready,
        status_Conditions := k_SetStatusCondition k (status_Conditions (claim_Status c))
          (ready_condition status (meta_Generation (claim_Meta c)) reason message)\<rparr>\<rparr>"

text \<open>\<^verbatim>\<open>meta.IsStatusConditionTrue(..., Ready) && Phase == "Bound"\<close>.\<close>

definition is_bound :: "'w kube \<Rightarrow> BucketClaim \<Rightarrow> bool" where
  "is_bound k c \<longleftrightarrow>
     k_IsStatusConditionTrue k (status_Conditions (claim_Status c)) claimConditionReady \<and>
     status_Phase (claim_Status c) = ''Bound''"

definition mergeClaimStatus ::
  "'w kube \<Rightarrow> string \<Rightarrow> string \<Rightarrow> (BucketClaim \<Rightarrow> BucketClaim) \<Rightarrow> (('h, 'w) op_state, go_error option) state"
  where
  "mergeClaimStatus k ns n mutate =
     val_or_err (in_world (k_GetClaim k ns n)) Some
       (\<lambda>c. if meta_DeletionTimestamp (claim_Meta c) \<noteq> None then ret None
            else if is_bound k c then ret None
            else val_or_err (in_world (k_UpdateClaimStatus k (mutate c))) Some (\<lambda>_. ret None))"

definition noteClaimProvisioning ::
  "'w kube \<Rightarrow> string \<Rightarrow> string \<Rightarrow> string \<Rightarrow> (('h, 'w) op_state, unit) state" where
  "noteClaimProvisioning k ns n message =
     discard (mergeClaimStatus k ns n
       (set_claim_status k ''Pending'' False ''False'' claimReasonProvisioning (trimConditionMessage message)))"

definition noteClaimNotReady ::
  "'w kube \<Rightarrow> string \<Rightarrow> string \<Rightarrow> string \<Rightarrow> string \<Rightarrow> (('h, 'w) op_state, unit) state" where
  "noteClaimNotReady k ns n reason message =
     discard (mergeClaimStatus k ns n
       (set_claim_status k ''Failed'' False ''False'' reason (trimConditionMessage message)))"

section \<open>The COSI Bucket object\<close>

definition cosi_bucket_spec :: "BucketClaim \<Rightarrow> BucketClass \<Rightarrow> json" where
  "cosi_bucket_spec claim cls =
     (let protocols = (if spec_Protocols (claim_Spec claim) = [] then [''S3'']
                       else spec_Protocols (claim_Spec claim))
      in JObj
        ([(''bucketClaim'', JObj
            [(''apiVersion'', JStr ''objectstorage.k8s.io/v1alpha1''), (''kind'', JStr ''BucketClaim''),
             (''name'', JStr (claim_Name claim)), (''namespace'', JStr (claim_Namespace claim))]),
          (''bucketClassName'', JStr (spec_BucketClassName (claim_Spec claim))),
          (''driverName'', JStr (class_DriverName cls)),
          (''deletionPolicy'', JStr (class_DeletionPolicy cls)),
          (''protocols'', JArr (map JStr protocols))] @
         (if class_Parameters cls \<noteq> []
          then [(''parameters'', JObj (map (\<lambda>(k, v). (k, JStr v)) (class_Parameters cls)))] else [])))"

definition cosi_bucket_status :: "string \<Rightarrow> json" where
  "cosi_bucket_status bucketName = JObj [(''bucketReady'', JBool True), (''bucketID'', JStr bucketName)]"

definition new_unstructured :: "string \<Rightarrow> string \<Rightarrow> string \<Rightarrow> Unstructured" where
  "new_unstructured kind ns n =
     \<lparr>u_Kind = kind, u_Meta = zero_meta\<lparr>meta_Namespace := ns, meta_Name := n\<rparr>, u_Object = []\<rparr>"

definition ensureCosiBucket ::
  "'w kube \<Rightarrow> BucketClaim \<Rightarrow> BucketClass \<Rightarrow> (('h, 'w) op_state, go_error option) state" where
  "ensureCosiBucket k claim cls =
     (let bucketName = trim_space (status_BucketName (claim_Status claim)) in
      if bucketName = '''' then ret None
      else do {
        r \<leftarrow> in_world (k_GetUnstructured k ''Bucket'' '''' bucketName);
        case r of
          Inl err \<Rightarrow>
            if is_not_found err
            then in_world (k_CreateUnstructured k ((new_unstructured ''Bucket'' '''' bucketName)\<lparr>u_Object :=
                   [(''spec'', cosi_bucket_spec claim cls), (''status'', cosi_bucket_status bucketName)]\<rparr>))
            else ret (Some err)
        | Inr bu \<Rightarrow>
            in_world (k_UpdateUnstructuredStatus k
              (bu\<lparr>u_Object := AList.update ''status'' (cosi_bucket_status bucketName) (u_Object bu)\<rparr>))
      })"

section \<open>Finalization\<close>

text \<open>Resolver errors after which the backend's cleanup is skipped.\<close>

definition skip_finalization :: "go_error \<Rightarrow> bool" where
  "skip_finalization err \<longleftrightarrow>
     contains (err_text err) ''unsupported backend'' \<or>
     contains (err_text err) ''awsCredentialSecretRef'' \<or>
     contains (err_text err) ''invalid AWS credential secret'' \<or>
     is_not_implemented err"

definition finalizer_access_key :: "'w kube \<Rightarrow> BucketClaim \<Rightarrow> (('h, 'w) op_state, string) state" where
  "finalizer_access_key k claim =
     (case status_SecretReference (claim_Status claim) of
        None \<Rightarrow> ret ''''
      | Some ref \<Rightarrow> do {
          r \<leftarrow> in_world (k_GetSecret k (oref_Namespace ref) (oref_Name ref));
          ret (case r of Inl _ \<Rightarrow> '''' | Inr secret \<Rightarrow> trim_space (smap_get (secret_Data secret) ''accessKeyID''))
        })"

definition finalizeBucketClaim ::
  "('c, 'h, 'w) claim_reconciler \<Rightarrow> BucketClaim \<Rightarrow> (('h, 'w) op_state, go_error option) state" where
  "finalizeBucketClaim r claim =
     val_or_err (in_world (k_GetClass (cr_kube r) (spec_BucketClassName (claim_Spec claim))))
       (\<lambda>err. if is_not_found err then None else Some err)
       (\<lambda>cls.
          val_or_err (ProviderForClass (cr_resolver r) (Some cls))
            (\<lambda>err. if skip_finalization err then None
                   else Some (ErrWrap ''storage provider for finalization: '' err ''''))
            (\<lambda>mc. do {
               accessKey \<leftarrow> finalizer_access_key (cr_kube r) claim;
               in_world (RevokeAccessAndMaybeDeleteBucket mc claim cls accessKey)
             }))"

section \<open>Deletion and the finalizer\<close>

definition reconcile_deleted ::
  "('c, 'h, 'w) claim_reconciler \<Rightarrow> BucketClaim \<Rightarrow> (('h, 'w) op_state, ctrl_result) state" where
  "reconcile_deleted r claim =
     (let k = cr_kube r; done = (do { _ \<leftarrow> inc_total ''deleted''; ret Done }) in
      if k_ContainsFinalizer k (meta_Finalizers (claim_Meta claim)) bucketClaimFinalizer then do {
        f \<leftarrow> finalizeBucketClaim r claim;
        case f of
          Some err \<Rightarrow> do { _ \<leftarrow> count_failure ''finalize''; ret (Failed err) }
        | None \<Rightarrow> do {
            u \<leftarrow> in_world (k_UpdateClaim k (claim\<lparr>claim_Meta := (claim_Meta claim)\<lparr>meta_Finalizers :=
                   k_RemoveFinalizer k (meta_Finalizers (claim_Meta claim)) bucketClaimFinalizer\<rparr>\<rparr>));
            case u of
              Inl err \<Rightarrow> do { _ \<leftarrow> count_failure ''remove_finalizer''; ret (Failed err) }
            | Inr _ \<Rightarrow> done
          }
      }
      else done)"

definition ensure_claim_finalizer ::
  "'w kube \<Rightarrow> BucketClaim \<Rightarrow> (('h, 'w) op_state, go_error + BucketClaim) state" where
  "ensure_claim_finalizer k claim =
     (if k_ContainsFinalizer k (meta_Finalizers (claim_Meta claim)) bucketClaimFinalizer then ret (Inr claim)
      else do {
        u \<leftarrow> in_world (k_UpdateClaim k (claim\<lparr>claim_Meta := (claim_Meta claim)\<lparr>meta_Finalizers :=
               k_AddFinalizer k (meta_Finalizers (claim_Meta claim)) bucketClaimFinalizer\<rparr>\<rparr>));
        case u of
          Inl err \<Rightarrow> do { _ \<leftarrow> count_failure ''add_finalizer''; ret (Inl err) }
        | Inr claim' \<Rightarrow> ret (Inr claim')
      })"

text \<open>Whether the claim was already provisioned for this generation.\<close>

definition already_bound :: "BucketClaim \<Rightarrow> bool" where
  "already_bound claim \<longleftrightarrow>
     (case find (\<lambda>c. cond_Type c = claimConditionReady) (status_Conditions (claim_Status claim)) of
        None \<Rightarrow> False
      | Some readyCond \<Rightarrow>
          cond_Status readyCond = ''True'' \<and> status_Phase (claim_Status claim) = ''Bound'' \<and>
          cond_ObservedGeneration readyCond = meta_Generation (claim_Meta claim))"

section \<open>Failures on the way\<close>

definition class_lookup_failed ::
  "'w kube \<Rightarrow> string \<Rightarrow> string \<Rightarrow> BucketClaim \<Rightarrow> go_error \<Rightarrow> (('h, 'w) op_state, ctrl_result) state" where
  "class_lookup_failed k ns n claim err = do {
     _ \<leftarrow> count_failure ''get_bucketclass'';
     if is_not_found err then do {
       _ \<leftarrow> noteClaimProvisioning k ns n
              (''BucketClass '' @ quote (spec_BucketClassName (claim_Spec claim)) @ '' not found; retrying'');
       ret (RequeueAfter 10)
     }
     else do {
       _ \<leftarrow> noteClaimNotReady k ns n claimReasonBucketClassLookupFail (err_text err);
       ret (Failed err)
     }
   }"

definition resolve_failed ::
  "'w kube \<Rightarrow> string \<Rightarrow> string \<Rightarrow> BucketClass \<Rightarrow> go_error \<Rightarrow> (('h, 'w) op_state, ctrl_result) state" where
  "resolve_failed k ns n cls err = do {
     _ \<leftarrow> count_failure ''minio_credentials'';
     if is_not_found err then
       (if equal_fold (trim_space (class_Backend cls)) ''AWS'' then do {
          _ \<leftarrow> noteClaimProvisioning k ns n
                 (''AWS credentials secret not found for BucketClass '' @ quote (class_Name cls) @ ''; retrying'');
          ret (RequeueAfter 10)
        }
        else do {
          _ \<leftarrow> noteClaimProvisioning k ns n
                 (''MinIO credentials secret not found for BucketClass '' @ quote (class_Name cls) @ ''; retrying'');
          ret (RequeueAfter 10)
        })
     else if contains (err_text err) ''unsupported backend'' then do {
       _ \<leftarrow> noteClaimNotReady k ns n claimReasonUnsupportedBackend (err_text err);
       ret Done
     }
     else if contains (err_text err) ''awsCredentialSecretRef'' \<or>
             contains (err_text err) ''invalid AWS credential secret'' then do {
       _ \<leftarrow> noteClaimNotReady k ns n claimReasonAwsCredentialSecretInvalid (err_text err);
       ret Done
     }
     else if is_not_implemented err then do {
       _ \<leftarrow> noteClaimNotReady k ns n claimReasonUnsupportedBackend (err_text err);
       ret Done
     }
     else do {
       _ \<leftarrow> noteClaimNotReady k ns n claimReasonMinioCredentialSecretInvalid (err_text err);
       ret (Failed err)
     }
   }"

text \<open>The metric stage and the condition reason of an operation; a revocation selects the defaults.\<close>

fun failure_stage :: "ProvisioningOperation \<Rightarrow> string" where
  "failure_stage OpCreateBucket = ''create_bucket''"
| "failure_stage OpConfigureBucket = ''configure_bucket''"
| "failure_stage OpSetQuota = ''set_quota''"
| "failure_stage OpSetLifecycle = ''set_lifecycle''"
| "failure_stage OpGrantAccess = ''grant_access''"
| "failure_stage OpRevokeAccess = ''provisioning''"

fun failure_reason :: "ProvisioningOperation \<Rightarrow> string" where
  "failure_reason OpCreateBucket = claimReasonCreateBucketFailed"
| "failure_reason OpGrantAccess = claimReasonGrantAccessFailed"
| "failure_reason _ = claimReasonConfigureBucketFailed"

definition transient_message :: "ProvisioningOperation option \<Rightarrow> string \<Rightarrow> string \<Rightarrow> go_error \<Rightarrow> string" where
  "transient_message op stage bucketName err =
     (let tail = ''; retrying: '' @ err_text err; b = quote bucketName in
      case op of
        Some OpCreateBucket \<Rightarrow> ''Transient MinIO error creating bucket '' @ b @ tail
      | Some OpSetQuota \<Rightarrow> ''Transient MinIO error setting quota for bucket '' @ b @ tail
      | Some OpSetLifecycle \<Rightarrow> ''Transient MinIO error setting lifecycle for bucket '' @ b @ tail
      | Some OpGrantAccess \<Rightarrow> ''Transient MinIO error granting access for bucket '' @ b @ tail
      | _ \<Rightarrow> ''Transient MinIO error during '' @ stage @ ''; bucket='' @ b @ tail)"

definition provisioning_failed ::
  "'w kube \<Rightarrow> string \<Rightarrow> string \<Rightarrow> go_error \<Rightarrow> (('h, 'w) op_state, ctrl_result) state" where
  "provisioning_failed k ns n err =
     (let pErr = errors_as provisioning_of err;
          (stage, reason, bucketName) =
            (case pErr of
               None \<Rightarrow> (''provisioning'', claimReasonConfigureBucketFailed, '''')
             | Some (op, b, _) \<Rightarrow> (failure_stage op, failure_reason op, b))
      in do {
        _ \<leftarrow> count_failure stage;
        if IsTransientMinioError (Some err) then do {
          _ \<leftarrow> noteClaimProvisioning k ns n (transient_message (map_option fst pErr) stage bucketName err);
          ret (RequeueAfter 15)
        }
        else do {
          _ \<leftarrow> noteClaimNotReady k ns n reason (err_text err);
          ret (Failed err)
        }
      })"

section \<open>Provisioning a claim\<close>

definition credentials_secret_name :: "BucketClaim \<Rightarrow> string" where
  "credentials_secret_name claim = claim_Name claim @ ''-credentials''"

text \<open>The keys of the claim's Secret; any error of the read counts as none.\<close>

definition existing_keys :: "'w kube \<Rightarrow> BucketClaim \<Rightarrow> (('h, 'w) op_state, string \<times> string) state" where
  "existing_keys k claim = do {
     r \<leftarrow> in_world (k_GetSecret k (claim_Namespace claim) (credentials_secret_name claim));
     ret (case r of
            Inl _ \<Rightarrow> ('''', '''')
          | Inr s \<Rightarrow> (trim_space (smap_get (secret_Data s) ''accessKeyID''),
                     trim_space (smap_get (secret_Data s) ''accessSecretKey'')))
   }"

definition fill_secret :: "'w kube \<Rightarrow> BucketClaim \<Rightarrow> AccessCredentials \<Rightarrow> Secret \<Rightarrow> go_error + Secret" where
  "fill_secret k claim creds secret =
     k_SetControllerReference k (claim_Meta claim)
       (secret\<lparr>secret_StringData :=
          AList.update ''endpoint'' (cred_Endpoint creds)
         (AList.update ''bucketName'' (cred_BucketName creds)
         (AList.update ''accessSecretKey'' (cred_AccessSecretKey creds)
         (AList.update ''accessKeyID'' (cred_AccessKeyID creds) (secret_StringData secret))))\<rparr>)"

definition write_secret ::
  "'w kube \<Rightarrow> BucketClaim \<Rightarrow> AccessCredentials \<Rightarrow> (('h, 'w) op_state, go_error + Secret) state" where
  "write_secret k claim creds =
     in_world (k_CreateOrUpdateSecret k (claim_Namespace claim) (credentials_secret_name claim)
       (fill_secret k claim creds))"

text \<open>The claim as the last stage writes it.\<close>

definition bound_claim :: "'w kube \<Rightarrow> AccessCredentials \<Rightarrow> Secret \<Rightarrow> BucketClaim \<Rightarrow> BucketClaim" where
  "bound_claim k creds secret c =
     set_claim_status k ''Bound'' True ''True'' claimReasonBucketProvisioned
       (''Bucket '' @ quote (cred_BucketName creds) @ '' is provisioned and credentials are available.'')
       (c\<lparr>claim_Status := (claim_Status c)\<lparr>status_BucketName := cred_BucketName creds,
            status_Endpoint := cred_Endpoint creds,
            status_SecretReference :=
              Some \<lparr>oref_Name = secret_Name secret, oref_Namespace = secret_Namespace secret\<rparr>\<rparr>\<rparr>)"

definition bind_claim ::
  "('c, 'h, 'w) claim_reconciler \<Rightarrow> string \<Rightarrow> string \<Rightarrow> BucketClass \<Rightarrow> AccessCredentials \<Rightarrow> Secret \<Rightarrow>
     (('h, 'w) op_state, ctrl_result) state" where
  "bind_claim r ns n cls creds secret =
     (let k = cr_kube r;
          success = (do { _ \<leftarrow> inc bucketsBoundTotal (class_Name cls);
                          _ \<leftarrow> inc_total ''success''; ret Done })
      in do {
        g \<leftarrow> in_world (k_GetClaim k ns n);
        case g of
          Inl err \<Rightarrow> do { _ \<leftarrow> count_failure ''update_status''; ret (Failed err) }
        | Inr claim \<Rightarrow> do {
            u \<leftarrow> in_world (k_UpdateClaimStatus k (bound_claim k creds secret claim));
            case u of
              Inl err \<Rightarrow> do { _ \<leftarrow> count_failure ''update_status''; ret (Failed err) }
            | Inr claim' \<Rightarrow>
                if cr_EnableCOSI r then do {
                  e \<leftarrow> ensureCosiBucket k claim' cls;
                  case e of
                    Some err \<Rightarrow> do { _ \<leftarrow> count_failure ''reconcile_cosi_bucket''; ret (Failed err) }
                  | None \<Rightarrow> success
                }
                else success
          }
      })"

definition reconcile_provision ::
  "('c, 'h, 'w) claim_reconciler \<Rightarrow> string \<Rightarrow> string \<Rightarrow> BucketClaim \<Rightarrow> BucketClass \<Rightarrow> 'w Provider \<Rightarrow>
     (('h, 'w) op_state, ctrl_result) state" where
  "reconcile_provision r ns n claim cls mc =
     (let k = cr_kube r in do {
        _ \<leftarrow> (if \<not> is_bound k claim
              then noteClaimProvisioning k ns n ''Provisioning bucket and access credentials'' else ret ());
        keys \<leftarrow> existing_keys k claim;
        p \<leftarrow> in_world (ProvisionBucketAndGrantAccess mc claim cls (fst keys) (snd keys));
        case p of
          Inl err \<Rightarrow> provisioning_failed k ns n err
        | Inr creds \<Rightarrow> do {
            w \<leftarrow> write_secret k claim creds;
            case w of
              Inl err \<Rightarrow> do {
                _ \<leftarrow> count_failure ''reconcile_secret'';
                _ \<leftarrow> noteClaimNotReady k ns n claimReasonReconcileSecretFailed (err_text err);
                ret (Failed err)
              }
            | Inr secret \<Rightarrow> bind_claim r ns n cls creds secret
          }
      })"

definition reconcile_with_class ::
  "('c, 'h, 'w) claim_reconciler \<Rightarrow> string \<Rightarrow> string \<Rightarrow> BucketClaim \<Rightarrow> BucketClass \<Rightarrow>
     (('h, 'w) op_state, ctrl_result) state" where
  "reconcile_with_class r ns n claim cls =
     (let k = cr_kube r in
      if class_DriverName cls \<noteq> operator_driver then do {
        _ \<leftarrow> inc_total ''ignored_driver'';
        _ \<leftarrow> noteClaimNotReady k ns n claimReasonUnsupportedDriver
               (''BucketClass driverName '' @ quote (class_DriverName cls) @
                '' is not handled by this operator (expected k8s-s3-bucket-operator)'');
        ret Done
      }
      else do {
        p \<leftarrow> ProviderForClass (cr_resolver r) (Some cls);
        case p of
          Inl err \<Rightarrow> resolve_failed k ns n cls err
        | Inr mc \<Rightarrow> reconcile_provision r ns n claim cls mc
      })"

section \<open>Reconcile\<close>

text \<open>The body yields the class name under which the deferred function observes the duration.\<close>

definition reconcile_body ::
  "('c, 'h, 'w) claim_reconciler \<Rightarrow> string \<Rightarrow> string \<Rightarrow> (('h, 'w) op_state, string \<times> ctrl_result) state" where
  "reconcile_body r ns n =
     (let k = cr_kube r; unknown = (\<lambda>m. do { x \<leftarrow> m; ret (''unknown'', x) }) in do {
        g \<leftarrow> in_world (k_GetClaim k ns n);
        case g of
          Inl err \<Rightarrow>
            unknown (if is_not_found err then do { _ \<leftarrow> inc_total ''not_found''; ret Done }
                     else do { _ \<leftarrow> count_failure ''get_claim''; ret (Failed err) })
        | Inr claim \<Rightarrow>
            if meta_DeletionTimestamp (claim_Meta claim) \<noteq> None then unknown (reconcile_deleted r claim)
            else do {
              f \<leftarrow> ensure_claim_finalizer k claim;
              case f of
                Inl err \<Rightarrow> ret (''unknown'', Failed err)
              | Inr claim' \<Rightarrow>
                  if already_bound claim' then ret (''unknown'', Done)
                  else do {
                    c \<leftarrow> in_world (k_GetClass k (spec_BucketClassName (claim_Spec claim')));
                    case c of
                      Inl err \<Rightarrow> unknown (class_lookup_failed k ns n claim' err)
                    | Inr cls \<Rightarrow> do {
                        x \<leftarrow> reconcile_with_class r ns n claim' cls;
                        ret (class_Name cls, x)
                      }
                  }
            }
      })"

definition Reconcile ::
  "('c, 'h, 'w) claim_reconciler \<Rightarrow> string \<Rightarrow> string \<Rightarrow> (('h, 'w) op_state, ctrl_result) state" where
  "Reconcile r ns n = do {
     x \<leftarrow> reconcile_body r ns n;
     _ \<leftarrow> inc reconcileDurationSeconds (fst x);
     ret (snd x)
   }"

section \<open>What the properties assume of Kubernetes\<close>

text \<open>
  \<open>condition_laws\<close>: after \<^verbatim>\<open>SetStatusCondition\<close> the condition of its type is the one set, the others are
  as before, and \<^verbatim>\<open>IsStatusConditionTrue\<close> reads the conditions so.
\<close>

definition condition_laws :: "'w kube \<Rightarrow> bool" where
  "condition_laws k \<longleftrightarrow>
     (\<forall>cs c. find (\<lambda>d. cond_Type d = cond_Type c) (k_SetStatusCondition k cs c) = Some c) \<and>
     (\<forall>cs t. k_IsStatusConditionTrue k cs t \<longleftrightarrow>
        (\<exists>c. find (\<lambda>d. cond_Type d = t) cs = Some c \<and> cond_Status c = ''True''))"

text \<open>What a claim's status promises its readers.\<close>

definition consistent :: "'w kube \<Rightarrow> BucketClaim \<Rightarrow> bool" where
  "consistent k c \<longleftrightarrow>
     (let s = claim_Status c; bound = (status_Phase s = ''Bound'') in
      status_BucketReady s = bound \<and>
      k_IsStatusConditionTrue k (status_Conditions s) claimConditionReady = bound \<and>
      (bound \<longrightarrow> status_BucketName s \<noteq> '''' \<and> status_Endpoint s \<noteq> '''' \<and> status_SecretReference s \<noteq> None))"

definition provider_keeps :: "('w \<Rightarrow> bool) \<Rightarrow> 'w Provider \<Rightarrow> bool" where
  "provider_keeps I p \<longleftrightarrow>
     (\<forall>b reg l. keeps I (CreateBucket p b reg l) (\<lambda>_. True)) \<and>
     (\<forall>b q. keeps I (SetBucketQuota p b q) (\<lambda>_. True)) \<and>
     (\<forall>b rs. keeps I (SetBucketLifecycle p b rs) (\<lambda>_. True)) \<and>
     (\<forall>b rs. keeps I (SetBucketReplication p b rs) (\<lambda>_. True)) \<and>
     (\<forall>b a t k s. keeps I (GrantAccess p b a t k s) (\<lambda>_. True)) \<and>
     (\<forall>b a k. keeps I (RevokeAccess p b a k) (\<lambda>_. True)) \<and>
     (\<forall>b. keeps I (DeleteBucket p b) (\<lambda>_. True)) \<and>
     (\<forall>f b ps. ConfigureBucketSecurity p = Some f \<longrightarrow> keeps I (f b ps) (\<lambda>_. True))"

text \<open>
  What the objects written may be: \<open>W\<close> survives the changes the operator makes to an object it has read, and
  holds of the Bucket object it creates for a class with \<open>C\<close>.
\<close>

definition object_laws :: "(Unstructured \<Rightarrow> bool) \<Rightarrow> (BucketClass \<Rightarrow> bool) \<Rightarrow> bool" where
  "object_laws W C \<longleftrightarrow>
     (\<forall>u m. W u \<longrightarrow> W (u\<lparr>u_Meta := m\<rparr>)) \<and>
     (\<forall>u st. W u \<longrightarrow> W (u\<lparr>u_Object := AList.update ''status'' st (u_Object u)\<rparr>)) \<and>
     (\<forall>claim cls b. C cls \<longrightarrow> W ((new_unstructured ''Bucket'' '''' b)\<lparr>u_Object :=
        [(''spec'', cosi_bucket_spec claim cls), (''status'', cosi_bucket_status b)]\<rparr>))"

text \<open>
  \<open>claim_store W C k I\<close>: while \<open>I\<close> holds every claim read is consistent, every class read has \<open>C\<close> and every
  other object \<open>W\<close>, and \<open>I\<close> survives every call but a write of a claim that is not consistent or of an
  object without \<open>W\<close>. With \<open>I\<close> saying that all claims, classes and objects of the cluster are so, this is
  what a store of objects does.
\<close>

definition claim_store ::
  "(Unstructured \<Rightarrow> bool) \<Rightarrow> (BucketClass \<Rightarrow> bool) \<Rightarrow> 'w kube \<Rightarrow> ('w \<Rightarrow> bool) \<Rightarrow> bool" where
  "claim_store W C k I \<longleftrightarrow> object_laws W C \<and>
     (\<forall>ns n. keeps I (k_GetClaim k ns n) (\<lambda>r. \<forall>c. r = Inr c \<longrightarrow> consistent k c)) \<and>
     (\<forall>c. consistent k c \<longrightarrow> keeps I (k_UpdateClaim k c) (\<lambda>r. \<forall>c. r = Inr c \<longrightarrow> consistent k c)) \<and>
     (\<forall>c. consistent k c \<longrightarrow> keeps I (k_UpdateClaimStatus k c) (\<lambda>r. \<forall>c. r = Inr c \<longrightarrow> consistent k c)) \<and>
     (\<forall>n. keeps I (k_GetClass k n) (\<lambda>r. \<forall>cls. r = Inr cls \<longrightarrow> C cls)) \<and>
     (\<forall>ns n. keeps I (k_GetSecret k ns n) (\<lambda>_. True)) \<and>
     (\<forall>ns n. keeps I (k_GetConfigMap k ns n) (\<lambda>_. True)) \<and>
     (\<forall>kind ns n. keeps I (k_GetUnstructured k kind ns n) (\<lambda>r. \<forall>u. r = Inr u \<longrightarrow> W u)) \<and>
     (\<forall>u. W u \<longrightarrow> keeps I (k_CreateUnstructured k u) (\<lambda>_. True)) \<and>
     (\<forall>u. W u \<longrightarrow> keeps I (k_UpdateUnstructuredStatus k u) (\<lambda>_. True)) \<and>
     (\<forall>ns n f. keeps I (k_CreateOrUpdateSecret k ns n f) (\<lambda>_. True))"

lemma provider_keepsD:
  assumes "provider_keeps I p"
  shows "keeps I (CreateBucket p b reg l) (\<lambda>_. True)" "keeps I (SetBucketQuota p b q) (\<lambda>_. True)"
    "keeps I (SetBucketLifecycle p b rs) (\<lambda>_. True)" "keeps I (SetBucketReplication p b rs') (\<lambda>_. True)"
    "keeps I (GrantAccess p b a t k s) (\<lambda>_. True)" "keeps I (RevokeAccess p b a k) (\<lambda>_. True)"
    "keeps I (DeleteBucket p b) (\<lambda>_. True)"
    "ConfigureBucketSecurity p = Some f \<Longrightarrow> keeps I (f b ps) (\<lambda>_. True)"
  using assms by (simp_all add: provider_keeps_def)

lemma claim_storeD:
  assumes "claim_store W C k I"
  shows "keeps I (k_GetClaim k ns n) (\<lambda>r. \<forall>c. r = Inr c \<longrightarrow> consistent k c)"
    "consistent k c \<Longrightarrow> keeps I (k_UpdateClaim k c) (\<lambda>r. \<forall>c. r = Inr c \<longrightarrow> consistent k c)"
    "consistent k c \<Longrightarrow> keeps I (k_UpdateClaimStatus k c) (\<lambda>r. \<forall>c. r = Inr c \<longrightarrow> consistent k c)"
    "keeps I (k_GetClass k n) (\<lambda>r. \<forall>cls. r = Inr cls \<longrightarrow> C cls)" "keeps I (k_GetSecret k ns n) (\<lambda>_. True)"
    "keeps I (k_GetConfigMap k ns n) (\<lambda>_. True)"
    "keeps I (k_GetUnstructured k kind ns n) (\<lambda>r. \<forall>u. r = Inr u \<longrightarrow> W u)"
    "W u \<Longrightarrow> keeps I (k_CreateUnstructured k u) (\<lambda>_. True)"
    "W u \<Longrightarrow> keeps I (k_UpdateUnstructuredStatus k u) (\<lambda>_. True)"
    "keeps I (k_CreateOrUpdateSecret k ns n f) (\<lambda>_. True)"
  using assms by (simp_all add: claim_store_def)

lemma claim_store_objects:
  assumes "claim_store W C k I"
  shows "W u \<Longrightarrow> W (u\<lparr>u_Meta := m\<rparr>)" "W u \<Longrightarrow> W (u\<lparr>u_Object := AList.update ''status'' st (u_Object u)\<rparr>)"
    "C cls \<Longrightarrow> W ((new_unstructured ''Bucket'' '''' b)\<lparr>u_Object :=
       [(''spec'', cosi_bucket_spec claim cls), (''status'', cosi_bucket_status b)]\<rparr>)"
  using assms by (simp_all add: claim_store_def object_laws_def)

section \<open>Lemmas: the calls of the backends\<close>

text \<open>An invariant that every single call of an SDK keeps.\<close>

definition minio_calls_keep :: "('w \<Rightarrow> bool) \<Rightarrow> ('h, 'w) minio_sdk \<Rightarrow> bool" where
  "minio_calls_keep I sdk \<longleftrightarrow>
     (\<forall>h b. keeps I (mg_BucketExists sdk h b) (\<lambda>_. True)) \<and>
     (\<forall>h b r l. keeps I (mg_MakeBucket sdk h b r l) (\<lambda>_. True)) \<and>
     (\<forall>h b. keeps I (mg_RemoveBucket sdk h b) (\<lambda>_. True)) \<and>
     (\<forall>h b rs. keeps I (mg_SetBucketLifecycle sdk h b rs) (\<lambda>_. True)) \<and>
     (\<forall>h b rs. keeps I (mg_SetBucketReplication sdk h b rs) (\<lambda>_. True)) \<and>
     (\<forall>h b q. keeps I (ma_SetBucketQuota sdk h b q) (\<lambda>_. True)) \<and>
     (\<forall>h u s. keeps I (ma_AddUser sdk h u s) (\<lambda>_. True)) \<and>
     (\<forall>h n p. keeps I (ma_AddCannedPolicy sdk h n p) (\<lambda>_. True)) \<and>
     (\<forall>h n u g. keeps I (ma_SetPolicy sdk h n u g) (\<lambda>_. True)) \<and>
     (\<forall>h u. keeps I (ma_RemoveUser sdk h u) (\<lambda>_. True)) \<and>
     (\<forall>h n. keeps I (ma_RemoveCannedPolicy sdk h n) (\<lambda>_. True))"

lemma minio_calls_keepD:
  assumes "minio_calls_keep I sdk"
  shows "keeps I (mg_BucketExists sdk h1 b1) (\<lambda>_. True)"
    "keeps I (mg_MakeBucket sdk h2 b2 r2 l2) (\<lambda>_. True)"
    "keeps I (mg_RemoveBucket sdk h3 b3) (\<lambda>_. True)"
    "keeps I (mg_SetBucketLifecycle sdk h4 b4 rs4) (\<lambda>_. True)"
    "keeps I (mg_SetBucketReplication sdk h5 b5 rs5) (\<lambda>_. True)"
    "keeps I (ma_SetBucketQuota sdk h6 b6 q6) (\<lambda>_. True)"
    "keeps I (ma_AddUser sdk h7 u7 s7) (\<lambda>_. True)"
    "keeps I (ma_AddCannedPolicy sdk h8 n8 p8) (\<lambda>_. True)"
    "keeps I (ma_SetPolicy sdk h9 n9 u9 g9) (\<lambda>_. True)"
    "keeps I (ma_RemoveUser sdk h10 u10) (\<lambda>_. True)"
    "keeps I (ma_RemoveCannedPolicy sdk h11 n11) (\<lambda>_. True)"
  using assms by (simp_all add: minio_calls_keep_def)

definition aws_calls_keep :: "('w \<Rightarrow> bool) \<Rightarrow> ('c, 'h, 'w) aws_sdk \<Rightarrow> bool" where
  "aws_calls_keep I sdk \<longleftrightarrow>
     (\<forall>h i. keeps I (s3_CreateBucket sdk h i) (\<lambda>_. True)) \<and>
     (\<forall>h b. keeps I (s3_DeleteBucket sdk h b) (\<lambda>_. True)) \<and>
     (\<forall>h b rs. keeps I (s3_PutBucketLifecycleConfiguration sdk h b rs) (\<lambda>_. True)) \<and>
     (\<forall>h b c. keeps I (s3_PutPublicAccessBlock sdk h b c) (\<lambda>_. True)) \<and>
     (\<forall>h b os. keeps I (s3_PutBucketOwnershipControls sdk h b os) (\<lambda>_. True)) \<and>
     (\<forall>h b es. keeps I (s3_PutBucketEncryption sdk h b es) (\<lambda>_. True)) \<and>
     (\<forall>h b p. keeps I (s3_PutBucketPolicy sdk h b p) (\<lambda>_. True)) \<and>
     (\<forall>h u. keeps I (iam_CreateUser sdk h u) (\<lambda>_. True)) \<and>
     (\<forall>h u. keeps I (iam_DeleteUser sdk h u) (\<lambda>_. True)) \<and>
     (\<forall>h u. keeps I (iam_CreateAccessKey sdk h u) (\<lambda>_. True)) \<and>
     (\<forall>h u k. keeps I (iam_DeleteAccessKey sdk h u k) (\<lambda>_. True)) \<and>
     (\<forall>h u. keeps I (iam_ListAccessKeys sdk h u) (\<lambda>_. True)) \<and>
     (\<forall>h u n p. keeps I (iam_PutUserPolicy sdk h u n p) (\<lambda>_. True)) \<and>
     (\<forall>h u n. keeps I (iam_DeleteUserPolicy sdk h u n) (\<lambda>_. True))"

lemma aws_calls_keepD:
  assumes "aws_calls_keep I sdk"
  shows "keeps I (s3_CreateBucket sdk h1 i1) (\<lambda>_. True)"
    "keeps I (s3_DeleteBucket sdk h2 b2) (\<lambda>_. True)"
    "keeps I (s3_PutBucketLifecycleConfiguration sdk h3 b3 rs3) (\<lambda>_. True)"
    "keeps I (s3_PutPublicAccessBlock sdk h4 b4 c4) (\<lambda>_. True)"
    "keeps I (s3_PutBucketOwnershipControls sdk h5 b5 os5) (\<lambda>_. True)"
    "keeps I (s3_PutBucketEncryption sdk h6 b6 es6) (\<lambda>_. True)"
    "keeps I (s3_PutBucketPolicy sdk h7 b7 p7) (\<lambda>_. True)"
    "keeps I (iam_CreateUser sdk h8 u8) (\<lambda>_. True)"
    "keeps I (iam_DeleteUser sdk h9 u9) (\<lambda>_. True)"
    "keeps I (iam_CreateAccessKey sdk h10 u10) (\<lambda>_. True)"
    "keeps I (iam_DeleteAccessKey sdk h11 u11 k11) (\<lambda>_. True)"
    "keeps I (iam_ListAccessKeys sdk h12 u12) (\<lambda>_. True)"
    "keeps I (iam_PutUserPolicy sdk h13 u13 n13 p13) (\<lambda>_. True)"
    "keeps I (iam_DeleteUserPolicy sdk h14 u14 n14) (\<lambda>_. True)"
  using assms by (simp_all add: aws_calls_keep_def)

lemma minio_provider_keeps:
  assumes "minio_calls_keep I sdk"
  shows "provider_keeps I (minio_provider sdk c)"
  unfolding provider_keeps_def minio_provider_def minio_CreateBucket_def minio_SetBucketQuota_def
    minio_SetBucketLifecycle_def minio_SetBucketReplication_def minio_GrantAccess_def minio_RevokeAccess_def
    minio_DeleteBucket_def Let_def Provider.simps
  by (intro conjI allI keeps_rules minio_calls_keepD [OF assms] TrueI) simp_all

lemma aws_provider_keeps:
  assumes "aws_calls_keep I sdk"
  shows "provider_keeps I (aws_provider sdk p)"
proof -
  note calls = aws_calls_keepD [OF assms]
  have keys: "keeps I (aws_deleteListedKeys sdk h u) (\<lambda>_. True)" for h u
    unfolding aws_deleteListedKeys_def by (intro keeps_rules calls TrueI)
  have create: "keeps I (aws_createKey sdk h u) (\<lambda>_. True)" for h u
    unfolding aws_createKey_def by (intro keeps_rules calls keys TrueI)
  have security: "keeps I (aws_ConfigureBucketSecurity sdk p b ps) (\<lambda>_. True)" for b ps
    unfolding aws_ConfigureBucketSecurity_def apply_encryption_def apply_bucket_policy_def Let_def
    by (intro keeps_rules calls TrueI)
  show ?thesis
    unfolding provider_keeps_def aws_provider_def aws_CreateBucket_def aws_SetBucketQuota_def
      aws_SetBucketLifecycle_def aws_SetBucketReplication_def aws_GrantAccess_def aws_RevokeAccess_def
      aws_DeleteBucket_def aws_ensureUser_def Let_def Provider.simps
    by (intro conjI allI impI keeps_rules calls keys create TrueI) (auto intro: security)
qed

section \<open>Lemmas: provisioning and resolving keep an invariant of the world\<close>

lemma keeps_result: "keeps J m (\<lambda>_. True) \<Longrightarrow> (\<And>s. Q (result_of m s)) \<Longrightarrow> keeps J m Q"
  by (simp add: keeps_def)

lemma keeps_provisioning:
  assumes p: "provider_keeps I p"
  shows "keeps I (ProvisionBucketAndGrantAccess p claim cls k s) (\<lambda>_. True)"
  unfolding ProvisionBucketAndGrantAccess_def createBucketAndConfigure_def grantAccess_def Let_def
  by (intro keeps_rules provider_keepsD [OF p]) simp_all

lemma keeps_finalizing:
  assumes p: "provider_keeps I p"
  shows "keeps I (RevokeAccessAndMaybeDeleteBucket p claim cls k) (\<lambda>_. True)"
  unfolding RevokeAccessAndMaybeDeleteBucket_def
  by (intro keeps_rules provider_keepsD [OF p]) simp_all

lemma provisioned_complete:
  assumes "result_of (ProvisionBucketAndGrantAccess p claim cls k s) w = Inr creds"
  shows "cred_BucketName creds \<noteq> '''' \<and> cred_Endpoint creds \<noteq> ''''"
proof -
  obtain w' where "run_state (ProvisionBucketAndGrantAccess p claim cls k s) w = (Inr creds, w')"
    using assms by (metis prod.collapse)
  from ProvisionBucketAndGrantAccess_ok [OF this] obtain w1 where
    "run_state (grantAccess p claim (provision_bucket_name claim cls) k s) w1 = (Inr creds, w')" by blast
  from grantAccess_ok [OF this] show ?thesis using provision_bucket_name_not_empty [of claim cls] by auto
qed

text \<open>The world in which the resolver reads, and the providers it can hand out.\<close>

definition resolver_store :: "('c, 'h, 'w) resolver_deps option \<Rightarrow> ('w \<Rightarrow> bool) \<Rightarrow> bool" where
  "resolver_store r I \<longleftrightarrow>
     (\<forall>d. r = Some d \<longrightarrow>
        (\<forall>ns n. keeps I (k_GetSecret (rd_kube d) ns n) (\<lambda>_. True)) \<and>
        (\<forall>ns n. keeps I (k_GetConfigMap (rd_kube d) ns n) (\<lambda>_. True)) \<and>
        (\<forall>c. provider_keeps I (minio_provider (rd_minio d) c)) \<and>
        (\<forall>q. provider_keeps I (aws_provider (rd_aws d) (Some q))))"

lemma keeps_minio_cached [keeps_rules]: "keeps (of_world I) (minio_cached sdk cfg key rv) (\<lambda>_. True)"
  by (simp add: keeps_def minio_cached_run)

lemma keeps_aws_cached [keeps_rules]: "keeps (of_world I) (aws_cached sdk cfg doc key rv) (\<lambda>_. True)"
  by (simp add: keeps_def aws_cached_run Let_def)

lemma keeps_resolver:
  assumes "resolver_store r I"
  shows "keeps (of_world I) (ProviderForClass r cls) (\<lambda>x. \<forall>p. x = Inr p \<longrightarrow> provider_keeps I p)"
proof (cases r)
  case (Some d)
  with assms have env: "\<And>ns n. keeps I (k_GetSecret (rd_kube d) ns n) (\<lambda>_. True)"
    "\<And>ns n. keeps I (k_GetConfigMap (rd_kube d) ns n) (\<lambda>_. True)"
    "\<And>c. provider_keeps I (minio_provider (rd_minio d) c)"
    "\<And>q. provider_keeps I (aws_provider (rd_aws d) (Some q))"
    by (simp_all add: resolver_store_def)
  show ?thesis
    unfolding Some ProviderForClass_def minioProviderForClass_def awsProviderForClass_def default_minio_def
      bucket_policy_of_def read_policy_def Let_def
    by (intro keeps_rules env(1,2) allI impI)
      (auto simp: env(3,4) intro!: keeps_rules env(1,2) split: option.splits)
qed (simp add: ProviderForClass_def keeps_ret)

section \<open>Lemmas: the status invariant\<close>

lemma set_claim_status_fields [simp]:
  "status_Phase (claim_Status (set_claim_status k ph rdy st reason msg c)) = ph"
  "status_BucketReady (claim_Status (set_claim_status k ph rdy st reason msg c)) = rdy"
  "status_BucketName (claim_Status (set_claim_status k ph rdy st reason msg c)) = status_BucketName (claim_Status c)"
  "status_Endpoint (claim_Status (set_claim_status k ph rdy st reason msg c)) = status_Endpoint (claim_Status c)"
  "status_SecretReference (claim_Status (set_claim_status k ph rdy st reason msg c)) =
     status_SecretReference (claim_Status c)"
  "claim_Meta (set_claim_status k ph rdy st reason msg c) = claim_Meta c"
  "claim_Spec (set_claim_status k ph rdy st reason msg c) = claim_Spec c"
  by (simp_all add: set_claim_status_def)

lemma set_claim_status_ready:
  assumes "condition_laws k"
  shows "find (\<lambda>d. cond_Type d = claimConditionReady)
           (status_Conditions (claim_Status (set_claim_status k ph rdy st reason msg c))) =
         Some (ready_condition st (meta_Generation (claim_Meta c)) reason msg)"
proof -
  let ?c = "ready_condition st (meta_Generation (claim_Meta c)) reason msg"
  have "cond_Type ?c = claimConditionReady" by (simp add: ready_condition_def)
  moreover have "find (\<lambda>d. cond_Type d = cond_Type ?c)
      (k_SetStatusCondition k (status_Conditions (claim_Status c)) ?c) = Some ?c"
    using assms unfolding condition_laws_def by blast
  ultimately show ?thesis by (simp add: set_claim_status_def)
qed

lemma set_claim_status_true:
  "condition_laws k \<Longrightarrow>
     k_IsStatusConditionTrue k (status_Conditions (claim_Status (set_claim_status k ph rdy st reason msg c)))
       claimConditionReady \<longleftrightarrow> st = ''True''"
  using set_claim_status_ready [of k ph rdy st reason msg c]
  by (simp add: condition_laws_def ready_condition_def)

lemma consistent_not_bound:
  "condition_laws k \<Longrightarrow> ph \<noteq> ''Bound'' \<Longrightarrow> st \<noteq> ''True'' \<Longrightarrow>
     consistent k (set_claim_status k ph False st reason msg c)"
  by (simp add: consistent_def set_claim_status_true Let_def)

lemma consistent_bound:
  "condition_laws k \<Longrightarrow> cred_BucketName creds \<noteq> '''' \<Longrightarrow> cred_Endpoint creds \<noteq> '''' \<Longrightarrow>
     consistent k (bound_claim k creds secret c)"
  by (simp add: consistent_def bound_claim_def set_claim_status_true Let_def)

lemma consistent_meta: "consistent k (c\<lparr>claim_Meta := m\<rparr>) = consistent k c"
  by (simp add: consistent_def)

text \<open>The invariant, through the stages of the reconciler.\<close>

definition claim_env ::
  "(Unstructured \<Rightarrow> bool) \<Rightarrow> (BucketClass \<Rightarrow> bool) \<Rightarrow> ('c, 'h, 'w) claim_reconciler \<Rightarrow> ('w \<Rightarrow> bool) \<Rightarrow> bool" where
  "claim_env W C r I \<longleftrightarrow> condition_laws (cr_kube r) \<and> claim_store W C (cr_kube r) I \<and> resolver_store (cr_resolver r) I"

lemma keeps_merge:
  assumes "claim_store W C k I" and "\<And>c. consistent k c \<Longrightarrow> consistent k (mutate c)"
  shows "keeps (of_world I) (mergeClaimStatus k ns n mutate) (\<lambda>_. True)"
  unfolding mergeClaimStatus_def
  by (rule keeps_val_or_err [where R = "consistent k"])
    (auto intro!: keeps_rules keeps_mono [OF claim_storeD(1) [OF assms(1)]]
      keeps_mono [OF claim_storeD(3) [OF assms(1)]] assms(2))

lemma keeps_notes:
  assumes "condition_laws k" "claim_store W C k I"
  shows "keeps (of_world I) (noteClaimProvisioning k ns n msg) (\<lambda>_. True)"
    and "keeps (of_world I) (noteClaimNotReady k ns n reason msg) (\<lambda>_. True)"
  unfolding noteClaimProvisioning_def noteClaimNotReady_def
  by (auto intro!: keeps_rules keeps_merge [OF assms(2)] consistent_not_bound [OF assms(1)])

lemma keeps_counts [keeps_rules]:
  "keeps (of_world I) (inc_total x) (\<lambda>_. True)" "keeps (of_world I) (inc_error x) (\<lambda>_. True)"
  "keeps (of_world I) (count_failure x) (\<lambda>_. True)"
  unfolding inc_total_def inc_error_def count_failure_def by (intro keeps_rules)+

lemma keeps_cosi_bucket:
  assumes "claim_store W C k I" and "C cls"
  shows "keeps (of_world I) (ensureCosiBucket k c cls) (\<lambda>_. True)"
  unfolding ensureCosiBucket_def Let_def
  by (intro keeps_rules keeps_bind [OF keeps_in_world [OF claim_storeD(7) [OF assms(1)]]]
      claim_storeD(8,9) [OF assms(1)] claim_store_objects [OF assms(1)] assms(2); blast)

lemma keeps_failures:
  assumes "condition_laws k" "claim_store W C k I"
  shows "keeps (of_world I) (class_lookup_failed k ns n c err) (\<lambda>_. True)"
    and "keeps (of_world I) (resolve_failed k ns n cls err) (\<lambda>_. True)"
    and "keeps (of_world I) (provisioning_failed k ns n err) (\<lambda>_. True)"
  unfolding class_lookup_failed_def resolve_failed_def provisioning_failed_def Let_def
  by (intro keeps_rules keeps_notes [OF assms] TrueI)+

lemma keeps_bind_claim:
  assumes "condition_laws (cr_kube r)" "claim_store W C (cr_kube r) I"
    and "C cls" and "cred_BucketName creds \<noteq> ''''" "cred_Endpoint creds \<noteq> ''''"
  shows "keeps (of_world I) (bind_claim r ns n cls creds secret) (\<lambda>_. True)"
  unfolding bind_claim_def Let_def
  by (intro keeps_rules keeps_cosi_bucket [OF assms(2,3)] keeps_mono [OF claim_storeD(1) [OF assms(2)]]
      keeps_mono [OF claim_storeD(3) [OF assms(2)]] consistent_bound assms TrueI)

lemma keeps_existing_keys:
  assumes "claim_store W C k I"
  shows "keeps (of_world I) (existing_keys k c) (\<lambda>_. True)"
  unfolding existing_keys_def by (intro keeps_rules claim_storeD [OF assms] TrueI)

lemma keeps_write_secret:
  assumes "claim_store W C k I"
  shows "keeps (of_world I) (write_secret k c creds) (\<lambda>_. True)"
  unfolding write_secret_def by (intro keeps_rules claim_storeD [OF assms] TrueI)

lemma keeps_provision:
  assumes env: "condition_laws (cr_kube r)" "claim_store W C (cr_kube r) I" and p: "provider_keeps I p"
    and cls: "C cls"
  shows "keeps (of_world I) (reconcile_provision r ns n claim cls p) (\<lambda>_. True)"
proof -
  let ?done = "\<lambda>x. \<forall>creds. x = Inr creds \<longrightarrow> cred_BucketName creds \<noteq> '''' \<and> cred_Endpoint creds \<noteq> ''''"
  have prov: "keeps (of_world I) (in_world (ProvisionBucketAndGrantAccess p claim cls k s)) ?done" for k s
    by (intro keeps_rules keeps_result [OF keeps_provisioning [OF p]]) (auto dest: provisioned_complete)
  show ?thesis
    unfolding reconcile_provision_def Let_def
    by (intro keeps_rules keeps_bind [OF prov] keeps_notes [OF env] keeps_existing_keys [OF env(2)]
        keeps_failures [OF env] keeps_write_secret [OF env(2)] keeps_bind_claim [OF env cls] TrueI; blast)
qed

lemma keeps_with_class:
  assumes env: "claim_env W C r I" and cls: "C cls"
  shows "keeps (of_world I) (reconcile_with_class r ns n claim cls) (\<lambda>_. True)"
proof -
  have e: "condition_laws (cr_kube r)" "claim_store W C (cr_kube r) I" "resolver_store (cr_resolver r) I"
    using env by (simp_all add: claim_env_def)
  show ?thesis
    unfolding reconcile_with_class_def Let_def
    by (intro keeps_rules keeps_notes [OF e(1,2)] keeps_bind [OF keeps_resolver [OF e(3)]]
        keeps_failures [OF e(1,2)] keeps_provision [OF e(1,2) _ cls] TrueI; blast)
qed

lemma keeps_finalize:
  assumes env: "claim_env W C r I"
  shows "keeps (of_world I) (finalizeBucketClaim r claim) (\<lambda>_. True)"
proof -
  have e: "claim_store W C (cr_kube r) I" "resolver_store (cr_resolver r) I"
    using env by (simp_all add: claim_env_def)
  show ?thesis
    unfolding finalizeBucketClaim_def finalizer_access_key_def
    by (intro keeps_rules claim_storeD(5) [OF e(1)] keeps_mono [OF claim_storeD(4) [OF e(1)]]
        keeps_val_or_err [OF keeps_resolver [OF e(2)]]
        keeps_finalizing TrueI; blast)
qed

lemma keeps_deleted:
  assumes env: "claim_env W C r I" and "consistent (cr_kube r) claim"
  shows "keeps (of_world I) (reconcile_deleted r claim) (\<lambda>_. True)"
proof -
  have e: "claim_store W C (cr_kube r) I" using env by (simp add: claim_env_def)
  show ?thesis
    unfolding reconcile_deleted_def Let_def
    by (intro keeps_rules keeps_finalize [OF env] keeps_mono [OF claim_storeD(2) [OF e]] TrueI)
      (simp_all add: consistent_meta assms(2))
qed

lemma keeps_finalizer:
  assumes "claim_store W C k I" and "consistent k claim"
  shows "keeps (of_world I) (ensure_claim_finalizer k claim) (\<lambda>_. True)"
  unfolding ensure_claim_finalizer_def
  by (intro keeps_rules keeps_mono [OF claim_storeD(2) [OF assms(1)]] TrueI)
    (simp_all add: consistent_meta assms(2))

section \<open>The example cluster\<close>

lemma mem_find_set: "find (\<lambda>d. cond_Type d = cond_Type c) (mem_SetStatusCondition cs c) = Some c"
  by (induction cs) auto

lemma mem_kube_conditions [simp]:
  "k_SetStatusCondition mem_kube = mem_SetStatusCondition"
  "k_IsStatusConditionTrue mem_kube = mem_IsStatusConditionTrue"
  by (simp_all add: mem_kube_def)

lemma mem_condition_laws: "condition_laws mem_kube"
  by (simp add: condition_laws_def mem_find_set mem_IsStatusConditionTrue_def split: option.split)

definition all_consistent :: "mem_cluster \<Rightarrow> bool" where
  "all_consistent w \<longleftrightarrow> (\<forall>key c. map_of (mc_claims w) key = Some c \<longrightarrow> consistent mem_kube c)"

lemma all_consistent_simps [simp]:
  "all_consistent (w\<lparr>mc_secrets := x1\<rparr>) = all_consistent w"
  "all_consistent (w\<lparr>mc_objects := x2\<rparr>) = all_consistent w"
  "all_consistent (w\<lparr>mc_minio := x3\<rparr>) = all_consistent w"
  by (simp_all add: all_consistent_def)

lemma mem_claim_store: "claim_store (\<lambda>_. True) (\<lambda>_. True) mem_kube all_consistent"
proof -
  have put: "consistent mem_kube c \<Longrightarrow> keeps all_consistent (put_claim c) (\<lambda>r. \<forall>c. r = Inr c \<longrightarrow> consistent mem_kube c)" for c
    by (auto simp: keeps_def put_claim_def all_consistent_def update_conv')
  have get: "keeps all_consistent (found mc_claims key) (\<lambda>r. \<forall>c. r = Inr c \<longrightarrow> consistent mem_kube c)" for key
    by (cases key) (auto simp: keeps_def run_simps all_consistent_def split: option.split)
  have other: "keeps all_consistent (found f k) (\<lambda>_. True)" for f :: "mem_cluster \<Rightarrow> ('k \<times> 'v) list" and k
    by (simp add: keeps_def run_simps)
  show ?thesis
    unfolding claim_store_def
    by (simp add: object_laws_def mem_kube_def put [unfolded mem_kube_def] get [unfolded mem_kube_def] other)
      (simp add: keeps_def run_simps put_object_def put_secret_def split: sum.split)
qed

lemma keeps_on_minio: "keeps all_consistent (on_minio m) (\<lambda>_. True)"
  by (simp add: keeps_def run_on_minio)

lemma mem_minio_calls: "minio_calls_keep all_consistent cluster_minio"
  by (simp add: minio_calls_keep_def cluster_minio_def keeps_on_minio keeps_ret)

lemma mem_aws_calls: "aws_calls_keep I cluster_aws"
  by (simp add: aws_calls_keep_def cluster_aws_def keeps_ret)

lemma mem_resolver_store: "resolver_store (Some example_deps) all_consistent"
  using minio_provider_keeps [OF mem_minio_calls] aws_provider_keeps [OF mem_aws_calls]
  by (simp add: resolver_store_def example_deps_def mem_kube_def keeps_def run_simps)

definition example_reconciler :: "(unit, unit, mem_cluster) claim_reconciler" where
  "example_reconciler = \<lparr>cr_kube = mem_kube, cr_resolver = Some example_deps, cr_EnableCOSI = True\<rparr>"

definition example_class :: BucketClass where
  "example_class = zero_class\<lparr>class_Meta := zero_meta\<lparr>meta_Name := ''bc''\<rparr>, class_DriverName := operator_driver\<rparr>"

definition example_cluster :: mem_cluster where
  "example_cluster = empty_cluster\<lparr>mc_claims := [((''ns1'', ''c1''), example_claim)],
     mc_classes := [(''bc'', example_class)]\<rparr>"

definition example_bound :: BucketClaim where
  "example_bound = bound_claim mem_kube
     \<lparr>cred_AccessKeyID = ''ak'', cred_AccessSecretKey = ''sk'', cred_BucketName = ''ns1-c1'',
      cred_Endpoint = ''http://minio:9000''\<rparr> (zero_secret ''ns1'' ''c1-credentials'')
     (example_claim\<lparr>claim_Meta := (claim_Meta example_claim)\<lparr>meta_Finalizers := [bucketClaimFinalizer]\<rparr>\<rparr>)"

lemma example_cluster_consistent: "all_consistent example_cluster"
  by (simp add: all_consistent_def example_cluster_def consistent_def example_claim_def named_claim_def
      zero_claim_def mem_IsStatusConditionTrue_def Let_def)

section \<open>Properties\<close>

lemma keeps_Reconcile:
  assumes env: "claim_env W C r I"
  shows "keeps (of_world I) (Reconcile r ns n) (\<lambda>_. True)"
proof -
  have e: "condition_laws (cr_kube r)" "claim_store W C (cr_kube r) I"
    using env by (simp_all add: claim_env_def)
  show ?thesis
    unfolding Reconcile_def reconcile_body_def Let_def
    by (intro keeps_rules TrueI
        keeps_bind [OF keeps_in_world [OF claim_storeD(1) [OF e(2)]]]
        keeps_bind [OF keeps_in_world [OF claim_storeD(4) [OF e(2)]]]
        keeps_deleted [OF env] keeps_finalizer [OF e(2)]
        keeps_failures [OF e] keeps_with_class [OF env]; blast)
qed

text \<open>\<^verbatim>\<open>Reconcile\<close> keeps every claim's status consistent, whatever fails on the way: \<^verbatim>\<open>bucketReady\<close>,
  the phase \<^verbatim>\<open>Bound\<close> and a true \<^verbatim>\<open>Ready\<close> condition always go together, and a bound claim names its
  bucket, its endpoint and its Secret. Here \<open>I\<close> is any such invariant of the cluster that survives the
  other calls.\<close>

theorem reconcile_status_invariant:
  assumes "condition_laws (cr_kube r)" and "claim_store W C (cr_kube r) I"
    and "resolver_store (cr_resolver r) I" and "I (st_world s)"
  shows "I (st_world (world_after (Reconcile r ns n) s))"
proof -
  have "claim_env W C r I" using assms(1-3) by (simp add: claim_env_def)
  from keepsD [OF keeps_Reconcile [OF this]] assms(4) show ?thesis by blast
qed

theorem reconcile_status_invariant_witness:
  "all_consistent (st_world (world_after (Reconcile example_reconciler ''ns1'' ''c1'') (start_state example_cluster)))"
proof -
  have h: "condition_laws (cr_kube example_reconciler)" "claim_store (\<lambda>_. True) (\<lambda>_. True) (cr_kube example_reconciler) all_consistent"
    "resolver_store (cr_resolver example_reconciler) all_consistent"
    by (simp_all add: example_reconciler_def mem_condition_laws mem_claim_store mem_resolver_store)
  have "all_consistent (st_world (start_state example_cluster))"
    by (simp add: start_state_def example_cluster_consistent)
  from reconcile_status_invariant [OF h this] show ?thesis .
qed

text \<open>A backend whose deletion of buckets is another one: what resolves and runs all the same.\<close>

definition other_deletion ::
  "('h \<Rightarrow> string \<Rightarrow> ('w, go_error option) state) \<Rightarrow> ('h \<Rightarrow> string \<Rightarrow> ('w, go_error option) state) \<Rightarrow>
     ('c, 'h, 'w) resolver_deps \<Rightarrow> ('c, 'h, 'w) resolver_deps" where
  "other_deletion f g d =
     d\<lparr>rd_minio := (rd_minio d)\<lparr>mg_RemoveBucket := f\<rparr>, rd_aws := (rd_aws d)\<lparr>s3_DeleteBucket := g\<rparr>\<rparr>"

lemma minio_other_deletion:
  "minio_provider (sdk\<lparr>mg_RemoveBucket := f\<rparr>) c =
     (minio_provider sdk c)\<lparr>DeleteBucket := minio_DeleteBucket (sdk\<lparr>mg_RemoveBucket := f\<rparr>) c\<rparr>"
  by (simp add: minio_provider_def fun_eq_iff minio_CreateBucket_def minio_SetBucketQuota_def
      minio_SetBucketLifecycle_def minio_SetBucketReplication_def minio_GrantAccess_def minio_RevokeAccess_def
      Let_def cong: if_cong)

lemma aws_other_deletion:
  "aws_provider (sdk\<lparr>s3_DeleteBucket := f\<rparr>) p =
     (aws_provider sdk p)\<lparr>DeleteBucket := aws_DeleteBucket (sdk\<lparr>s3_DeleteBucket := f\<rparr>) p\<rparr>"
proof -
  have key: "aws_deleteListedKeys (sdk\<lparr>s3_DeleteBucket := f\<rparr>) = aws_deleteListedKeys sdk"
    by (simp add: fun_eq_iff aws_deleteListedKeys_def cong: sum.case_cong)
  have user: "aws_ensureUser (sdk\<lparr>s3_DeleteBucket := f\<rparr>) = aws_ensureUser sdk"
    by (simp add: fun_eq_iff aws_ensureUser_def)
  have create: "aws_createKey (sdk\<lparr>s3_DeleteBucket := f\<rparr>) = aws_createKey sdk"
    by (simp add: fun_eq_iff aws_createKey_def key cong: sum.case_cong if_cong)
  have enc: "apply_encryption (sdk\<lparr>s3_DeleteBucket := f\<rparr>) = apply_encryption sdk"
    by (simp add: fun_eq_iff apply_encryption_def)
  have pol: "apply_bucket_policy (sdk\<lparr>s3_DeleteBucket := f\<rparr>) = apply_bucket_policy sdk"
    by (simp add: fun_eq_iff apply_bucket_policy_def cong: sum.case_cong if_cong)
  show ?thesis
    by (simp add: aws_provider_def fun_eq_iff aws_CreateBucket_def aws_SetBucketLifecycle_def
        aws_GrantAccess_def aws_RevokeAccess_def aws_ConfigureBucketSecurity_def key user create enc pol Let_def
        cong: option.case_cong sum.case_cong if_cong)
qed

fun same_but_deletion :: "go_error + 'w Provider \<Rightarrow> go_error + 'w Provider \<Rightarrow> bool" where
  "same_but_deletion (Inl e) r \<longleftrightarrow> r = Inl e"
| "same_but_deletion (Inr p) r \<longleftrightarrow> (\<exists>x. r = Inr (p\<lparr>DeleteBucket := x\<rparr>))"

definition same_run ::
  "('s, go_error + 'w Provider) state \<Rightarrow> ('s, go_error + 'w Provider) state \<Rightarrow> bool" where
  "same_run m m' \<longleftrightarrow>
     (\<forall>s. world_after m' s = world_after m s \<and> same_but_deletion (result_of m s) (result_of m' s))"

lemma same_but_deletion_refl: "same_but_deletion r r"
proof (cases r)
  case (Inr p)
  have "p = p\<lparr>DeleteBucket := DeleteBucket p\<rparr>" by simp
  with Inr show ?thesis by (metis same_but_deletion.simps(2))
qed simp

lemma same_run_refl: "same_run m m"
  by (simp add: same_run_def same_but_deletion_refl)

lemma same_run_ret: "same_but_deletion r r' \<Longrightarrow> same_run (ret r) (ret r')"
  by (simp add: same_run_def)

lemma same_run_val_or_err:
  "(\<And>x. same_run (k x) (k' x)) \<Longrightarrow> same_run (val_or_err m Inl k) (val_or_err m Inl k')"
  by (auto simp: same_run_def run_simps split: prod.split sum.split)

lemma same_run_sum:
  "(\<And>x. same_run (f x) (f' x)) \<Longrightarrow> (\<And>y. same_run (g y) (g' y)) \<Longrightarrow>
     same_run (case r of Inl x \<Rightarrow> f x | Inr y \<Rightarrow> g y) (case r of Inl x \<Rightarrow> f' x | Inr y \<Rightarrow> g' y)"
  by (cases r) simp_all

lemma same_run_option:
  "same_run m m' \<Longrightarrow> (\<And>y. same_run (g y) (g' y)) \<Longrightarrow>
     same_run (case r of None \<Rightarrow> m | Some y \<Rightarrow> g y) (case r of None \<Rightarrow> m' | Some y \<Rightarrow> g' y)"
  by (cases r) simp_all

lemma same_run_if:
  "same_run m m' \<Longrightarrow> same_run n n' \<Longrightarrow> same_run (if b then m else n) (if b then m' else n')"
  by simp

lemma same_run_prod:
  "(\<And>x y. same_run (f x y) (f' x y)) \<Longrightarrow> same_run (case r of (x, y) \<Rightarrow> f x y) (case r of (x, y) \<Rightarrow> f' x y)"
  by (cases r) simp

lemmas same_run_rules = same_run_val_or_err same_run_sum same_run_option same_run_if same_run_prod

lemma resolve_other_deletion:
  "same_run (ProviderForClass (Some d) cls) (ProviderForClass (Some (other_deletion f g d)) cls)"
proof -
  have new: "minio_NewClient ((rd_minio d)\<lparr>mg_RemoveBucket := f\<rparr>) cfg = minio_NewClient (rd_minio d) cfg"
    "aws_New ((rd_aws d)\<lparr>s3_DeleteBucket := g\<rparr>) cfg' = aws_New (rd_aws d) cfg'" for cfg cfg'
    by (simp_all add: minio_NewClient_def aws_New_def cong: sum.case_cong if_cong)
  have cached: "minio_cached ((rd_minio d)\<lparr>mg_RemoveBucket := f\<rparr>) = minio_cached (rd_minio d)"
    "aws_cached ((rd_aws d)\<lparr>s3_DeleteBucket := g\<rparr>) = aws_cached (rd_aws d)"
    by (simp_all add: fun_eq_iff minio_cached_def aws_cached_def new)
  have fields: "rd_kube (other_deletion f g d) = rd_kube d"
    "rd_DefaultMinio (other_deletion f g d) = rd_DefaultMinio d"
    "rd_minio (other_deletion f g d) = (rd_minio d)\<lparr>mg_RemoveBucket := f\<rparr>"
    "rd_aws (other_deletion f g d) = (rd_aws d)\<lparr>s3_DeleteBucket := g\<rparr>"
    by (simp_all add: other_deletion_def)
  have default: "same_but_deletion (default_minio d) (default_minio (other_deletion f g d))"
    unfolding default_minio_def fields minio_other_deletion by (auto split: option.split)
  have minio: "same_run (minioProviderForClass d c) (minioProviderForClass (other_deletion f g d) c)" for c
    unfolding minioProviderForClass_def fields cached
    by (intro same_run_rules same_run_ret default same_run_refl) (auto simp: minio_other_deletion)
  have aws: "same_run (awsProviderForClass d c) (awsProviderForClass (other_deletion f g d) c)" for c
    unfolding awsProviderForClass_def fields cached
    by (intro same_run_rules same_run_refl same_run_ret) (auto simp: aws_other_deletion)
  show ?thesis
    unfolding ProviderForClass_def by (simp, intro same_run_rules same_run_refl minio aws)
qed

lemma create_other_deletion:
  "createBucketAndConfigure (p\<lparr>DeleteBucket := x\<rparr>) claim cls = createBucketAndConfigure p claim cls"
proof -
  have fields: "CreateBucket (p\<lparr>DeleteBucket := x\<rparr>) = CreateBucket p"
    "SetBucketQuota (p\<lparr>DeleteBucket := x\<rparr>) = SetBucketQuota p"
    "SetBucketLifecycle (p\<lparr>DeleteBucket := x\<rparr>) = SetBucketLifecycle p"
    "SetBucketReplication (p\<lparr>DeleteBucket := x\<rparr>) = SetBucketReplication p"
    "ConfigureBucketSecurity (p\<lparr>DeleteBucket := x\<rparr>) = ConfigureBucketSecurity p"
    by simp_all
  show ?thesis unfolding createBucketAndConfigure_def fields ..
qed

lemma provision_other_deletion:
  "ProvisionBucketAndGrantAccess (p\<lparr>DeleteBucket := x\<rparr>) claim cls k s = ProvisionBucketAndGrantAccess p claim cls k s"
proof -
  have "grantAccess (p\<lparr>DeleteBucket := x\<rparr>) claim b k s = grantAccess p claim b k s" for b
    unfolding grantAccess_def by simp
  then show ?thesis unfolding ProvisionBucketAndGrantAccess_def create_other_deletion by presburger
qed

lemma finalize_other_deletion:
  assumes "class_DeletionPolicy cls \<noteq> DeletionPolicyDelete"
  shows "RevokeAccessAndMaybeDeleteBucket (p\<lparr>DeleteBucket := x\<rparr>) claim cls k =
         RevokeAccessAndMaybeDeleteBucket p claim cls k"
  using assms by (simp add: RevokeAccessAndMaybeDeleteBucket_def)

lemma reconcile_provision_fields:
  "reconcile_provision (r\<lparr>cr_resolver := d\<rparr>) ns n claim cls p = reconcile_provision r ns n claim cls p"
proof -
  have "bind_claim (r\<lparr>cr_resolver := d\<rparr>) = bind_claim r"
    by (simp add: fun_eq_iff bind_claim_def)
  then show ?thesis by (simp add: reconcile_provision_def)
qed

lemma reconcile_provision_other_deletion:
  "reconcile_provision r ns n claim cls (p\<lparr>DeleteBucket := x\<rparr>) = reconcile_provision r ns n claim cls p"
  unfolding reconcile_provision_def provision_other_deletion ..

lemma reconcile_with_class_other_deletion:
  assumes "cr_resolver r = Some d"
  shows "run_state (reconcile_with_class (r\<lparr>cr_resolver := Some (other_deletion f g d)\<rparr>) ns n claim cls) s =
         run_state (reconcile_with_class r ns n claim cls) s"
proof (cases "class_DriverName cls \<noteq> operator_driver")
  case True
  then show ?thesis by (simp add: reconcile_with_class_def)
next
  case False
  let ?m = "ProviderForClass (Some d) (Some cls)" and ?m' = "ProviderForClass (Some (other_deletion f g d)) (Some cls)"
  have same: "world_after ?m' s = world_after ?m s" "same_but_deletion (result_of ?m s) (result_of ?m' s)"
    using resolve_other_deletion unfolding same_run_def by blast+
  obtain a s1 where m: "run_state ?m s = (a, s1)" by fastforce
  obtain a' s1' where m': "run_state ?m' s = (a', s1')" by fastforce
  show ?thesis
  proof (cases a)
    case (Inl e)
    with same m m' False assms show ?thesis by (simp add: reconcile_with_class_def)
  next
    case (Inr p)
    with same m m' obtain x where "a' = Inr (p\<lparr>DeleteBucket := x\<rparr>)" "s1' = s1" by auto
    with Inr m m' False assms show ?thesis
      by (simp add: reconcile_with_class_def reconcile_provision_other_deletion reconcile_provision_fields)
  qed
qed

text \<open>While \<open>I\<close> holds no class that is read asks for \<^verbatim>\<open>Delete\<close>, and reading keeps \<open>I\<close>.\<close>

definition classes_retain :: "'w kube \<Rightarrow> ('w \<Rightarrow> bool) \<Rightarrow> bool" where
  "classes_retain k I \<longleftrightarrow>
     (\<forall>ns n. keeps I (k_GetClaim k ns n) (\<lambda>_. True)) \<and>
     (\<forall>n. keeps I (k_GetClass k n) (\<lambda>r. \<forall>cls. r = Inr cls \<longrightarrow> class_DeletionPolicy cls \<noteq> DeletionPolicyDelete))"

lemma finalizeBucketClaim_other_deletion:
  assumes "cr_resolver r = Some d" and "classes_retain (cr_kube r) I" and "I (st_world s)"
  shows "run_state (finalizeBucketClaim (r\<lparr>cr_resolver := Some (other_deletion f g d)\<rparr>) claim) s =
         run_state (finalizeBucketClaim r claim) s"
proof -
  obtain c w1 where get: "run_state (k_GetClass (cr_kube r) (spec_BucketClassName (claim_Spec claim))) (st_world s)
      = (c, w1)" by fastforce
  show ?thesis
  proof (cases c)
    case (Inl e)
    with get show ?thesis by (simp add: finalizeBucketClaim_def run_simps)
  next
    case (Inr cls)
    have "keeps I (k_GetClass (cr_kube r) (spec_BucketClassName (claim_Spec claim)))
        (\<lambda>r. \<forall>cls. r = Inr cls \<longrightarrow> class_DeletionPolicy cls \<noteq> DeletionPolicyDelete)"
      using assms(2) by (simp add: classes_retain_def)
    from keepsD [OF this assms(3)] get Inr have pol: "class_DeletionPolicy cls \<noteq> DeletionPolicyDelete" by simp
    let ?s = "s\<lparr>st_world := w1\<rparr>"
    let ?m = "ProviderForClass (Some d) (Some cls)" and ?m' = "ProviderForClass (Some (other_deletion f g d)) (Some cls)"
    have same: "world_after ?m' ?s = world_after ?m ?s" "same_but_deletion (result_of ?m ?s) (result_of ?m' ?s)"
      using resolve_other_deletion unfolding same_run_def by blast+
    obtain a s1 where m: "run_state ?m ?s = (a, s1)" by fastforce
    obtain a' s1' where m': "run_state ?m' ?s = (a', s1')" by fastforce
    show ?thesis
    proof (cases a)
      case (Inl e)
      with same m m' get \<open>c = Inr cls\<close> assms(1) show ?thesis by (simp add: finalizeBucketClaim_def run_simps)
    next
      case (Inr p)
      with same m m' obtain x where "a' = Inr (p\<lparr>DeleteBucket := x\<rparr>)" "s1' = s1" by auto
      with Inr m m' get \<open>c = Inr cls\<close> assms(1) show ?thesis
        by (simp add: finalizeBucketClaim_def run_simps finalize_other_deletion [OF pol])
    qed
  qed
qed

text \<open>While no class asks for \<^verbatim>\<open>Delete\<close>, \<^verbatim>\<open>Reconcile\<close> never deletes a bucket of either backend, on
  any path: its run and its result are the same whatever the two deletion calls would do.\<close>

theorem reconcile_never_deletes_retained:
  assumes "cr_resolver r = Some d" and "classes_retain (cr_kube r) I" and "I (st_world s)"
  shows "run_state (Reconcile (r\<lparr>cr_resolver := Some (d\<lparr>rd_minio := (rd_minio d)\<lparr>mg_RemoveBucket := f\<rparr>,
           rd_aws := (rd_aws d)\<lparr>s3_DeleteBucket := g\<rparr>\<rparr>)\<rparr>) ns n) s = run_state (Reconcile r ns n) s"
proof -
  let ?r = "r\<lparr>cr_resolver := Some (other_deletion f g d)\<rparr>"
  have kube: "cr_kube ?r = cr_kube r" by simp
  have deleted: "run_state (reconcile_deleted ?r claim) s1 = run_state (reconcile_deleted r claim) s1"
    if "I (st_world s1)" for claim s1
  proof -
    have "run_state (finalizeBucketClaim ?r claim) s1 = run_state (finalizeBucketClaim r claim) s1"
      by (rule finalizeBucketClaim_other_deletion [OF assms(1,2) that])
    then show ?thesis unfolding reconcile_deleted_def Let_def kube by simp
  qed
  have cls: "reconcile_with_class ?r ns n claim cls = reconcile_with_class r ns n claim cls" for claim cls
    by (rule state_ext) (rule reconcile_with_class_other_deletion [OF assms(1)])
  have "keeps I (k_GetClaim (cr_kube r) ns n) (\<lambda>_. True)" using assms(2) by (simp add: classes_retain_def)
  from keepsD [OF this assms(3)] have "I (world_after (k_GetClaim (cr_kube r) ns n) (st_world s))" by simp
  then have "run_state (reconcile_body ?r ns n) s = run_state (reconcile_body r ns n) s"
    unfolding reconcile_body_def Let_def kube cls by (simp add: run_simps deleted split: sum.split)
  then show ?thesis by (simp add: Reconcile_def other_deletion_def)
qed

theorem reconcile_never_deletes_retained_witness:
  "run_state (Reconcile (example_reconciler\<lparr>cr_resolver := Some (example_deps\<lparr>rd_minio := cluster_minio\<lparr>mg_RemoveBucket :=
       \<lambda>h b. ret (Some json_error)\<rparr>, rd_aws := cluster_aws\<lparr>s3_DeleteBucket := \<lambda>h b. ret (Some json_error)\<rparr>\<rparr>)\<rparr>) ''ns1'' ''c1'')
     (start_state example_cluster) =
   run_state (Reconcile example_reconciler ''ns1'' ''c1'') (start_state example_cluster)"
proof -
  let ?I = "\<lambda>w. \<forall>n cls. map_of (mc_classes w) n = Some cls \<longrightarrow> class_DeletionPolicy cls \<noteq> DeletionPolicyDelete"
  have d: "cr_resolver example_reconciler = Some example_deps" by (simp add: example_reconciler_def)
  have k: "classes_retain (cr_kube example_reconciler) ?I"
    by (auto simp: classes_retain_def example_reconciler_def mem_kube_def keeps_def run_simps split: option.splits)
  have w: "?I (st_world (start_state example_cluster))"
    by (simp add: start_state_def example_cluster_def example_class_def zero_class_def DeletionPolicyDelete_def)
  have f: "rd_minio example_deps = cluster_minio" "rd_aws example_deps = cluster_aws"
    by (simp_all add: example_deps_def)
  from reconcile_never_deletes_retained [OF d k w, unfolded f] show ?thesis by simp
qed

end
