(* ===== verification/Claim_Properties.thy ===== *)
theory Claim_Properties
  imports Bucketclaim_Controller
begin

text \<open>
  Further properties of the BucketClaim reconciler: the deletion path, the steady state of a bound
  claim, the metrics, the condition messages and the reports of a failed resolution.
\<close>

section \<open>Deletion\<close>

definition add_metrics :: "(string \<times> string) list \<Rightarrow> ('h, 'w) op_state \<Rightarrow> ('h, 'w) op_state" where
  "add_metrics ms s = s\<lparr>st_metrics := st_metrics s @ ms\<rparr>"

definition total :: "string \<Rightarrow> string \<times> string" where
  "total x = (reconcileTotal, x)"

definition failure :: "string \<Rightarrow> (string \<times> string) list" where
  "failure stage = [(reconcileErrorsTotal, stage), total ''error'']"

definition duration :: "string \<Rightarrow> string \<times> string" where
  "duration cls = (reconcileDurationSeconds, cls)"

lemma run_inc_total [run_simps]: "run_state (inc_total x) s = ((), add_metrics [total x] s)"
  by (simp add: inc_total_def run_inc add_metrics_def total_def)

lemma run_count_failure [run_simps]: "run_state (count_failure st) s = ((), add_metrics (failure st) s)"
  by (simp add: count_failure_def inc_error_def inc_total_def run_inc add_metrics_def failure_def total_def)

lemma add_metrics_add [simp]: "add_metrics ms (add_metrics ms' s) = add_metrics (ms' @ ms) s"
  by (simp add: add_metrics_def)

lemma st_world_add_metrics [simp]: "st_world (add_metrics ms s) = st_world s"
  by (simp add: add_metrics_def)

lemma Reconcile_run:
  "run_state (Reconcile r ns n) s =
     (let ((cls, x), s1) = run_state (reconcile_body r ns n) s in (x, add_metrics [duration cls] s1))"
  by (simp add: Reconcile_def run_inc add_metrics_def duration_def split: prod.split)

text \<open>C8. Deletion. Where the claim carries the finalizer, the finalizer is taken off only after the
  finalization has succeeded, with one update that changes nothing else; where that failed, the error is
  returned for a retry, no call follows it, and the finalizer stays. A claim without the finalizer is
  left alone.\<close>

theorem deletion_path:
  assumes "run_state (k_GetClaim (cr_kube r) ns n) (st_world s) = (Inr claim, w1)"
    and "meta_DeletionTimestamp (claim_Meta claim) \<noteq> None"
  shows "run_state (Reconcile r ns n) s =
    (if \<not> k_ContainsFinalizer (cr_kube r) (meta_Finalizers (claim_Meta claim)) bucketClaimFinalizer
     then (Done, add_metrics [total ''deleted'', duration ''unknown''] (s\<lparr>st_world := w1\<rparr>))
     else
       (case run_state (finalizeBucketClaim r claim) (s\<lparr>st_world := w1\<rparr>) of
          (Some err, s2) \<Rightarrow> (Failed err, add_metrics (failure ''finalize'' @ [duration ''unknown'']) s2)
        | (None, s2) \<Rightarrow>
            (case run_state (k_UpdateClaim (cr_kube r) (claim\<lparr>claim_Meta := (claim_Meta claim)\<lparr>meta_Finalizers :=
                     k_RemoveFinalizer (cr_kube r) (meta_Finalizers (claim_Meta claim)) bucketClaimFinalizer\<rparr>\<rparr>))
                  (st_world s2) of
               (Inl err, w) \<Rightarrow> (Failed err, add_metrics (failure ''remove_finalizer'' @ [duration ''unknown''])
                                 (s2\<lparr>st_world := w\<rparr>))
             | (Inr _, w) \<Rightarrow> (Done, add_metrics [total ''deleted'', duration ''unknown''] (s2\<lparr>st_world := w\<rparr>)))))"
proof -
  have body: "run_state (reconcile_body r ns n) s =
      (let (x, s1) = run_state (reconcile_deleted r claim) (s\<lparr>st_world := w1\<rparr>) in ((''unknown'', x), s1))"
    using assms by (simp add: reconcile_body_def run_simps split: prod.split)
  show ?thesis
    unfolding Reconcile_run body reconcile_deleted_def
    by (auto simp: run_simps Let_def split: prod.split option.split sum.split)
qed

definition deleted_claim :: BucketClaim where
  "deleted_claim = example_claim\<lparr>claim_Meta := (claim_Meta example_claim)\<lparr>meta_Finalizers := [bucketClaimFinalizer],
     meta_DeletionTimestamp := Some 1\<rparr>\<rparr>"

theorem deletion_path_witness:
  "result_of (Reconcile example_reconciler ''ns1'' ''c1'')
     (start_state (example_cluster\<lparr>mc_claims := [((''ns1'', ''c1''), deleted_claim)], mc_classes := []\<rparr>)) = Done"
proof -
  let ?s = "start_state (example_cluster\<lparr>mc_claims := [((''ns1'', ''c1''), deleted_claim)], mc_classes := []\<rparr>)"
  have get: "run_state (k_GetClaim (cr_kube example_reconciler) ''ns1'' ''c1'') (st_world ?s) =
      (Inr deleted_claim, st_world ?s)"
    by (simp add: example_reconciler_def mem_kube_def start_state_def run_simps)
  have del: "meta_DeletionTimestamp (claim_Meta deleted_claim) \<noteq> None"
    by (simp add: deleted_claim_def)
  have fin: "run_state (finalizeBucketClaim example_reconciler deleted_claim) ?s = (None, ?s)"
    by (simp add: finalizeBucketClaim_def example_reconciler_def mem_kube_def start_state_def run_simps)
  have world: "?s\<lparr>st_world := st_world ?s\<rparr> = ?s" by simp
  show ?thesis
    unfolding deletion_path [OF get del] world fin
    by (simp add: example_reconciler_def mem_kube_def put_claim_def)
qed

section \<open>The steady state\<close>

lemma bound_claim_already_bound:
  assumes "condition_laws k"
  shows "already_bound (bound_claim k creds secret c)"
  using set_claim_status_ready [OF assms]
  by (simp add: already_bound_def bound_claim_def ready_condition_def)

text \<open>What the last stage writes is a steady state: the claim counts as bound, and reconciling a
  bound claim of the same generation calls no backend, writes nothing and succeeds. This holds also
  where the COSI Bucket, written after the status, is missing: that failure is not retried.\<close>

theorem bound_claim_steady:
  assumes "condition_laws (cr_kube r)"
    and "run_state (k_GetClaim (cr_kube r) ns n) (st_world s) = (Inr (bound_claim (cr_kube r) creds secret c), w1)"
    and "meta_DeletionTimestamp (claim_Meta c) = None"
    and "k_ContainsFinalizer (cr_kube r) (meta_Finalizers (claim_Meta c)) bucketClaimFinalizer"
  shows "run_state (Reconcile r ns n) s = (Done, add_metrics [duration ''unknown''] (s\<lparr>st_world := w1\<rparr>))"
proof -
  have meta: "claim_Meta (bound_claim (cr_kube r) creds secret c) = claim_Meta c"
    by (simp add: bound_claim_def)
  have "run_state (reconcile_body r ns n) s = ((''unknown'', Done), s\<lparr>st_world := w1\<rparr>)"
    using assms(2-4) bound_claim_already_bound [OF assms(1)]
    by (simp add: reconcile_body_def run_simps ensure_claim_finalizer_def meta)
  then show ?thesis by (simp add: Reconcile_run)
qed

theorem bound_claim_steady_witness:
  "mc_objects (st_world (world_after (Reconcile example_reconciler ''ns1'' ''c1'')
     (start_state (example_cluster\<lparr>mc_claims := [((''ns1'', ''c1''), example_bound)]\<rparr>)))) = []"
proof -
  let ?w = "example_cluster\<lparr>mc_claims := [((''ns1'', ''c1''), example_bound)]\<rparr>"
  let ?c = "example_claim\<lparr>claim_Meta := (claim_Meta example_claim)\<lparr>meta_Finalizers := [bucketClaimFinalizer]\<rparr>\<rparr>"
  have k: "cr_kube example_reconciler = mem_kube" by (simp add: example_reconciler_def)
  have get: "run_state (k_GetClaim (cr_kube example_reconciler) ''ns1'' ''c1'') (st_world (start_state ?w)) =
      (Inr (bound_claim (cr_kube example_reconciler) \<lparr>cred_AccessKeyID = ''ak'', cred_AccessSecretKey = ''sk'',
         cred_BucketName = ''ns1-c1'', cred_Endpoint = ''http://minio:9000''\<rparr>
         (zero_secret ''ns1'' ''c1-credentials'') ?c), ?w)"
    unfolding k example_bound_def [symmetric] by (simp add: mem_kube_def start_state_def run_simps)
  have "condition_laws (cr_kube example_reconciler)" by (simp add: k mem_condition_laws)
  moreover have "meta_DeletionTimestamp (claim_Meta ?c) = None"
    by (simp add: example_claim_def named_claim_def zero_claim_def zero_meta_def)
  moreover have "k_ContainsFinalizer (cr_kube example_reconciler) (meta_Finalizers (claim_Meta ?c)) bucketClaimFinalizer"
    by (simp add: k) (simp add: mem_kube_def)
  ultimately show ?thesis
    using bound_claim_steady [OF _ get] by (simp add: add_metrics_def example_cluster_def empty_cluster_def)
qed

section \<open>Metrics\<close>

text \<open>\<open>emits m L\<close>: a run of \<open>m\<close> adds metrics \<open>ms\<close> to those counted so far, and \<open>L\<close> holds of its result and them.\<close>

definition emits :: "(('h, 'w) op_state, 'a) state \<Rightarrow> ('a \<Rightarrow> (string \<times> string) list \<Rightarrow> bool) \<Rightarrow> bool" where
  "emits m L \<longleftrightarrow> (\<forall>s. \<exists>ms. st_metrics (world_after m s) = st_metrics s @ ms \<and> L (result_of m s) ms)"

abbreviation quiet :: "(('h, 'w) op_state, 'a) state \<Rightarrow> bool" where
  "quiet m \<equiv> emits m (\<lambda>_ ms. ms = [])"

lemma emits_ret: "L x [] \<Longrightarrow> emits (ret x) L"
  by (simp add: emits_def)

lemma emits_in_world: "(\<And>w. L (result_of m w) []) \<Longrightarrow> emits (in_world m) L"
  by (simp add: emits_def run_in_world)

lemma emits_bind:
  assumes "emits m K" and "\<And>x ms. K x ms \<Longrightarrow> emits (f x) (\<lambda>r ms'. L r (ms @ ms'))"
  shows "emits (do { x \<leftarrow> m; f x }) L"
  unfolding emits_def
proof
  fix s
  obtain x s1 where m: "run_state m s = (x, s1)" by fastforce
  from assms(1) m obtain ms where ms: "st_metrics s1 = st_metrics s @ ms" "K x ms"
    unfolding emits_def by (metis fst_conv snd_conv)
  from assms(2) [OF ms(2)] obtain ms' where
    "st_metrics (world_after (f x) s1) = st_metrics s1 @ ms'" "L (result_of (f x) s1) (ms @ ms')"
    unfolding emits_def by blast
  with m ms(1) show "\<exists>ms. st_metrics (world_after (do { x \<leftarrow> m; f x }) s) = st_metrics s @ ms \<and>
      L (result_of (do { x \<leftarrow> m; f x }) s) ms" by auto
qed

lemma emits_quiet_bind:
  assumes "quiet m" and "\<And>x. emits (f x) L"
  shows "emits (do { x \<leftarrow> m; f x }) L"
proof (rule emits_bind [OF assms(1)])
  fix x and ms :: "(string \<times> string) list"
  assume "ms = []"
  with assms(2) [of x] show "emits (f x) (\<lambda>r ms'. L r (ms @ ms'))" by simp
qed

lemma emits_if: "(b \<Longrightarrow> emits m L) \<Longrightarrow> (\<not> b \<Longrightarrow> emits m' L) \<Longrightarrow> emits (if b then m else m') L"
  by simp

lemma emits_sum:
  "(\<And>x. r = Inl x \<Longrightarrow> emits (f x) L) \<Longrightarrow> (\<And>y. r = Inr y \<Longrightarrow> emits (g y) L) \<Longrightarrow>
     emits (case r of Inl x \<Rightarrow> f x | Inr y \<Rightarrow> g y) L"
  by (cases r) simp_all

lemma emits_option:
  "(r = None \<Longrightarrow> emits m L) \<Longrightarrow> (\<And>y. r = Some y \<Longrightarrow> emits (g y) L) \<Longrightarrow>
     emits (case r of None \<Rightarrow> m | Some y \<Rightarrow> g y) L"
  by (cases r) simp_all

lemma emits_prod: "(\<And>x y. r = (x, y) \<Longrightarrow> emits (f x y) L) \<Longrightarrow> emits (case r of (x, y) \<Rightarrow> f x y) L"
  by (cases r) simp

lemma emits_val_or_err:
  assumes "quiet m" and "\<And>e. L (f e) []" and "\<And>x. emits (k x) L"
  shows "emits (val_or_err m f k) L"
  unfolding val_or_err_def using assms(2,3)
  by (intro emits_quiet_bind [OF assms(1)] emits_sum) (simp_all add: emits_ret)

lemma quiet_discard: "quiet m \<Longrightarrow> quiet (discard m)"
  by (simp add: emits_def run_discard)

lemmas emits_rules = emits_ret emits_in_world emits_quiet_bind emits_if emits_sum emits_option emits_prod
  emits_val_or_err quiet_discard

lemma quiet_cached: "quiet (minio_cached sdk cfg key rv)" "quiet (aws_cached sdk' cfg' doc key rv)"
  by (simp_all add: emits_def minio_cached_run aws_cached_run Let_def)

lemma quiet_resolver: "quiet (ProviderForClass r cls)"
  unfolding ProviderForClass_def minioProviderForClass_def awsProviderForClass_def bucket_policy_of_def
    read_policy_def Let_def
  by (intro emits_rules quiet_cached refl)

lemma quiet_notes: "quiet (noteClaimProvisioning k ns n msg)" "quiet (noteClaimNotReady k ns n reason msg)"
  unfolding noteClaimProvisioning_def noteClaimNotReady_def mergeClaimStatus_def
  by (intro emits_rules refl)+

lemma quiet_finalize: "quiet (finalizeBucketClaim r claim)"
  unfolding finalizeBucketClaim_def finalizer_access_key_def by (intro emits_rules quiet_resolver refl)

lemma quiet_cosi_bucket: "quiet (ensureCosiBucket k claim cls)"
  unfolding ensureCosiBucket_def Let_def by (intro emits_rules refl)

lemma quiet_existing_keys: "quiet (existing_keys k claim)"
  unfolding existing_keys_def by (intro emits_rules refl)

lemma quiet_write_secret: "quiet (write_secret k claim creds)"
  unfolding write_secret_def by (intro emits_rules refl)

lemmas quiet_stages = quiet_resolver quiet_notes quiet_finalize quiet_cosi_bucket quiet_existing_keys
  quiet_write_secret

text \<open>The metrics of one reconcile, beside its duration: none, a failure with its stage, or an outcome.\<close>

definition counted :: "ctrl_result \<Rightarrow> (string \<times> string) list \<Rightarrow> bool" where
  "counted x ms \<longleftrightarrow>
     (\<exists>stage. ms = failure stage) \<or>
     x = Done \<and> (ms = [] \<or> (\<exists>o1 \<in> {''not_found'', ''deleted'', ''ignored_driver''}. ms = [total o1]) \<or>
                 (\<exists>cls. ms = [(bucketsBoundTotal, cls), total ''success'']))"

lemma counted_failure: "counted x (failure stage)"
  by (auto simp: counted_def)

lemma emits_failure:
  assumes "\<And>u. quiet (f u)"
  shows "emits (do { u \<leftarrow> count_failure stage; f u }) (\<lambda>x ms. counted x ms)"
proof (rule emits_bind [where K = "\<lambda>_ ms. ms = failure stage"])
  show "emits (count_failure stage) (\<lambda>_ ms. ms = failure stage)"
    by (simp add: emits_def run_count_failure add_metrics_def)
  fix u ms
  assume ms: "ms = failure stage"
  show "emits (f u) (\<lambda>x ms'. counted x (ms @ ms'))"
    using assms [of u] counted_failure by (auto simp: emits_def ms)
qed

lemma emits_outcome:
  "o1 \<in> {''not_found'', ''deleted'', ''ignored_driver''} \<Longrightarrow>
     emits (do { u \<leftarrow> inc_total o1; ret Done }) counted"
  by (auto simp: emits_def run_simps add_metrics_def counted_def)

lemma emits_ignored:
  "quiet m \<Longrightarrow> emits (do { u \<leftarrow> inc_total ''ignored_driver''; v \<leftarrow> m; ret Done }) counted"
proof -
  assume q: "quiet m"
  show ?thesis
  proof (rule emits_bind [where K = "\<lambda>_ ms. ms = [total ''ignored_driver'']"])
    show "emits (inc_total ''ignored_driver'') (\<lambda>_ ms. ms = [total ''ignored_driver''])"
      by (simp add: emits_def run_inc_total add_metrics_def)
    fix u :: unit and ms
    assume "ms = [total ''ignored_driver'']"
    then show "emits (do { v \<leftarrow> m; ret Done }) (\<lambda>r ms'. counted r (ms @ ms'))"
      by (intro emits_quiet_bind q emits_ret) (simp add: counted_def)
  qed
qed

lemma emits_success:
  "emits (do { _ \<leftarrow> inc bucketsBoundTotal cls; _ \<leftarrow> inc_total ''success''; ret Done }) counted"
  by (simp add: emits_def run_inc run_inc_total add_metrics_def) (auto simp: counted_def)

lemma quiet_ret: "quiet (ret x)"
  by (simp add: emits_ret)

lemmas emits_stage_rules = emits_failure emits_outcome emits_ignored emits_success emits_sum emits_option
  emits_if emits_quiet_bind quiet_stages quiet_ret

lemma emits_deleted: "emits (reconcile_deleted r claim) counted"
  unfolding reconcile_deleted_def Let_def by (intro emits_stage_rules emits_in_world refl) simp_all

lemma emits_lookup: "emits (class_lookup_failed k ns n claim err) counted"
  unfolding class_lookup_failed_def by (intro emits_stage_rules)

lemma emits_resolve: "emits (resolve_failed k ns n cls err) counted"
  unfolding resolve_failed_def by (intro emits_stage_rules)

lemma emits_provisioning_failed: "emits (provisioning_failed k ns n err) counted"
  unfolding provisioning_failed_def Let_def by (intro emits_prod emits_stage_rules)

lemma emits_bind_claim: "emits (bind_claim r ns n cls creds secret) counted"
  unfolding bind_claim_def Let_def by (intro emits_stage_rules emits_in_world refl)

lemma emits_provision: "emits (reconcile_provision r ns n claim cls p) counted"
  unfolding reconcile_provision_def Let_def
  by (intro emits_stage_rules emits_in_world emits_provisioning_failed emits_bind_claim refl)

lemma emits_with_class: "emits (reconcile_with_class r ns n claim cls) counted"
  unfolding reconcile_with_class_def Let_def
  by (intro emits_stage_rules emits_resolve emits_provision)

lemma emits_finalizer:
  "emits (ensure_claim_finalizer k claim)
     (\<lambda>x ms. case x of Inl err \<Rightarrow> ms = failure ''add_finalizer'' | Inr _ \<Rightarrow> ms = [])"
  unfolding ensure_claim_finalizer_def
  by (auto simp: emits_def run_simps add_metrics_def split: prod.split sum.split)

lemma emits_named:
  "emits m counted \<Longrightarrow> emits (do { x \<leftarrow> m; ret (cls, x) }) (\<lambda>y ms. counted (snd y) ms)"
  by (rule emits_bind [where K = counted]) (simp_all add: emits_ret)

lemma emits_body: "emits (reconcile_body r ns n) (\<lambda>y ms. counted (snd y) ms)"
proof -
  have after: "emits (case f of Inl err \<Rightarrow> ret (''unknown'', Failed err)
        | Inr claim' \<Rightarrow>
            if already_bound claim' then ret (''unknown'', Done)
            else do {
              c \<leftarrow> in_world (k_GetClass (cr_kube r) (spec_BucketClassName (claim_Spec claim')));
              case c of
                Inl err \<Rightarrow> do { x \<leftarrow> class_lookup_failed (cr_kube r) ns n claim' err; ret (''unknown'', x) }
              | Inr cls \<Rightarrow> do { x \<leftarrow> reconcile_with_class r ns n claim' cls; ret (class_Name cls, x) }
            }) (\<lambda>y ms'. counted (snd y) (ms @ ms'))"
    if "case f of Inl err \<Rightarrow> ms = failure ''add_finalizer'' | Inr _ \<Rightarrow> ms = []" for f ms
  proof (cases f)
    case (Inl err)
    with that show ?thesis by (simp add: emits_ret counted_failure)
  next
    case (Inr claim')
    with that have "ms = []" by simp
    with Inr show ?thesis
      by simp (intro conjI impI emits_ret emits_quiet_bind emits_in_world emits_sum emits_named emits_lookup
          emits_with_class refl; simp add: counted_def)
  qed
  show ?thesis
    unfolding reconcile_body_def Let_def
    by (intro emits_quiet_bind emits_in_world emits_sum emits_if emits_named emits_deleted emits_outcome
        emits_failure quiet_ret emits_bind [OF emits_finalizer after] refl; simp)
qed

lemma one_collector:
  assumes "n \<in> set (map col_Name collectors)"
  shows "\<exists>!c. c \<in> set collectors \<and> col_Name c = n \<and> length (col_Labels c) = 1"
proof -
  have "distinct (map col_Name collectors)" and "\<forall>c \<in> set collectors. length (col_Labels c) = 1"
    by (simp_all add: collectors_def)
  with assms show ?thesis by (auto simp: distinct_map inj_on_def)
qed

lemma counted_names:
  assumes "counted x ms" and "m \<in> set (ms @ [duration cls])"
  shows "fst m \<in> set (map col_Name collectors)"
proof -
  have names: "set (map col_Name collectors) =
      {reconcileTotal, reconcileErrorsTotal, reconcileDurationSeconds, bucketsBoundTotal}"
    by (simp add: collectors_def)
  from assms show ?thesis
    unfolding names by (auto simp: counted_def failure_def total_def duration_def)
qed

text \<open>C37. Every reconcile observes its duration exactly once, at its end, and counts at most one outcome.
  A returned error is always counted, by its stage and in the total; success is counted once, with the
  class, and never with a failure. Each of these belongs to exactly one of the collectors that are registered,
  which has the one label it is given, so that counting never panics.\<close>

theorem reconcile_metrics:
  "\<exists>ms cls. st_metrics (world_after (Reconcile r ns n) s) = st_metrics s @ ms @ [duration cls] \<and>
     counted (result_of (Reconcile r ns n) s) ms \<and>
     length (filter (\<lambda>m. fst m = reconcileTotal) ms) \<le> 1 \<and>
     list_all (\<lambda>m. \<exists>!c. c \<in> set collectors \<and> col_Name c = fst m \<and> length (col_Labels c) = 1) (ms @ [duration cls])"
proof -
  obtain cls x s1 where run: "run_state (reconcile_body r ns n) s = ((cls, x), s1)" by (metis prod.exhaust)
  obtain ms where ms: "st_metrics s1 = st_metrics s @ ms" "counted x ms"
    using emits_body [of r ns n] run unfolding emits_def by (metis fst_conv snd_conv)
  from ms(2) have "length (filter (\<lambda>m. fst m = reconcileTotal) ms) \<le> 1"
    by (auto simp: counted_def failure_def total_def)
  moreover have "\<exists>!c. c \<in> set collectors \<and> col_Name c = fst m \<and> length (col_Labels c) = 1"
    if "m \<in> set (ms @ [duration cls])" for m
    using ms(2) that by (intro one_collector counted_names)
  ultimately show ?thesis
    using ms run by (intro exI [of _ ms] exI [of _ cls]) (simp add: Reconcile_run add_metrics_def list_all_iff)
qed

section \<open>Condition messages\<close>

lemma length_encode_rune: "length (encode_rune r) \<le> 4"
  by (simp add: encode_rune_def)

lemma length_string_of_runes: "length (string_of_runes rs) \<le> 4 * length rs"
proof (induction rs)
  case (Cons r rs)
  then show ?case using length_encode_rune [of r] by (simp add: string_of_runes_def)
qed (simp add: string_of_runes_def)

lemma decode_rune_bytes: "snd (decode_rune bs) \<le> 4"
  by (cases bs) (auto split: list.split)

lemma length_runes_of: "length bs \<le> 4 * length (runes_of bs)"
proof (induction bs rule: runes_of.induct)
  case (1 bs)
  show ?case
  proof (cases "bs = []")
    case False
    obtain r n where rn: "decode_rune bs = (r, n)" by fastforce
    with "1.IH" [OF False] have "length (drop n bs) \<le> 4 * length (runes_of (drop n bs))" by simp
    moreover have "n \<le> 4" using decode_rune_bytes [of bs] rn by simp
    moreover have "runes_of bs = r # runes_of (drop n bs)"
      using False rn by (subst runes_of.simps) simp
    ultimately show ?thesis by simp
  qed simp
qed

text \<open>C39. A condition message is cut at 1024 code points and marked; a shorter one is kept as it is. Its
  length in bytes is bounded, well below the 32768 the API allows, whatever the text of the error.\<close>

theorem condition_message_bound:
  "length (trimConditionMessage msg) \<le> 4 * 1024 + 3 \<and>
   (length (runes msg) \<le> 1024 \<longrightarrow> trimConditionMessage msg = msg) \<and>
   (1024 < length (runes msg) \<longrightarrow>
      trimConditionMessage msg = string_of_runes (take 1024 (runes msg)) @ encode_rune 0x2026)"
proof -
  have "length msg \<le> 4 * length (runes msg)"
    using length_runes_of [of "map of_char msg"] by (simp add: runes_def)
  moreover have "length (string_of_runes (take 1024 (runes msg))) \<le> 4 * 1024"
    using length_string_of_runes [of "take 1024 (runes msg)"] by simp
  ultimately show ?thesis
    by (auto simp: trimConditionMessage_def maxConditionMessageRunes_def Let_def encode_rune_def)
qed

theorem condition_message_bound_witness:
  "trimConditionMessage ''denied'' = ''denied'' \<and> length (trimConditionMessage ''denied'') \<le> 4 * 1024 + 3"
  using condition_message_bound [of "''denied''"] by (simp add: runes_ascii is_ascii_def)

section \<open>Failures after a success\<close>

text \<open>C38. A bound claim is never downgraded, nor is one that is being deleted: a failure reported for it,
  and a report of provisioning, read the claim and write nothing, and the same where it cannot be read.
  For any other claim one update of its status is sent: the phase \<^verbatim>\<open>Failed\<close> or \<^verbatim>\<open>Pending\<close>, not ready, and
  the Ready condition False with the generation, the reason and the trimmed message; the rest of the
  claim is as it was read.\<close>

theorem failure_reports:
  assumes "run_state (k_GetClaim k ns n) (st_world s) = (g, w1)"
  shows "run_state (noteClaimNotReady k ns n reason msg) s =
           ((), case g of
                Inl err \<Rightarrow> s\<lparr>st_world := w1\<rparr>
              | Inr c \<Rightarrow>
                  if k_IsStatusConditionTrue k (status_Conditions (claim_Status c)) ''Ready'' \<and>
                     status_Phase (claim_Status c) = ''Bound'' \<or> meta_DeletionTimestamp (claim_Meta c) \<noteq> None
                  then s\<lparr>st_world := w1\<rparr>
                  else s\<lparr>st_world := world_after (k_UpdateClaimStatus k (c\<lparr>claim_Status := (claim_Status c)\<lparr>
                    status_Phase := ''Failed'', status_BucketReady := False,
                    status_Conditions := k_SetStatusCondition k (status_Conditions (claim_Status c))
                      \<lparr>cond_Type = ''Ready'', cond_Status = ''False'',
                       cond_ObservedGeneration = meta_Generation (claim_Meta c), cond_Reason = reason,
                       cond_Message = trimConditionMessage msg\<rparr>\<rparr>\<rparr>)) w1\<rparr>) \<and>
         run_state (noteClaimProvisioning k ns n msg) s =
           ((), case g of
                Inl err \<Rightarrow> s\<lparr>st_world := w1\<rparr>
              | Inr c \<Rightarrow>
                  if k_IsStatusConditionTrue k (status_Conditions (claim_Status c)) ''Ready'' \<and>
                     status_Phase (claim_Status c) = ''Bound'' \<or> meta_DeletionTimestamp (claim_Meta c) \<noteq> None
                  then s\<lparr>st_world := w1\<rparr>
                  else s\<lparr>st_world := world_after (k_UpdateClaimStatus k (c\<lparr>claim_Status := (claim_Status c)\<lparr>
                    status_Phase := ''Pending'', status_BucketReady := False,
                    status_Conditions := k_SetStatusCondition k (status_Conditions (claim_Status c))
                      \<lparr>cond_Type = ''Ready'', cond_Status = ''False'',
                       cond_ObservedGeneration = meta_Generation (claim_Meta c), cond_Reason = ''Provisioning'',
                       cond_Message = trimConditionMessage msg\<rparr>\<rparr>\<rparr>)) w1\<rparr>)"
  using assms
  by (auto simp: noteClaimNotReady_def noteClaimProvisioning_def mergeClaimStatus_def is_bound_def
      set_claim_status_def ready_condition_def run_simps split: prod.splits sum.split)

theorem failure_reports_witness:
  "run_state (noteClaimNotReady mem_kube ''ns1'' ''c1'' claimReasonGrantAccessFailed ''denied'')
     (start_state (example_cluster\<lparr>mc_claims := [((''ns1'', ''c1''), example_bound)]\<rparr>)) =
   ((), start_state (example_cluster\<lparr>mc_claims := [((''ns1'', ''c1''), example_bound)]\<rparr>)) \<and>
   (\<exists>c. mc_claims (st_world (world_after (noteClaimNotReady mem_kube ''ns1'' ''c1'' claimReasonGrantAccessFailed ''denied'')
      (start_state example_cluster))) = [((''ns1'', ''c1''), c)] \<and> status_Phase (claim_Status c) = ''Failed'')"
proof
  let ?w = "example_cluster\<lparr>mc_claims := [((''ns1'', ''c1''), example_bound)]\<rparr>"
  have get: "run_state (k_GetClaim mem_kube ''ns1'' ''c1'') (st_world (start_state ?w)) = (Inr example_bound, ?w)"
    by (simp add: mem_kube_def start_state_def run_simps)
  have bound: "k_IsStatusConditionTrue mem_kube (status_Conditions (claim_Status example_bound)) ''Ready'' \<and>
      status_Phase (claim_Status example_bound) = ''Bound''"
    using set_claim_status_true [OF mem_condition_laws]
    by (simp add: example_bound_def bound_claim_def del: mem_kube_conditions)
  have same: "start_state ?w\<lparr>st_world := ?w\<rparr> = start_state ?w" by (simp add: start_state_def)
  show "run_state (noteClaimNotReady mem_kube ''ns1'' ''c1'' claimReasonGrantAccessFailed ''denied'') (start_state ?w) =
      ((), start_state ?w)"
    using failure_reports [OF get, THEN conjunct1] unfolding sum.case same if_P [OF disjI1 [OF bound]] .
  have get: "run_state (k_GetClaim mem_kube ''ns1'' ''c1'') (st_world (start_state example_cluster)) =
      (Inr example_claim, example_cluster)"
    by (simp add: mem_kube_def start_state_def example_cluster_def run_simps)
  have new: "\<not> (k_IsStatusConditionTrue mem_kube (status_Conditions (claim_Status example_claim)) ''Ready'' \<and>
      status_Phase (claim_Status example_claim) = ''Bound'' \<or> meta_DeletionTimestamp (claim_Meta example_claim) \<noteq> None)"
    by (simp add: example_claim_def named_claim_def zero_claim_def zero_meta_def)
  show "\<exists>c. mc_claims (st_world (world_after (noteClaimNotReady mem_kube ''ns1'' ''c1'' claimReasonGrantAccessFailed ''denied'')
      (start_state example_cluster))) = [((''ns1'', ''c1''), c)] \<and> status_Phase (claim_Status c) = ''Failed''"
    unfolding failure_reports [OF get, THEN conjunct1] sum.case if_not_P [OF new]
    by (simp add: mem_kube_def put_claim_def claim_key_def example_cluster_def empty_cluster_def
        example_claim_def named_claim_def zero_claim_def zero_meta_def)
qed

section \<open>Reports of a failed resolution\<close>

definition policy_class :: BucketClass where
  "policy_class = example_class\<lparr>class_Backend := ''AWS'',
     class_AwsCredentialSecretRef := Some \<lparr>sref_Name = ''aws'', sref_Namespace = ''sys''\<rparr>,
     class_BucketPolicyRef := Some \<lparr>policy_Kind = ''Secrets'', policy_Namespace = ''sys'', policy_Name = ''p'',
       policy_Key = ''k''\<rparr>\<rparr>"

lemma policy_class_error:
  "run_state (bucket_policy_of k policy_class) s =
     (Inl (ErrText (class_prefix policy_class @ ''bucketPolicyRef.kind must be ConfigMap or Secret'')), s)"
proof -
  have t: "trim_space ''p'' = ''p''" "trim_space ''Secrets'' = ''Secrets''" "trim_space ''sys'' = ''sys''"
    "trim_space ''k'' = ''k''"
    by (simp_all add: trim_space_graphic graphic_def)
  show ?thesis
    by (simp add: bucket_policy_of_def policy_class_def read_policy_def run_simps t Let_def)
qed

text \<open>A mistake in the bucket policy reference of an AWS class is reported as an invalid MinIO
  credential Secret and returned as an error, so that it is retried for ever; the mistakes in the
  AWS credential reference are reported as such and not retried.\<close>

theorem policy_mistake_misreported:
  assumes "result_of (bucket_policy_of k policy_class) s = Inl err"
  shows "resolve_failed k ns n policy_class err = do {
           _ \<leftarrow> count_failure ''minio_credentials'';
           _ \<leftarrow> noteClaimNotReady k ns n claimReasonMinioCredentialSecretInvalid (err_text err);
           ret (Failed err)
         } \<and>
         (\<forall>cls e. e = ErrText (class_prefix cls @ ''awsCredentialSecretRef is required when backend=AWS'') \<and>
            \<not> contains (err_text e) ''unsupported backend'' \<longrightarrow>
            resolve_failed k ns n cls e = do {
              _ \<leftarrow> count_failure ''minio_credentials'';
              _ \<leftarrow> noteClaimNotReady k ns n claimReasonAwsCredentialSecretInvalid (err_text e);
              ret Done
            })"
proof -
  have err: "err = ErrText (class_prefix policy_class @ ''bucketPolicyRef.kind must be ConfigMap or Secret'')"
    using assms by (simp add: policy_class_error)
  have plain: "\<not> contains (err_text err) ''unsupported backend''" "\<not> contains (err_text err) ''awsCredentialSecretRef''"
    "\<not> contains (err_text err) ''invalid AWS credential secret''"
    unfolding err by code_simp+
  have aws: "contains (class_prefix cls @ ''awsCredentialSecretRef is required when backend=AWS'')
      ''awsCredentialSecretRef''" for cls
    unfolding contains_def sublist_def
    by (rule exI [of _ "class_prefix cls"], rule exI [of _ "'' is required when backend=AWS''"]) simp
  have "\<not> is_not_found err" "\<not> is_not_implemented err" by (simp_all add: err)
  with plain aws show ?thesis by (auto simp: resolve_failed_def)
qed

theorem policy_mistake_misreported_witness:
  "result_of (resolve_failed mem_kube ''ns1'' ''c1'' policy_class
      (ErrText (class_prefix policy_class @ ''bucketPolicyRef.kind must be ConfigMap or Secret'')))
     (start_state example_cluster) =
   Failed (ErrText (class_prefix policy_class @ ''bucketPolicyRef.kind must be ConfigMap or Secret''))"
proof -
  have "result_of (bucket_policy_of mem_kube policy_class) (start_state example_cluster) =
      Inl (ErrText (class_prefix policy_class @ ''bucketPolicyRef.kind must be ConfigMap or Secret''))"
    by (simp add: policy_class_error)
  note run = policy_mistake_misreported [OF this, of "''ns1''" "''c1''", THEN conjunct1]
  show ?thesis unfolding run by (simp add: run_simps noteClaimNotReady_def)
qed

end
