(* ===== verification/Claim_Progress.thy ===== *)
theory Claim_Progress
  imports Claim_Properties "HOL-Library.While_Combinator"
begin

text \<open>
  Progress of the BucketClaim reconciler under faults. Any call to the cluster or the backend may fail,
  as long as the failures are finitely many: \<open>F\<close> bounds how many are still to come. Then a \<^verbatim>\<open>Reconcile\<close>
  binds the claim or uses up a fault and asks to be run again, and running it again as often as it asks
  ends with the claim bound. The proofs run the stages of the reconciler as triples: a precondition on the
  state, the operation, and a postcondition on its result and the state it leaves.
\<close>

section \<open>Triples\<close>

definition triple :: "('s \<Rightarrow> bool) \<Rightarrow> ('s, 'a) state \<Rightarrow> ('a \<Rightarrow> 's \<Rightarrow> bool) \<Rightarrow> bool" where
  "triple P m Q \<longleftrightarrow> (\<forall>s. P s \<longrightarrow> Q (result_of m s) (world_after m s))"

lemma tripleD: "triple P m Q \<Longrightarrow> P s \<Longrightarrow> run_state m s = (x, s1) \<Longrightarrow> Q x s1"
  unfolding triple_def by (metis fst_conv snd_conv)

lemma triple_conseq:
  "triple P m Q \<Longrightarrow> (\<And>s. P' s \<Longrightarrow> P s) \<Longrightarrow> (\<And>x s. Q x s \<Longrightarrow> Q' x s) \<Longrightarrow> triple P' m Q'"
  by (simp add: triple_def)

lemma triple_pre: "triple P m Q \<Longrightarrow> (\<And>s. P' s \<Longrightarrow> P s) \<Longrightarrow> triple P' m Q"
  by (rule triple_conseq)

lemma triple_ret: "(\<And>s. P s \<Longrightarrow> Q x s) \<Longrightarrow> triple P (ret x) Q"
  by (simp add: triple_def)

lemma triple_fact: "(b \<Longrightarrow> triple P m Q) \<Longrightarrow> triple (\<lambda>s. b \<and> P s) m Q"
  by (simp add: triple_def)

lemma triple_bind:
  assumes "triple P m R" and "\<And>x. triple (R x) (f x) Q"
  shows "triple P (do { x \<leftarrow> m; f x }) Q"
  unfolding triple_def
proof (intro allI impI)
  fix s assume "P s"
  obtain x s1 where m: "run_state m s = (x, s1)" by fastforce
  from tripleD [OF assms(1) \<open>P s\<close> m] have "R x s1" .
  then show "Q (result_of (do { x \<leftarrow> m; f x }) s) (world_after (do { x \<leftarrow> m; f x }) s)"
    using assms(2) [of x] m by (simp add: triple_def)
qed

lemma triple_if:
  "(b \<Longrightarrow> triple P m Q) \<Longrightarrow> (\<not> b \<Longrightarrow> triple P m' Q) \<Longrightarrow> triple P (if b then m else m') Q"
  by simp

lemma triple_sum:
  "(\<And>e. r = Inl e \<Longrightarrow> triple P (f e) Q) \<Longrightarrow> (\<And>x. r = Inr x \<Longrightarrow> triple P (g x) Q) \<Longrightarrow>
     triple P (case r of Inl e \<Rightarrow> f e | Inr x \<Rightarrow> g x) Q"
  by (cases r) simp_all

lemma triple_fact_after: "(b \<Longrightarrow> triple P m Q) \<Longrightarrow> triple (\<lambda>s. P s \<and> b) m Q"
  by (simp add: triple_def)

text \<open>A call that may fail, and what follows it.\<close>

lemma triple_call:
  assumes "triple P m (\<lambda>x s. case x of Inl e \<Rightarrow> E e s | Inr c \<Rightarrow> R c s)"
    and "\<And>c. triple (R c) (g c) Q" and "\<And>e. triple (E e) (f e) Q"
  shows "triple P (do { x \<leftarrow> m; case x of Inl e \<Rightarrow> f e | Inr c \<Rightarrow> g c }) Q"
proof (rule triple_bind [OF assms(1)])
  show "triple (\<lambda>s. case x of Inl e \<Rightarrow> E e s | Inr c \<Rightarrow> R c s) (case x of Inl e \<Rightarrow> f e | Inr c \<Rightarrow> g c) Q" for x
    using assms(2,3) by (cases x) auto
qed

lemma triple_call_option:
  assumes "triple P m (\<lambda>x s. case x of None \<Rightarrow> R s | Some e \<Rightarrow> E e s)"
    and "triple R g Q" and "\<And>e. triple (E e) (f e) Q"
  shows "triple P (do { x \<leftarrow> m; case x of None \<Rightarrow> g | Some e \<Rightarrow> f e }) Q"
proof (rule triple_bind [OF assms(1)])
  show "triple (\<lambda>s. case x of None \<Rightarrow> R s | Some e \<Rightarrow> E e s) (case x of None \<Rightarrow> g | Some e \<Rightarrow> f e) Q" for x
    using assms(2,3) by (cases x) auto
qed

lemma triple_discard: "triple P m (\<lambda>_ s. R s) \<Longrightarrow> triple P (discard m) (\<lambda>_ s. R s)"
  by (simp add: triple_def run_discard)

lemma triple_in_world:
  "triple P m Q \<Longrightarrow> triple (of_world P) (in_world m) (\<lambda>x s. Q x (st_world s))"
  by (simp add: triple_def run_in_world)

lemma triple_inc:
  "triple (of_world P) (inc m l) (\<lambda>_ s. P (st_world s))"
  "triple (of_world P) (inc_total l) (\<lambda>_ s. P (st_world s))"
  "triple (of_world P) (count_failure l) (\<lambda>_ s. P (st_world s))"
  by (simp_all add: triple_def run_simps inc_total_def inc_error_def count_failure_def)

lemma triple_keeps: "keeps J m Q \<Longrightarrow> triple J m (\<lambda>x s. Q x \<and> J s)"
  by (simp add: triple_def keeps_def)

section \<open>Faults\<close>

text \<open>\<open>I\<close> is an invariant of the world and \<open>F\<close> the number of faults still to come, at most \<open>f\<close> or fewer.\<close>

definition within :: "('w \<Rightarrow> bool) \<Rightarrow> ('w \<Rightarrow> nat) \<Rightarrow> nat \<Rightarrow> 'w \<Rightarrow> bool" where
  "within I F f w \<longleftrightarrow> I w \<and> F w \<le> f"

definition faulted :: "('w \<Rightarrow> bool) \<Rightarrow> ('w \<Rightarrow> nat) \<Rightarrow> nat \<Rightarrow> 'w \<Rightarrow> bool" where
  "faulted I F f w \<longleftrightarrow> I w \<and> F w < f"

lemma faulted_within: "faulted I F f w \<Longrightarrow> within I F f w"
  by (simp add: faulted_def within_def)

lemma triple_faulted:
  fixes m :: "(('h, 'w) op_state, 'a) state"
  assumes "\<And>f. triple (of_world (within I F f)) m (\<lambda>_ s. within I F f (st_world s))"
  shows "triple (of_world (faulted I F f)) m (\<lambda>_ s. faulted I F f (st_world s))"
  unfolding triple_def
proof (intro allI impI)
  fix s :: "('h, 'w) op_state" assume "faulted I F f (st_world s)"
  moreover from this have "within I F (F (st_world s)) (st_world (world_after m s))"
    using assms [of "F (st_world s)"] by (simp add: triple_def within_def faulted_def)
  ultimately show "faulted I F f (st_world (world_after m s))"
    by (simp add: within_def faulted_def)
qed

text \<open>
  A call that succeeds, taking \<open>P\<close> to \<open>R\<close>, or else uses up a fault; the error then satisfies \<open>E\<close>.
\<close>

definition attempt ::
  "('w \<Rightarrow> bool) \<Rightarrow> ('w \<Rightarrow> nat) \<Rightarrow> ('w \<Rightarrow> bool) \<Rightarrow> ('w, go_error + 'a) state \<Rightarrow> ('a \<Rightarrow> 'w \<Rightarrow> bool) \<Rightarrow>
     (go_error \<Rightarrow> bool) \<Rightarrow> bool" where
  "attempt I F P m R E \<longleftrightarrow> (\<forall>f. triple (\<lambda>w. within I F f w \<and> P w) m
     (\<lambda>x w. case x of Inl e \<Rightarrow> faulted I F f w \<and> E e | Inr c \<Rightarrow> within I F f w \<and> R c w))"

definition attempt_step ::
  "('w \<Rightarrow> bool) \<Rightarrow> ('w \<Rightarrow> nat) \<Rightarrow> ('w \<Rightarrow> bool) \<Rightarrow> ('w, go_error option) state \<Rightarrow> bool" where
  "attempt_step I F P m \<longleftrightarrow> (\<forall>f. triple (\<lambda>w. within I F f w \<and> P w) m
     (\<lambda>x w. case x of Some e \<Rightarrow> faulted I F f w | None \<Rightarrow> within I F f w \<and> P w))"

abbreviation (input) any :: "'a \<Rightarrow> bool" where "any \<equiv> \<lambda>_. True"

lemma attemptD:
  "attempt I F P m R E \<Longrightarrow> triple (\<lambda>w. within I F f w \<and> P w) m
     (\<lambda>x w. case x of Inl e \<Rightarrow> faulted I F f w \<and> E e | Inr c \<Rightarrow> within I F f w \<and> R c w)"
  by (simp add: attempt_def)

lemma attempt_stepD:
  "attempt_step I F P m \<Longrightarrow> triple (\<lambda>w. within I F f w \<and> P w) m
     (\<lambda>x w. case x of Some e \<Rightarrow> faulted I F f w | None \<Rightarrow> within I F f w \<and> P w)"
  by (simp add: attempt_step_def)

lemma attempt_anyD:
  "attempt I F any m R any \<Longrightarrow> triple (within I F f) m
     (\<lambda>x w. case x of Inl e \<Rightarrow> faulted I F f w | Inr c \<Rightarrow> within I F f w \<and> R c w)"
  by (simp add: attempt_def cong: sum.case_cong)

lemma attempt_step_anyD:
  "attempt_step I F any m \<Longrightarrow> triple (within I F f) m
     (\<lambda>x w. case x of Some e \<Rightarrow> faulted I F f w | None \<Rightarrow> within I F f w)"
  by (simp add: attempt_step_def cong: option.case_cong)

lemma attempt_inside:
  assumes "attempt I F P m R E"
  shows "triple (of_world (\<lambda>w. within I F f w \<and> P w)) (in_world m) (\<lambda>x s. case x of
     Inl e \<Rightarrow> faulted I F f (st_world s) \<and> E e | Inr c \<Rightarrow> within I F f (st_world s) \<and> R c (st_world s))"
  by (rule triple_in_world [OF attemptD [OF assms]])

lemma attempt_step_inside:
  assumes "attempt_step I F P m"
  shows "triple (of_world (\<lambda>w. within I F f w \<and> P w)) (in_world m) (\<lambda>x s. case x of
     Some e \<Rightarrow> faulted I F f (st_world s) | None \<Rightarrow> within I F f (st_world s) \<and> P (st_world s))"
  by (rule triple_in_world [OF attempt_stepD [OF assms]])

text \<open>How a run ends: done, with \<open>B\<close> of the world, or to be run again with a fault used up.\<close>

definition done_or_faulted ::
  "('w \<Rightarrow> bool) \<Rightarrow> ('w \<Rightarrow> nat) \<Rightarrow> ('w \<Rightarrow> bool) \<Rightarrow> nat \<Rightarrow> ctrl_result \<Rightarrow> ('h, 'w) op_state \<Rightarrow> bool" where
  "done_or_faulted I F B f x s \<longleftrightarrow>
     (if x = Done then within I F f (st_world s) \<and> B (st_world s) else faulted I F f (st_world s))"

section \<open>Retries\<close>

text \<open>
  controller-runtime runs a reconciler again after an error or a \<^verbatim>\<open>RequeueAfter\<close>; while it waits, others change
  the world, for the \<open>i\<close>-th time by \<open>env i\<close>. The result has the number of runs, the last result and the state.
\<close>

definition until_done ::
  "(nat \<Rightarrow> 'w \<Rightarrow> 'w) \<Rightarrow> (('h, 'w) op_state, ctrl_result) state \<Rightarrow> ('h, 'w) op_state \<Rightarrow>
     (nat \<times> ctrl_result \<times> ('h, 'w) op_state) option" where
  "until_done env m s =
     while_option (\<lambda>(i, x, s). x \<noteq> Done)
       (\<lambda>(i, x, s). (Suc i, run_state m (s\<lparr>st_world := env i (st_world s)\<rparr>)))
       (1, run_state m s)"

text \<open>The invariant of the loop: each run but the last has used up a fault of the \<open>N\<close> there were.\<close>

definition retry_invariant ::
  "('w \<Rightarrow> bool) \<Rightarrow> ('w \<Rightarrow> nat) \<Rightarrow> ('w \<Rightarrow> bool) \<Rightarrow> nat \<Rightarrow> nat \<times> ctrl_result \<times> ('h, 'w) op_state \<Rightarrow> bool" where
  "retry_invariant I F B N = (\<lambda>(i, x, s). I (st_world s) \<and>
     (if x = Done then B (st_world s) \<and> i \<le> N + 1 else i + F (st_world s) \<le> N))"

lemma retry_step:
  assumes "\<And>s f. I (st_world s) \<Longrightarrow> F (st_world s) \<le> f \<Longrightarrow> done_or_faulted I F B f (result_of m s) (world_after m s)"
    and s: "I (st_world s)" "i + F (st_world s) \<le> N"
  shows "retry_invariant I F B N (Suc i, run_state m s) \<and>
    (result_of m s \<noteq> Done \<longrightarrow> F (st_world (world_after m s)) < F (st_world s))"
  using assms(1) [OF s(1), of "F (st_world s)"] s(2)
  by (auto simp: retry_invariant_def done_or_faulted_def within_def faulted_def split: if_splits prod.split)

lemma until_done_ends:
  fixes m :: "(('h, 'w) op_state, ctrl_result) state"
  assumes run: "\<And>s f. I (st_world s) \<Longrightarrow> F (st_world s) \<le> f \<Longrightarrow> done_or_faulted I F B f (result_of m s) (world_after m s)"
    and env: "\<And>i w. I w \<Longrightarrow> I (env i w) \<and> F (env i w) \<le> F w" and s: "I (st_world s)"
  shows "\<exists>i s'. until_done env m s = Some (i, Done, s') \<and> i \<le> F (st_world s) + 1 \<and> I (st_world s') \<and> B (st_world s')"
proof -
  let ?inv = "retry_invariant I F B (F (st_world s))"
  let ?again = "\<lambda>(i, x, s). (Suc i, run_state m (s\<lparr>st_world := env i (st_world s)\<rparr>))"
  let ?left = "\<lambda>(i :: nat, x, s). if x = Done then 0 else Suc (F (st_world s))"
  note one = retry_step [where I = I and F = F and B = B and m = m, OF run]
  have start: "?inv (1, run_state m s)"
    using one [of s 0 "F (st_world s)"] s by simp
  have step: "?inv (?again t) \<and> ?left (?again t) < ?left t" if inv: "?inv t" and "(\<lambda>(i, x, s). x \<noteq> Done) t" for t
  proof -
    obtain i x s1 where t: "t = (i, x, s1)" by (rule prod_cases3)
    let ?s = "s1\<lparr>st_world := env i (st_world s1)\<rparr>"
    from that t have s1: "x \<noteq> Done" "I (st_world s1)" "i + F (st_world s1) \<le> F (st_world s)"
      by (simp_all add: retry_invariant_def)
    with env [of "st_world s1" i] have
      s: "I (st_world ?s)" "i + F (st_world ?s) \<le> F (st_world s)" "F (st_world ?s) \<le> F (st_world s1)" by simp_all
    from one [OF _ _ s(1,2)] s(3) s1(1) t show ?thesis
      by (auto split: prod.splits)
  qed
  obtain t where t: "while_option (\<lambda>(i, x, s). x \<noteq> Done) ?again (1, run_state m s) = Some t"
    using measure_while_option_Some [of ?inv "\<lambda>(i, x, s). x \<noteq> Done" ?again ?left, OF step start] by blast
  from while_option_rule [of ?inv, OF _ t start] step have "?inv t" by blast
  moreover from while_option_stop [OF t] have "fst (snd t) = Done" by (cases t) simp
  ultimately show ?thesis
    using t by (cases t) (auto simp: until_done_def retry_invariant_def)
qed

section \<open>What a binding needs\<close>

text \<open>The claim under reconciliation: of that name, with that specification, not being deleted.\<close>

definition live_claim :: "string \<Rightarrow> string \<Rightarrow> BucketClaimSpec \<Rightarrow> BucketClaim \<Rightarrow> bool" where
  "live_claim ns n spec c \<longleftrightarrow> claim_Namespace c = ns \<and> claim_Name c = n \<and> claim_Spec c = spec \<and>
     meta_DeletionTimestamp (claim_Meta c) = None"

text \<open>
  \<open>backend_tolerates\<close>: each step that the plan of the claim asks for succeeds or uses up a fault, and so
  does a grant, which yields a complete set of credentials; \<open>cluster_tolerates\<close>: the API server knows the
  claim and its class, and accepts the reconciler's writes, or uses up a fault; \<open>B\<close> says that the stored
  claim is bound. A read of the claim never fails with NotFound.
\<close>

definition complete_credentials :: "smap \<Rightarrow> bool" where
  "complete_credentials m \<longleftrightarrow> trim_space (smap_get m ''accessKeyID'') \<noteq> '''' \<and>
     trim_space (smap_get m ''accessSecretKey'') \<noteq> '''' \<and> trim_space (smap_get m ''endpoint'') \<noteq> ''''"

definition backend_tolerates ::
  "'w Provider \<Rightarrow> ('w \<Rightarrow> bool) \<Rightarrow> ('w \<Rightarrow> nat) \<Rightarrow> (BucketClaim \<Rightarrow> bool) \<Rightarrow> BucketClass \<Rightarrow> bool" where
  "backend_tolerates p I F live cls \<longleftrightarrow>
     (\<forall>c op m. live c \<and> (op, m) \<in> set (planned_steps p c cls) \<longrightarrow> attempt_step I F any m) \<and>
     (\<forall>b rs f. keeps (within I F f) (SetBucketReplication p b rs) any) \<and>
     (\<forall>b a t k s. trim_space k = k \<and> trim_space s = s \<longrightarrow>
        attempt I F any (GrantAccess p b a t k s) (\<lambda>m _. complete_credentials m) any)"

definition cluster_tolerates ::
  "'w kube \<Rightarrow> ('w \<Rightarrow> bool) \<Rightarrow> ('w \<Rightarrow> nat) \<Rightarrow> ('w \<Rightarrow> bool) \<Rightarrow> string \<Rightarrow> string \<Rightarrow> BucketClaimSpec \<Rightarrow>
     BucketClass \<Rightarrow> bool" where
  "cluster_tolerates k I F B ns n spec cls \<longleftrightarrow>
     attempt I F any (k_GetClaim k ns n)
       (\<lambda>c w. live_claim ns n spec c \<and> (already_bound c \<longrightarrow> B w)) (\<lambda>e. \<not> is_not_found e) \<and>
     (\<forall>c. live_claim ns n spec c \<longrightarrow>
        attempt I F (\<lambda>w. already_bound c \<longrightarrow> B w) (k_UpdateClaim k c)
          (\<lambda>c' w. live_claim ns n spec c' \<and> (already_bound c' \<longrightarrow> B w)) any) \<and>
     (\<forall>c. live_claim ns n spec c \<longrightarrow>
        attempt I F any (k_UpdateClaimStatus k c)
          (\<lambda>c' w. live_claim ns n spec c' \<and> (already_bound c \<longrightarrow> B w)) any) \<and>
     attempt I F any (k_GetClass k (spec_BucketClassName spec)) (\<lambda>c _. c = cls) any \<and>
     (\<forall>ns n f. keeps (within I F f) (k_GetSecret k ns n) any) \<and>
     (\<forall>m s. \<exists>s'. k_SetControllerReference k m s = Inr s') \<and>
     (\<forall>sn fill. (\<forall>s. \<exists>s'. fill s = Inr s') \<longrightarrow>
        attempt I F any (k_CreateOrUpdateSecret k ns sn fill) (\<lambda>_ _. True) any) \<and>
     (\<forall>b f. triple (\<lambda>w. within I F f w \<and> B w) (k_GetUnstructured k ''Bucket'' '''' b)
        (\<lambda>x w. case x of Inl e \<Rightarrow> if is_not_found e then within I F f w \<and> B w else faulted I F f w
               | Inr u \<Rightarrow> within I F f w \<and> B w)) \<and>
     (\<forall>u. attempt_step I F B (k_CreateUnstructured k u)) \<and>
     (\<forall>u. attempt_step I F B (k_UpdateUnstructuredStatus k u))"

lemma cluster_toleratesD:
  assumes "cluster_tolerates k I F B ns n spec cls"
  shows "attempt I F any (k_GetClaim k ns n)
       (\<lambda>c w. live_claim ns n spec c \<and> (already_bound c \<longrightarrow> B w)) (\<lambda>e. \<not> is_not_found e)"
    "live_claim ns n spec c \<Longrightarrow> attempt I F (\<lambda>w. already_bound c \<longrightarrow> B w) (k_UpdateClaim k c)
          (\<lambda>c' w. live_claim ns n spec c' \<and> (already_bound c' \<longrightarrow> B w)) any"
    "live_claim ns n spec c \<Longrightarrow> attempt I F any (k_UpdateClaimStatus k c)
          (\<lambda>c' w. live_claim ns n spec c' \<and> (already_bound c \<longrightarrow> B w)) any"
    "attempt I F any (k_GetClass k (spec_BucketClassName spec)) (\<lambda>c _. c = cls) any"
    "keeps (within I F f) (k_GetSecret k ns' n') any"
    "\<exists>s'. k_SetControllerReference k m s = Inr s'"
    "(\<And>s. \<exists>s'. fill s = Inr s') \<Longrightarrow> attempt I F any (k_CreateOrUpdateSecret k ns sn fill) (\<lambda>_ _. True) any"
    "triple (\<lambda>w. within I F f w \<and> B w) (k_GetUnstructured k ''Bucket'' '''' b)
        (\<lambda>x w. case x of Inl e \<Rightarrow> if is_not_found e then within I F f w \<and> B w else faulted I F f w
               | Inr u \<Rightarrow> within I F f w \<and> B w)"
    "attempt_step I F B (k_CreateUnstructured k u)"
    "attempt_step I F B (k_UpdateUnstructuredStatus k u)"
  using assms by (simp_all add: cluster_tolerates_def)

section \<open>Provisioning\<close>

lemma run_plan_attempt:
  "(\<And>op m. (op, m) \<in> set steps \<Longrightarrow> attempt_step I F any m) \<Longrightarrow> attempt_step I F any (run_plan b steps)"
proof (induction b steps rule: run_plan.induct)
  case (1 b)
  show ?case by (simp add: attempt_step_def triple_def)
next
  case (2 b op m steps)
  have m: "attempt_step I F any m" and rest: "attempt_step I F any (run_plan b steps)"
    using 2 by auto
  have "triple (\<lambda>w. within I F f w \<and> True) (run_plan b ((op, m) # steps))
     (\<lambda>x w. case x of Some e \<Rightarrow> faulted I F f w | None \<Rightarrow> within I F f w \<and> True)" for f
    unfolding run_plan.simps if_err_def
    by (rule triple_call_option [OF attempt_stepD [OF m] attempt_stepD [OF rest]]) (rule triple_ret, simp)
  then show ?case by (simp add: attempt_step_def)
qed

lemma provision_attempt:
  assumes b: "backend_tolerates p I F live cls" and c: "live c" and keys: "trim_space k = k" "trim_space s = s"
  shows "attempt I F any (ProvisionBucketAndGrantAccess p c cls k s) (\<lambda>_ _. True) any"
proof -
  let ?n = "provision_bucket_name c cls"
  let ?Q = "\<lambda>f x w. case x of Inl (e :: go_error) \<Rightarrow> faulted I F f w | Inr (c :: AccessCredentials) \<Rightarrow> within I F f w"
  have steps: "attempt_step I F any (run_plan ?n (planned_steps p c cls))"
    using b c by (intro run_plan_attempt) (auto simp: backend_tolerates_def)
  have grant: "triple (within I F f) (grantAccess p c ?n k s) (?Q f)" for f
  proof -
    have "attempt I F any (GrantAccess p ?n (account_id c) (spec_AccessType (claim_Spec c)) k s)
        (\<lambda>m _. complete_credentials m) any"
      using b keys by (simp add: backend_tolerates_def)
    note call = attempt_anyD [OF this, of f]
    show ?thesis
      unfolding grantAccess_def val_or_err_def
      by (rule triple_call [OF call]) (auto simp: triple_def complete_credentials_def Let_def)
  qed
  have repl: "triple (within I F f) (best_effort_replication p c cls) (\<lambda>_. within I F f)" for f
  proof -
    have "keeps (within I F f) (best_effort_replication p c cls) any"
      using b unfolding best_effort_replication_def backend_tolerates_def
      by (intro keeps_rules) auto
    then show ?thesis by (auto dest: triple_keeps)
  qed
  have plan: "triple (within I F f) (createBucketAndConfigure p c cls)
      (\<lambda>x w. case snd x of None \<Rightarrow> x = (?n, None) \<and> within I F f w | Some e \<Rightarrow> faulted I F f w)" for f
    unfolding createBucketAndConfigure_plan
    by (rule triple_call_option [OF attempt_step_anyD [OF steps]])
      (intro triple_bind [OF repl] triple_ret, simp, rule triple_ret, simp)
  have "triple (within I F f) (ProvisionBucketAndGrantAccess p c cls k s) (?Q f)" for f
    unfolding ProvisionBucketAndGrantAccess_def val_or_err_def
  proof (rule triple_bind [OF plan])
    fix x :: "string \<times> go_error option"
    have g: "triple (within I F f)
        (do { r \<leftarrow> grantAccess p c ?n k s; case r of Inl e \<Rightarrow> ret (Inl e) | Inr creds \<Rightarrow> ret (Inr creds) }) (?Q f)"
      by (rule triple_call [OF grant]) (simp_all add: triple_ret)
    show "triple (\<lambda>w. case snd x of None \<Rightarrow> x = (?n, None) \<and> within I F f w | Some e \<Rightarrow> faulted I F f w)
        (case x of (bucketName, None) \<Rightarrow>
             do { r \<leftarrow> grantAccess p c bucketName k s; case r of Inl e \<Rightarrow> ret (Inl e) | Inr creds \<Rightarrow> ret (Inr creds) }
         | (bucketName, Some e) \<Rightarrow> ret (Inl e)) (?Q f)"
    proof (cases "snd x")
      case None
      with g show ?thesis by (cases x) (auto simp: triple_def)
    next
      case (Some e)
      then show ?thesis by (cases x) (simp add: triple_ret)
    qed
  qed
  then show ?thesis by (simp add: attempt_def cong: sum.case_cong)
qed

section \<open>The stages of the reconciler\<close>

lemma set_claim_status_live [simp]:
  "live_claim ns n spec (set_claim_status k ph rdy st reason msg c) = live_claim ns n spec c"
  by (simp add: live_claim_def)

lemma to_be_run_again:
  "triple (of_world (faulted I F f)) (do { _ \<leftarrow> count_failure st; ret (Failed e) }) (done_or_faulted I F B f)"
  by (rule triple_bind [OF triple_inc(3)], rule triple_ret) (simp add: done_or_faulted_def)

lemma merge_tolerated:
  assumes k: "cluster_tolerates k I F B ns n spec cls"
    and live: "\<And>c. live_claim ns n spec (mutate c) = live_claim ns n spec c"
  shows "triple (of_world (within I F f)) (mergeClaimStatus k ns n mutate) (\<lambda>_ s. within I F f (st_world s))"
proof -
  have put: "triple (of_world (within I F f))
      (do { x \<leftarrow> in_world (k_UpdateClaimStatus k (mutate c)); case x of Inl e \<Rightarrow> ret (Some e) | Inr _ \<Rightarrow> ret None })
      (\<lambda>_ s. within I F f (st_world s))" if c: "live_claim ns n spec c" for c
  proof -
    from c have "live_claim ns n spec (mutate c)" by (simp add: live)
    note call = triple_in_world [OF attempt_anyD [OF cluster_toleratesD(3) [OF k this], of f]]
    show ?thesis
      by (rule triple_call [OF call]) (rule triple_ret, auto dest: faulted_within)+
  qed
  have rest: "triple (\<lambda>s. within I F f (st_world s) \<and> live_claim ns n spec c \<and> Q s)
      (if meta_DeletionTimestamp (claim_Meta c) \<noteq> None then ret None
       else if is_bound k c then ret None
       else do { x \<leftarrow> in_world (k_UpdateClaimStatus k (mutate c)); case x of Inl e \<Rightarrow> ret (Some e) | Inr _ \<Rightarrow> ret None })
      (\<lambda>_ s. within I F f (st_world s))" for c Q
    by (rule triple_pre [OF triple_fact [where b = "live_claim ns n spec c" and P = "of_world (within I F f)"]])
      (intro triple_if triple_ret put, auto)
  show ?thesis
    unfolding mergeClaimStatus_def val_or_err_def
    by (rule triple_call [OF triple_pre [OF attempt_inside [OF cluster_toleratesD(1) [OF k]]]])
      (simp, rule rest, rule triple_ret, auto dest: faulted_within)
qed

lemma note_tolerated:
  assumes "cluster_tolerates k I F B ns n spec cls"
  shows "triple (of_world (within I F f)) (noteClaimProvisioning k ns n msg) (\<lambda>_ s. within I F f (st_world s))"
    and "triple (of_world (within I F f)) (noteClaimNotReady k ns n reason msg) (\<lambda>_ s. within I F f (st_world s))"
  unfolding noteClaimProvisioning_def noteClaimNotReady_def
  by (intro triple_discard merge_tolerated [OF assms] set_claim_status_live)+

text \<open>A failure is counted and reported, and the claim is to be reconciled again.\<close>

lemma reported:
  assumes "cluster_tolerates k I F B ns n spec cls" and "x \<noteq> Done"
  shows "triple (of_world (faulted I F f)) (do { _ \<leftarrow> noteClaimProvisioning k ns n msg; ret x }) (done_or_faulted I F B f)"
    and "triple (of_world (faulted I F f)) (do { _ \<leftarrow> noteClaimNotReady k ns n reason msg; ret x }) (done_or_faulted I F B f)"
  by (rule triple_bind [OF triple_faulted [OF note_tolerated(1) [OF assms(1)]]], rule triple_ret,
      use assms(2) in \<open>simp add: done_or_faulted_def\<close>)
    (rule triple_bind [OF triple_faulted [OF note_tolerated(2) [OF assms(1)]]], rule triple_ret,
      use assms(2) in \<open>simp add: done_or_faulted_def\<close>)

lemma provisioning_failure_tolerated:
  assumes "cluster_tolerates k I F B ns n spec cls"
  shows "triple (of_world (faulted I F f)) (provisioning_failed k ns n err) (done_or_faulted I F B f)"
proof -
  obtain stage reason b where sel: "(case errors_as provisioning_of err of
      None \<Rightarrow> (''provisioning'', claimReasonConfigureBucketFailed, '''')
    | Some (op, b, _) \<Rightarrow> (failure_stage op, failure_reason op, b)) = (stage, reason, b)"
    by (rule prod_cases3)
  show ?thesis
    unfolding provisioning_failed_def Let_def sel prod.case
    by (rule triple_bind [OF triple_inc(3)], rule triple_if) (rule reported [OF assms]; simp)+
qed

lemma class_lookup_tolerated:
  assumes "cluster_tolerates k I F B ns n spec cls"
  shows "triple (of_world (faulted I F f)) (class_lookup_failed k ns n c err) (done_or_faulted I F B f)"
  unfolding class_lookup_failed_def
  by (rule triple_bind [OF triple_inc(3)], rule triple_if) (rule reported [OF assms]; simp)+

lemma resolve_failure_tolerated:
  assumes "cluster_tolerates k I F B ns n spec cls" and "is_not_found err \<or> \<not> skip_finalization err"
  shows "triple (of_world (faulted I F f)) (resolve_failed k ns n cls' err) (done_or_faulted I F B f)"
  using assms(2) unfolding resolve_failed_def
  by (intro triple_bind [OF triple_inc(3)] triple_if) (auto simp: skip_finalization_def intro: reported [OF assms(1)])

lemma keys_tolerated:
  assumes "cluster_tolerates k I F B ns n spec cls"
  shows "triple (of_world (within I F f)) (existing_keys k c)
    (\<lambda>x s. (trim_space (fst x) = fst x \<and> trim_space (snd x) = snd x) \<and> within I F f (st_world s))"
  using cluster_toleratesD(5) [OF assms]
  by (simp add: existing_keys_def triple_def keeps_def run_simps split: prod.split sum.split)

lemma secret_tolerated:
  assumes "cluster_tolerates k I F B ns n spec cls" and "live_claim ns n spec c"
  shows "triple (of_world (within I F f)) (write_secret k c creds)
    (\<lambda>x s. case x of Inl e \<Rightarrow> faulted I F f (st_world s) | Inr secret \<Rightarrow> within I F f (st_world s))"
proof -
  have "\<exists>s'. fill_secret k c creds s = Inr s'" for s
    unfolding fill_secret_def by (rule cluster_toleratesD(6) [OF assms(1)])
  then have "attempt I F any (k_CreateOrUpdateSecret k ns (credentials_secret_name c) (fill_secret k c creds)) (\<lambda>_ _. True) any"
    by (rule cluster_toleratesD(7) [OF assms(1)])
  from triple_in_world [OF attempt_anyD [OF this]] show ?thesis
    using assms(2) by (simp add: write_secret_def live_claim_def cong: sum.case_cong)
qed

lemma cosi_bucket_tolerated:
  assumes k: "cluster_tolerates k I F B ns n spec cls"
  shows "triple (of_world (\<lambda>w. within I F f w \<and> B w)) (ensureCosiBucket k c cls')
    (\<lambda>x s. case x of Some e \<Rightarrow> faulted I F f (st_world s) | None \<Rightarrow> within I F f (st_world s) \<and> B (st_world s))"
proof -
  let ?Q = "\<lambda>x s. case x of Some (e :: go_error) \<Rightarrow> faulted I F f (st_world s) | None \<Rightarrow> within I F f (st_world s) \<and> B (st_world s)"
  note get = triple_in_world [OF cluster_toleratesD(8) [OF k]]
  note written = attempt_step_inside [OF cluster_toleratesD(9) [OF k]] attempt_step_inside [OF cluster_toleratesD(10) [OF k]]
  have missing: "triple (\<lambda>s. if is_not_found e then within I F f (st_world s) \<and> B (st_world s) else faulted I F f (st_world s))
      (if is_not_found e then in_world (k_CreateUnstructured k u) else ret (Some e)) ?Q" for e u
  proof (cases "is_not_found e")
    case True
    then show ?thesis by simp (rule written(1))
  next
    case False
    then show ?thesis by (simp add: triple_ret)
  qed
  show ?thesis
    unfolding ensureCosiBucket_def Let_def
    by (rule triple_if, rule triple_ret, simp) (rule triple_call [OF get written(2) missing])
qed

lemma bind_tolerated:
  assumes k: "cluster_tolerates (cr_kube r) I F B ns n spec cls" and laws: "condition_laws (cr_kube r)"
  shows "triple (of_world (within I F f)) (bind_claim r ns n cls creds secret) (done_or_faulted I F B f)"
proof -
  let ?k = "cr_kube r"
  let ?success = "do { _ \<leftarrow> inc bucketsBoundTotal (class_Name cls); _ \<leftarrow> inc_total ''success''; ret Done }"
  have finish: "triple (of_world (\<lambda>w. within I F f w \<and> B w)) ?success (done_or_faulted I F B f)"
    by (intro triple_bind [OF triple_inc(1)] triple_bind [OF triple_inc(2)] triple_ret) (simp add: done_or_faulted_def)
  have status: "triple (of_world (within I F f)) (in_world (k_UpdateClaimStatus ?k (bound_claim ?k creds secret c)))
      (\<lambda>x s. case x of Inl e \<Rightarrow> faulted I F f (st_world s) | Inr c' \<Rightarrow> within I F f (st_world s) \<and> B (st_world s))"
    if "live_claim ns n spec c" for c
  proof -
    have "live_claim ns n spec (bound_claim ?k creds secret c)"
      using that by (simp add: bound_claim_def live_claim_def)
    from triple_in_world [OF attempt_anyD [OF cluster_toleratesD(3) [OF k this]]] show ?thesis
      by (rule triple_conseq) (use bound_claim_already_bound [OF laws] in \<open>auto split: sum.splits\<close>)
  qed
  have cosi: "triple (of_world (\<lambda>w. within I F f w \<and> B w))
      (do { e \<leftarrow> ensureCosiBucket ?k c cls;
            case e of None \<Rightarrow> ?success
            | Some err \<Rightarrow> do { _ \<leftarrow> count_failure ''reconcile_cosi_bucket''; ret (Failed err) } })
      (done_or_faulted I F B f)" for c
    by (rule triple_call_option [OF cosi_bucket_tolerated [OF k] finish to_be_run_again])
  show ?thesis
    unfolding bind_claim_def Let_def
  proof (rule triple_call [OF triple_pre [OF attempt_inside [OF cluster_toleratesD(1) [OF k]]]], simp)
    fix c
    show "triple (\<lambda>s. within I F f (st_world s) \<and> live_claim ns n spec c \<and> (already_bound c \<longrightarrow> B (st_world s)))
       (do { u \<leftarrow> in_world (k_UpdateClaimStatus ?k (bound_claim ?k creds secret c));
             case u of
               Inl err \<Rightarrow> do { _ \<leftarrow> count_failure ''update_status''; ret (Failed err) }
             | Inr claim' \<Rightarrow>
                 if cr_EnableCOSI r then do {
                   e \<leftarrow> ensureCosiBucket ?k claim' cls;
                   case e of None \<Rightarrow> ?success
                   | Some err \<Rightarrow> do { _ \<leftarrow> count_failure ''reconcile_cosi_bucket''; ret (Failed err) }
                 }
                 else ?success }) (done_or_faulted I F B f)"
      by (rule triple_pre [OF triple_fact [where b = "live_claim ns n spec c" and P = "of_world (within I F f)"]])
        (rule triple_call [OF status triple_if [OF cosi finish] to_be_run_again], simp_all)
  next
    fix e
    show "triple (\<lambda>s. faulted I F f (st_world s) \<and> \<not> is_not_found e)
        (do { _ \<leftarrow> count_failure ''update_status''; ret (Failed e) }) (done_or_faulted I F B f)"
      by (rule triple_pre [OF to_be_run_again]) simp
  qed
qed

lemma provision_stage_tolerated:
  assumes k: "cluster_tolerates (cr_kube r) I F B ns n spec cls" and laws: "condition_laws (cr_kube r)"
    and p: "backend_tolerates p I F (live_claim ns n spec) cls" and c: "live_claim ns n spec c"
  shows "triple (of_world (within I F f)) (reconcile_provision r ns n c cls p) (done_or_faulted I F B f)"
proof -
  let ?k = "cr_kube r"
  have noted: "triple (of_world (within I F f))
      (if \<not> is_bound ?k c then noteClaimProvisioning ?k ns n ''Provisioning bucket and access credentials'' else ret ())
      (\<lambda>_ s. within I F f (st_world s))"
    by (intro triple_if note_tolerated(1) [OF k] triple_ret)
  have secret: "triple (of_world (faulted I F f))
      (do { _ \<leftarrow> count_failure ''reconcile_secret'';
            _ \<leftarrow> noteClaimNotReady ?k ns n claimReasonReconcileSecretFailed (err_text err); ret (Failed err) })
      (done_or_faulted I F B f)" for err
    by (rule triple_bind [OF triple_inc(3) reported(2) [OF k]]) simp
  have provisioned: "triple (of_world (within I F f))
      (do { x \<leftarrow> in_world (ProvisionBucketAndGrantAccess p c cls (fst keys) (snd keys));
            case x of
              Inl err \<Rightarrow> provisioning_failed ?k ns n err
            | Inr creds \<Rightarrow> do {
                w \<leftarrow> write_secret ?k c creds;
                case w of
                  Inl err \<Rightarrow> do {
                    _ \<leftarrow> count_failure ''reconcile_secret'';
                    _ \<leftarrow> noteClaimNotReady ?k ns n claimReasonReconcileSecretFailed (err_text err);
                    ret (Failed err) }
                | Inr secret \<Rightarrow> bind_claim r ns n cls creds secret } }) (done_or_faulted I F B f)"
    if "trim_space (fst keys) = fst keys" "trim_space (snd keys) = snd keys" for keys
  proof -
    note call = triple_in_world [OF attempt_anyD [OF provision_attempt [where live = "live_claim ns n spec", OF p c that]]]
    show ?thesis
      by (rule triple_call [OF call])
        (rule triple_pre [OF triple_call [OF secret_tolerated [OF k c] bind_tolerated [OF k laws] secret]], simp,
          rule provisioning_failure_tolerated [OF k])
  qed
  show ?thesis
    unfolding reconcile_provision_def Let_def
    by (intro triple_bind [OF noted] triple_bind [OF keys_tolerated [OF k]])
      (rule triple_fact, elim conjE, rule provisioned)
qed

lemma finalizer_tolerated:
  assumes k: "cluster_tolerates k I F B ns n spec cls" and c: "live_claim ns n spec c"
  shows "triple (of_world (\<lambda>w. within I F f w \<and> (already_bound c \<longrightarrow> B w))) (ensure_claim_finalizer k c)
    (\<lambda>x s. case x of Inl e \<Rightarrow> faulted I F f (st_world s)
     | Inr c' \<Rightarrow> within I F f (st_world s) \<and> live_claim ns n spec c' \<and> (already_bound c' \<longrightarrow> B (st_world s)))"
proof -
  let ?c = "c\<lparr>claim_Meta := (claim_Meta c)\<lparr>meta_Finalizers :=
      k_AddFinalizer k (meta_Finalizers (claim_Meta c)) bucketClaimFinalizer\<rparr>\<rparr>"
  have u: "live_claim ns n spec ?c" "already_bound ?c = already_bound c"
    using c by (simp_all add: live_claim_def already_bound_def split: option.split)
  note put = attempt_inside [OF cluster_toleratesD(2) [OF k u(1)], unfolded u(2)]
  show ?thesis
    unfolding ensure_claim_finalizer_def
    by (rule triple_if, rule triple_ret, simp add: c, rule triple_call [OF put triple_ret triple_bind [OF triple_inc(3) triple_ret]])
      auto
qed

section \<open>Progress\<close>

text \<open>
  The resolver finds a backend that tolerates the faults, or uses one up with an error that is retried:
  NotFound, or none of those after which the reconciler gives up.
\<close>

definition resolver_tolerates ::
  "('c, 'h, 'w) claim_reconciler \<Rightarrow> ('w \<Rightarrow> bool) \<Rightarrow> ('w \<Rightarrow> nat) \<Rightarrow> string \<Rightarrow> string \<Rightarrow> BucketClaimSpec \<Rightarrow>
     BucketClass \<Rightarrow> bool" where
  "resolver_tolerates r I F ns n spec cls \<longleftrightarrow> (\<forall>f.
     triple (of_world (within I F f)) (ProviderForClass (cr_resolver r) (Some cls))
       (\<lambda>x s. case x of
          Inl e \<Rightarrow> faulted I F f (st_world s) \<and> (is_not_found e \<or> \<not> skip_finalization e)
        | Inr p \<Rightarrow> within I F f (st_world s) \<and> backend_tolerates p I F (live_claim ns n spec) cls))"

lemma class_tolerated:
  assumes k: "cluster_tolerates (cr_kube r) I F B ns n spec cls" and laws: "condition_laws (cr_kube r)"
    and p: "resolver_tolerates r I F ns n spec cls" and d: "class_DriverName cls = operator_driver"
    and c: "live_claim ns n spec c"
  shows "triple (of_world (within I F f)) (reconcile_with_class r ns n c cls) (done_or_faulted I F B f)"
proof -
  have provide: "triple (\<lambda>s. within I F f (st_world s) \<and> backend_tolerates mc I F (live_claim ns n spec) cls)
      (reconcile_provision r ns n c cls mc) (done_or_faulted I F B f)" for mc
    by (rule triple_fact_after, rule provision_stage_tolerated [OF k laws _ c])
  have failed: "triple (\<lambda>s. faulted I F f (st_world s) \<and> (is_not_found e \<or> \<not> skip_finalization e))
      (resolve_failed (cr_kube r) ns n cls e) (done_or_faulted I F B f)" for e
    by (rule triple_fact_after, rule resolve_failure_tolerated [OF k])
  from d show ?thesis
    unfolding reconcile_with_class_def
    by (simp add: Let_def) (rule triple_call [OF p [unfolded resolver_tolerates_def, rule_format] provide failed])
qed

lemma body_tolerated:
  fixes r :: "('c, 'h, 'w) claim_reconciler"
  assumes k: "cluster_tolerates (cr_kube r) I F B ns n spec cls" and laws: "condition_laws (cr_kube r)"
    and p: "resolver_tolerates r I F ns n spec cls" and d: "class_DriverName cls = operator_driver"
  shows "triple (of_world (within I F f)) (reconcile_body r ns n) (\<lambda>y. done_or_faulted I F B f (snd y))"
proof -
  let ?k = "cr_kube r"
  let ?Q = "\<lambda>(y :: string \<times> ctrl_result) (s :: ('h, 'w) op_state). done_or_faulted I F B f (snd y) s"
  let ?klass = "\<lambda>c. do {
      x \<leftarrow> in_world (k_GetClass ?k (spec_BucketClassName (claim_Spec c)));
      case x of
        Inl err \<Rightarrow> do { x \<leftarrow> class_lookup_failed ?k ns n c err; ret (''unknown'', x) }
      | Inr cls \<Rightarrow> do { x \<leftarrow> reconcile_with_class r ns n c cls; ret (class_Name cls, x) } }"
  have labelled: "triple P m (done_or_faulted I F B f) \<Longrightarrow> triple P (do { x \<leftarrow> m; ret (l, x) }) ?Q" for P m l
    by (erule triple_bind, rule triple_ret) simp
  have cls: "triple (of_world (within I F f)) (?klass c) ?Q" if c: "live_claim ns n spec c" for c
  proof -
    from c have spec: "claim_Spec c = spec" by (simp add: live_claim_def)
    have found: "triple (\<lambda>s. within I F f (st_world s) \<and> c' = cls)
        (do { x \<leftarrow> reconcile_with_class r ns n c c'; ret (class_Name c', x) }) ?Q" for c'
      using labelled [OF class_tolerated [OF k laws p d c]] by (cases "c' = cls") (simp_all add: triple_def)
    show ?thesis
      unfolding spec
      by (rule triple_call [OF triple_in_world [OF attempt_anyD [OF cluster_toleratesD(4) [OF k]]] found])
        (rule labelled [OF class_lookup_tolerated [OF k]])
  qed
  have decided: "triple (\<lambda>s. within I F f (st_world s) \<and> live_claim ns n spec c \<and> (already_bound c \<longrightarrow> B (st_world s)))
      (if already_bound c then ret (''unknown'', Done) else ?klass c) ?Q" for c
    by (rule triple_pre [OF triple_fact [where b = "live_claim ns n spec c" and
            P = "\<lambda>s. within I F f (st_world s) \<and> (already_bound c \<longrightarrow> B (st_world s))"]])
      (rule triple_if, rule triple_ret, simp add: done_or_faulted_def, rule triple_pre [OF cls], auto)
  have finalized: "triple (of_world (\<lambda>w. within I F f w \<and> (already_bound c \<longrightarrow> B w))) (do {
        g \<leftarrow> ensure_claim_finalizer ?k c;
        case g of
          Inl err \<Rightarrow> ret (''unknown'', Failed err)
        | Inr c' \<Rightarrow> if already_bound c' then ret (''unknown'', Done) else ?klass c' }) ?Q"
    if "live_claim ns n spec c" for c
    by (rule triple_call [OF finalizer_tolerated [OF k that] decided], rule triple_ret) (simp add: done_or_faulted_def)
  show ?thesis
    unfolding reconcile_body_def Let_def
  proof (rule triple_call [OF triple_pre [OF attempt_inside [OF cluster_toleratesD(1) [OF k]]]], simp)
    fix c
    show "triple (\<lambda>s. within I F f (st_world s) \<and> live_claim ns n spec c \<and> (already_bound c \<longrightarrow> B (st_world s)))
        (if meta_DeletionTimestamp (claim_Meta c) \<noteq> None
         then do { x \<leftarrow> reconcile_deleted r c; ret (''unknown'', x) }
         else do {
           g \<leftarrow> ensure_claim_finalizer ?k c;
           case g of
             Inl err \<Rightarrow> ret (''unknown'', Failed err)
           | Inr c' \<Rightarrow> if already_bound c' then ret (''unknown'', Done) else ?klass c' }) ?Q"
    proof (cases "live_claim ns n spec c")
      case True
      then have "meta_DeletionTimestamp (claim_Meta c) = None" by (simp add: live_claim_def)
      with finalized [OF True] True show ?thesis by simp
    qed (simp add: triple_def)
  next
    fix e
    show "triple (\<lambda>s. faulted I F f (st_world s) \<and> \<not> is_not_found e)
        (do { x \<leftarrow> if is_not_found e then do { _ \<leftarrow> inc_total ''not_found''; ret Done }
                 else do { _ \<leftarrow> count_failure ''get_claim''; ret (Failed e) }; ret (''unknown'', x) }) ?Q"
      using labelled [OF to_be_run_again] by (cases "is_not_found e") (simp_all add: triple_def)
  qed
qed

text \<open>One run, from a state with at most \<open>f\<close> faults to come.\<close>

lemma reconcile_attempt:
  assumes "cluster_tolerates (cr_kube r) I F B ns n spec cls" and "condition_laws (cr_kube r)"
    and "resolver_tolerates r I F ns n spec cls" and "class_DriverName cls = operator_driver"
    and "I (st_world s)" and "F (st_world s) \<le> f"
  shows "done_or_faulted I F B f (result_of (Reconcile r ns n) s) (world_after (Reconcile r ns n) s)"
proof -
  obtain y s1 where run: "run_state (reconcile_body r ns n) s = (y, s1)" by fastforce
  have "within I F f (st_world s)" using assms(5,6) by (simp add: within_def)
  from tripleD [OF body_tolerated [OF assms(1-4)] this run] run show ?thesis
    by (cases y) (simp add: Reconcile_run done_or_faulted_def)
qed

text \<open>C4. Progress. In a cluster that knows the claim and its class and accepts the reconciler's writes, and
  with a backend that carries out each step the claim and its class ask for and hands out complete
  credentials, except for calls that use up a fault, one reconcile of a claim that is not being deleted either
  asks to be run again with a fault used up, or ends without an error and without asking for a retry; it then
  leaves the claim bound, whatever state it was in before. Once no fault is left it is always the latter.\<close>

theorem reconcile_binds:
  assumes "cluster_tolerates (cr_kube r) I F B ns n spec cls" and "condition_laws (cr_kube r)"
    and "resolver_tolerates r I F ns n spec cls" and "class_DriverName cls = operator_driver" and "I (st_world s)"
  shows "I (st_world (world_after (Reconcile r ns n) s)) \<and>
    (if result_of (Reconcile r ns n) s = Done then B (st_world (world_after (Reconcile r ns n) s))
     else F (st_world (world_after (Reconcile r ns n) s)) < F (st_world s)) \<and>
    (F (st_world s) = 0 \<longrightarrow> result_of (Reconcile r ns n) s = Done)"
  using reconcile_attempt [OF assms, of "F (st_world s)"]
  by (auto simp: done_or_faulted_def within_def faulted_def split: if_splits)

text \<open>C5. Termination of the retries. With finitely many faults to come, \<open>F\<close> of them, and others changing the world
  in between in ways that keep the invariant and add no fault, running \<^verbatim>\<open>Reconcile\<close> again as often as it asks to
  ends, after at most \<open>F + 1\<close> runs, and it ends with the claim bound.\<close>

theorem retries_terminate:
  assumes "cluster_tolerates (cr_kube r) I F B ns n spec cls" and "condition_laws (cr_kube r)"
    and "resolver_tolerates r I F ns n spec cls" and "class_DriverName cls = operator_driver"
    and "\<And>i w. I w \<Longrightarrow> I (env i w) \<and> F (env i w) \<le> F w" and "I (st_world s)"
  shows "\<exists>i s'. until_done env (Reconcile r ns n) s = Some (i, Done, s') \<and> i \<le> F (st_world s) + 1 \<and>
    I (st_world s') \<and> B (st_world s')"
  by (rule until_done_ends [OF _ assms(5,6)]) (rule reconcile_attempt [OF assms(1-4)])

section \<open>A cluster with conflicts, for the witnesses\<close>

text \<open>The cluster in memory, where as many writes of a claim's status fail as conflicts are pending.\<close>

definition flaky_put :: "BucketClaim \<Rightarrow> (mem_cluster, go_error + BucketClaim) state" where
  "flaky_put c = State (\<lambda>w. if 0 < mc_conflicts w
     then (Inl (ErrApi ReasonConflict ''conflict''), w\<lparr>mc_conflicts := mc_conflicts w - 1\<rparr>)
     else run_state (put_claim c) w)"

definition flaky_kube :: "mem_cluster kube" where
  "flaky_kube = mem_kube\<lparr>k_UpdateClaimStatus := flaky_put\<rparr>"

definition flaky_reconciler :: "(unit, unit, mem_cluster) claim_reconciler" where
  "flaky_reconciler = example_reconciler\<lparr>cr_kube := flaky_kube\<rparr>"

definition example_ready :: "mem_cluster \<Rightarrow> bool" where
  "example_ready w \<longleftrightarrow>
     (\<exists>c. map_of (mc_claims w) (''ns1'', ''c1'') = Some c \<and> live_claim ''ns1'' ''c1'' (claim_Spec example_claim) c) \<and>
     map_of (mc_classes w) ''bc'' = Some example_class"

definition example_is_bound :: "mem_cluster \<Rightarrow> bool" where
  "example_is_bound w \<longleftrightarrow> (\<exists>c. map_of (mc_claims w) (''ns1'', ''c1'') = Some c \<and> already_bound c)"

abbreviation example_within :: "nat \<Rightarrow> mem_cluster \<Rightarrow> bool" where
  "example_within \<equiv> within example_ready mc_conflicts"

lemma example_ready_simps [simp]:
  "example_ready (w\<lparr>mc_secrets := x1\<rparr>) = example_ready w"
  "example_ready (w\<lparr>mc_objects := x2\<rparr>) = example_ready w"
  "example_ready (w\<lparr>mc_minio := x3\<rparr>) = example_ready w"
  "example_ready (w\<lparr>mc_conflicts := x4\<rparr>) = example_ready w"
  "example_is_bound (w\<lparr>mc_secrets := x1\<rparr>) = example_is_bound w"
  "example_is_bound (w\<lparr>mc_objects := x2\<rparr>) = example_is_bound w"
  by (simp_all add: example_ready_def example_is_bound_def)

lemma example_within_simps [simp]:
  "example_within f (w\<lparr>mc_secrets := x1\<rparr>) = example_within f w"
  "example_within f (w\<lparr>mc_objects := x2\<rparr>) = example_within f w"
  "example_within f (w\<lparr>mc_minio := x3\<rparr>) = example_within f w"
  by (simp_all add: within_def)

lemma example_cluster_tolerates:
  "cluster_tolerates flaky_kube example_ready mc_conflicts example_is_bound ''ns1'' ''c1'' (claim_Spec example_claim) example_class"
proof -
  let ?live = "live_claim ''ns1'' ''c1'' (claim_Spec example_claim)"
  let ?stored = "\<lambda>c c' w. ?live c' \<and> (already_bound c \<longrightarrow> example_is_bound w)"
  have cls: "spec_BucketClassName (claim_Spec example_claim) = ''bc''" by (simp add: example_claim_def)
  have stored: "example_ready (w\<lparr>mc_claims := AList.update (claim_key c) c (mc_claims w)\<rparr>) \<and>
      (already_bound c \<longrightarrow> example_is_bound (w\<lparr>mc_claims := AList.update (claim_key c) c (mc_claims w)\<rparr>))"
    if "?live c" "example_ready w" for c w
    using that by (auto simp: claim_key_def example_ready_def example_is_bound_def live_claim_def update_conv')
  have put: "attempt example_ready mc_conflicts P (put_claim c) (?stored c) any" if "?live c" for c P
    using that stored [OF that] by (auto simp: attempt_def triple_def put_claim_def within_def)
  have status: "attempt example_ready mc_conflicts any (flaky_put c) (?stored c) any" if "?live c" for c
    using that stored [OF that] by (auto simp: attempt_def triple_def flaky_put_def put_claim_def within_def faulted_def)
  have update: "attempt example_ready mc_conflicts P (put_claim c) (\<lambda>c' w. ?live c' \<and> (already_bound c' \<longrightarrow> example_is_bound w)) any"
    if "?live c" for c P
    using that stored [OF that] by (auto simp: attempt_def triple_def put_claim_def within_def)
  have get: "attempt example_ready mc_conflicts any (found mc_claims (''ns1'', ''c1'')) (\<lambda>c w. ?stored c c w) (\<lambda>e. \<not> is_not_found e)"
    by (auto simp: attempt_def triple_def run_found within_def example_ready_def example_is_bound_def)
  have klass: "attempt example_ready mc_conflicts any (found mc_classes ''bc'') (\<lambda>c _. c = example_class) any"
    by (auto simp: attempt_def triple_def run_found within_def example_ready_def)
  have secret: "keeps J (found g key) any" for J and g :: "mem_cluster \<Rightarrow> ('k \<times> 'v) list" and key
    by (simp add: keeps_def run_found)
  have object: "triple J (found g key) (\<lambda>x w. case x of Inl e \<Rightarrow> if is_not_found e then J w else faulted I F f w | Inr u \<Rightarrow> J w)"
    for J I F f and g :: "mem_cluster \<Rightarrow> ('k \<times> 'v) list" and key
    by (simp add: triple_def run_found split: option.split)
  have written: "attempt_step example_ready mc_conflicts example_is_bound (ok_after (put_object u))" for u
    by (simp add: attempt_step_def triple_def run_simps put_object_def)
  have filled: "fill s = Inl e \<Longrightarrow> \<forall>s. \<exists>s'. fill s = Inr s' \<Longrightarrow> False" for fill :: "Secret \<Rightarrow> go_error + Secret" and s e
    by (metis sum.distinct(1))
  show ?thesis
    unfolding cluster_tolerates_def
    by (simp add: flaky_kube_def mem_kube_def cls get [simplified] klass [simplified] secret object written status update
          del: split_paired_All)
      (auto simp: attempt_def triple_def put_secret_def dest!: filled split: sum.split)
qed

lemma example_grant_complete:
  assumes "trim_space k = k" and "trim_space s = s"
  shows "attempt example_ready mc_conflicts any (minio_GrantAccess cluster_minio mem_client b a t k s)
    (\<lambda>m _. complete_credentials m) any"
proof -
  have "keeps (example_within f) (minio_GrantAccess cluster_minio mem_client b a t k s) any" for f
    by (simp add: minio_GrantAccess_def cluster_minio_def mem_sdk_def keeps_def run_simps Let_def)
  moreover have "\<exists>m. result_of (minio_GrantAccess cluster_minio mem_client b a t k s) w = Inr m \<and> complete_credentials m" for w
  proof -
    obtain m w1 where "run_state (GrantAccess (minio_provider cluster_minio mem_client) b a t k s) w = (Inr m, w1)" using cluster_grant by blast
    then have m: "result_of (minio_GrantAccess cluster_minio mem_client b a t k s) w = Inr m"
      by (simp add: minio_provider_def)
    have "trim_space (minio_accessKeyForAccount a) \<noteq> ''''" "trim_space (minio_secretForAccount a) \<noteq> ''''"
      by (simp_all add: minio_key.trim_enc minio_key.enc_not_Nil visible_trim visible_secret visible_not_Nil)
    with minio_GrantAccess_map [OF m] assms m show ?thesis
      by (simp add: cluster_minio_def trim_space_graphic graphic_def complete_credentials_def)
  qed
  ultimately show ?thesis
    unfolding attempt_def triple_def keeps_def by (metis (mono_tags, lifting) sum.case(2))
qed

lemma example_resolver_tolerates:
  "resolver_tolerates flaky_reconciler example_ready mc_conflicts ''ns1'' ''c1'' (claim_Spec example_claim) example_class"
proof -
  let ?p = "minio_provider cluster_minio mem_client"
  have kind: "KindForBucketClass (Some example_class) = Inr KindMinIO" by code_simp
  have resolved: "run_state (ProviderForClass (Some example_deps) (Some example_class)) s = (Inr ?p, s)" for s
    by (simp add: ProviderForClass_def kind minioProviderForClass_def)
      (simp add: example_class_def zero_class_def default_minio_def example_deps_def)
  have tolerated: "backend_tolerates ?p example_ready mc_conflicts live example_class" for live
  proof -
    have create: "attempt_step example_ready mc_conflicts any (minio_CreateBucket cluster_minio mem_client b r l)" for b r l
      by (simp add: attempt_step_def triple_def minio_CreateBucket_def cluster_minio_def mem_sdk_def run_simps split: if_splits)
    have other: "attempt_step example_ready mc_conflicts any (minio_SetBucketQuota cluster_minio mem_client b q)"
      "attempt_step example_ready mc_conflicts any (minio_SetBucketLifecycle cluster_minio mem_client b rs)"
      "keeps (example_within f) (minio_SetBucketReplication cluster_minio mem_client b rs') any" for b q rs rs' f
      by (simp_all add: attempt_step_def triple_def minio_SetBucketQuota_def minio_SetBucketLifecycle_def
          minio_SetBucketReplication_def cluster_minio_def keeps_ret)
    have fields: "CreateBucket ?p = minio_CreateBucket cluster_minio mem_client"
      "SetBucketQuota ?p = minio_SetBucketQuota cluster_minio mem_client"
      "SetBucketLifecycle ?p = minio_SetBucketLifecycle cluster_minio mem_client"
      "SetBucketReplication ?p = minio_SetBucketReplication cluster_minio mem_client"
      "GrantAccess ?p = minio_GrantAccess cluster_minio mem_client" "ConfigureBucketSecurity ?p = None"
      by (simp_all add: minio_provider_def)
    have steps: "attempt_step example_ready mc_conflicts any m" if "(op, m) \<in> set (planned_steps ?p c example_class)" for c op m
      using that unfolding planned_steps_def fields Let_def
      by (auto simp: create other split: option.splits if_splits)
    show ?thesis
      unfolding backend_tolerates_def fields by (intro conjI allI impI) (blast intro: steps other example_grant_complete)+
  qed
  from resolved tolerated show ?thesis
    by (simp add: resolver_tolerates_def triple_def flaky_reconciler_def example_reconciler_def)
qed

lemma flaky_fields: "cr_kube flaky_reconciler = flaky_kube" "class_DriverName example_class = operator_driver"
  by (simp_all add: flaky_reconciler_def example_class_def)

lemma flaky_condition_laws: "condition_laws (cr_kube flaky_reconciler)"
  using mem_condition_laws by (simp add: condition_laws_def flaky_fields flaky_kube_def)

lemma start_world: "st_world (start_state w) = w"
  by (simp add: start_state_def)

lemma example_starts_ready: "example_ready (example_cluster\<lparr>mc_conflicts := m\<rparr>)"
  by (simp add: example_ready_def example_cluster_def live_claim_def)
    (simp add: example_claim_def named_claim_def zero_meta_def)

theorem reconcile_binds_witness:
  "result_of (Reconcile flaky_reconciler ''ns1'' ''c1'') (start_state example_cluster) = Done \<and>
   example_is_bound (st_world (world_after (Reconcile flaky_reconciler ''ns1'' ''c1'') (start_state example_cluster)))"
proof -
  have "mc_conflicts example_cluster = 0" by (simp add: example_cluster_def empty_cluster_def)
  moreover have "example_ready example_cluster"
    using example_starts_ready [of "mc_conflicts example_cluster"] by simp
  ultimately show ?thesis
    using reconcile_binds [OF _ flaky_condition_laws example_resolver_tolerates flaky_fields(2),
        of example_is_bound "start_state example_cluster"] example_cluster_tolerates
    by (simp add: flaky_fields start_world)
qed

text \<open>With five conflicts pending, at most six runs.\<close>

theorem retries_terminate_witness:
  "\<exists>i s'. until_done (\<lambda>_ w. w) (Reconcile flaky_reconciler ''ns1'' ''c1'')
       (start_state (example_cluster\<lparr>mc_conflicts := 5\<rparr>)) = Some (i, Done, s') \<and> i \<le> 6 \<and>
     example_is_bound (st_world s')"
  using retries_terminate [OF _ flaky_condition_laws example_resolver_tolerates flaky_fields(2),
      of example_is_bound "\<lambda>_ w. w" "start_state (example_cluster\<lparr>mc_conflicts := 5\<rparr>)"]
    example_cluster_tolerates example_starts_ready [of 5]
  by (auto simp: flaky_fields start_world)

end
