(* ===== verification/Json_Roundtrip.thy ===== *)
theory Json_Roundtrip
  imports Json
begin

text \<open>
  Printing and parsing: a value of ASCII strings, without numbers and with distinct member names, comes
  back from its text as the same value, its members in the order in which \<^verbatim>\<open>Marshal\<close> writes them; a Go
  map has no order of its own. The fuel of the parser, twice the length of the text, is enough for it.
\<close>

section \<open>Strings\<close>

lemma hex_value_digit: "n < 16 \<Longrightarrow> hex_value (hex_digit n) = Some n"
  by (auto simp: hex_value_def hex_digit_def Let_def)

lemma hex4_byte: "n < 256 \<Longrightarrow> hex4 (''00'' @ hex_byte n @ r) = Some n"
proof -
  assume n: "n < 256"
  have "hex_value (CHR ''0'') = Some 0" by (simp add: hex_value_def)
  moreover have "n div 16 < 16" "n mod 16 < 16" using n by auto
  ultimately show ?thesis by (simp add: hex_byte_def hex_value_digit)
qed

lemma unicode_escape_byte:
  assumes "byte c < 128"
  shows "unicode_escape (''00'' @ hex_byte (byte c) @ r) = Some (byte c, 4)"
proof -
  have "hex4 (''00'' @ hex_byte (byte c) @ r) = Some (byte c)"
    using assms by (simp only: hex4_byte)
  with assms show ?thesis unfolding unicode_escape_def by simp
qed

lemma encode_rune_byte: "byte c < 128 \<Longrightarrow> encode_rune (byte c) = [c]"
  by (simp add: encode_rune_def)

lemma char_eq_iff: "c = d \<longleftrightarrow> byte c = byte d"
  by simp

lemma parse_escape_byte:
  assumes "byte c < 128"
  shows "parse_chars (json_escape_byte c @ r) = prepend [c] (parse_chars r)"
proof -
  have u: "parse_chars ([chr 92] @ ''u00'' @ hex_byte (byte c) @ r) = prepend [c] (parse_chars r)"
  proof -
    have "drop 4 (''00'' @ hex_byte (byte c) @ r) = r" by (simp add: hex_byte_def)
    with unicode_escape_byte [OF assms, of r] encode_rune_byte [OF assms] show ?thesis by simp
  qed
  let ?n = "byte c"
  have c: "?n = k \<Longrightarrow> chr k = c" for k by auto
  consider "?n = 34 \<or> ?n = 92" | "?n = 8" | "?n = 12" | "?n = 10" | "?n = 13" | "?n = 9"
    | "?n \<notin> {34, 92, 8, 12, 10, 13, 9}" "?n < 32 \<or> ?n = 60 \<or> ?n = 62 \<or> ?n = 38"
    | "?n \<notin> {34, 92, 8, 12, 10, 13, 9}" "\<not> (?n < 32 \<or> ?n = 60 \<or> ?n = 62 \<or> ?n = 38)"
    by blast
  then show ?thesis
  proof cases
    case 1
    then have "c \<noteq> CHR ''u''" by auto
    with 1 show ?thesis by (auto simp: json_escape_byte_def simple_escape_def)
  next
    case 7
    with u show ?thesis by (simp add: json_escape_byte_def Let_def)
  next
    case 8
    then show ?thesis by (simp add: json_escape_byte_def Let_def)
  qed (simp_all add: json_escape_byte_def simple_escape_def char_eq_iff c)
qed

lemma json_escape_ascii:
  "is_ascii s \<Longrightarrow> json_escape s = concat (map json_escape_byte s)"
  by (induction s) (simp_all add: is_ascii_def json_escape.simps [of "_ # _"] json_escape.simps [of "[]"]
      split: prod.split)

lemma parse_escaped:
  "is_ascii s \<Longrightarrow> parse_chars (json_escape s @ chr 34 # r) = Some (s, r)"
proof (induction s)
  case Nil
  then show ?case by (simp add: json_escape_ascii)
next
  case (Cons c s)
  then have "byte c < 128" "is_ascii s" by (simp_all add: is_ascii_def)
  with Cons.IH have "parse_chars (concat (map json_escape_byte s) @ chr 34 # r) = Some (s, r)"
    by (simp add: json_escape_ascii)
  with Cons.prems parse_escape_byte [OF \<open>byte c < 128\<close>] show ?case
    by (simp add: json_escape_ascii prepend_def)
qed

lemma string_of_runes_ascii: "is_ascii s \<Longrightarrow> string_of_runes (runes s) = s"
  unfolding runes_ascii string_of_runes_def
  by (induction s) (simp_all add: runes_ascii is_ascii_def encode_rune_byte)

lemma parse_string_escaped:
  "is_ascii s \<Longrightarrow> parse_string (json_escape s @ chr 34 # r) = Some (s, r)"
  by (simp add: parse_string_def parse_escaped string_of_runes_ascii)


section \<open>Values\<close>

text \<open>The values covered, and the same value with its members in the order of their names.\<close>

fun plain_json :: "json \<Rightarrow> bool" where
  "plain_json (JNum n) = False"
| "plain_json (JStr s) = is_ascii s"
| "plain_json (JArr xs) = list_all plain_json xs"
| "plain_json (JObj kvs) = (distinct (map fst kvs) \<and> list_all (\<lambda>(k, v). is_ascii k \<and> plain_json v) kvs)"
| "plain_json _ = True"

fun json_sorted :: "json \<Rightarrow> json" where
  "json_sorted (JArr xs) = JArr (map json_sorted xs)"
| "json_sorted (JObj kvs) = JObj (sort_key fst (map (map_prod id json_sorted) kvs))"
| "json_sorted j = j"

lemma insort_map: "insort_key f (g x) (map g xs) = map g (insort_key (\<lambda>x. f (g x)) x xs)"
  by (induction xs) simp_all

lemma sort_map: "sort_key f (map g xs) = map g (sort_key (\<lambda>x. f (g x)) xs)"
  by (induction xs) (simp_all add: insort_map)

text \<open>The text of a value starts with a visible character that closes nothing.\<close>

lemma json_marshal_hd:
  "plain_json j \<Longrightarrow> \<exists>c r. json_marshal j = c # r \<and> byte c \<notin> {32, 9, 10, 13, 93, 125}"
  by (cases j) (auto simp: json_string_def)

lemma skip_ws_marshal: "plain_json j \<Longrightarrow> skip_ws (json_marshal j @ r) = json_marshal j @ r"
  using json_marshal_hd [of j] by auto

text \<open>One member as it is written, and the members written one after the other.\<close>

definition member_text :: "string \<times> json \<Rightarrow> string" where
  "member_text m = json_string (fst m) @ '':'' @ json_marshal (snd m)"

lemma marshal_object:
  "json_marshal (JObj kvs) = ''{'' @ join '','' (map member_text (sort_key fst kvs)) @ ''}''"
proof -
  have "sort_key fst (map (map_prod id json_marshal) kvs) = map (map_prod id json_marshal) (sort_key fst kvs)"
    by (simp add: sort_map)
  then show ?thesis by (simp add: member_text_def [abs_def] split_def comp_def)
qed

section \<open>Parsing what was printed\<close>

text \<open>What the induction below has of each part: with that much fuel its text parses to it.\<close>

definition reads :: "json \<Rightarrow> bool" where
  "reads j \<longleftrightarrow> (\<forall>n r. 2 * length (json_marshal j) \<le> n \<longrightarrow>
                  parse_value n (json_marshal j @ r) = Some (json_sorted j, r))"

lemma readsD: "reads j \<Longrightarrow> 2 * length (json_marshal j) \<le> n \<Longrightarrow>
    parse_value n (json_marshal j @ r) = Some (json_sorted j, r)"
  by (simp add: reads_def)

lemma parse_elements_marshal:
  assumes "list_all reads xs" and "xs \<noteq> []" and "2 * length (join '','' (map json_marshal xs)) < n"
  shows "parse_elements n (join '','' (map json_marshal xs) @ CHR '']'' # r) = Some (map json_sorted xs, r)"
  using assms
proof (induction xs arbitrary: n)
  case (Cons x xs)
  then obtain k where n: "n = Suc k" by (cases n) auto
  show ?case
  proof (cases xs)
    case Nil
    with Cons.prems n show ?thesis by (simp add: readsD)
  next
    case (Cons y ys)
    with Cons.IH [of k] Cons.prems n show ?thesis by (simp add: readsD)
  qed
qed simp

lemma parse_members_marshal:
  assumes "list_all (\<lambda>(k, v). is_ascii k \<and> reads v) ms" and "ms \<noteq> []"
    and "2 * length (join '','' (map member_text ms)) < n"
  shows "parse_members n (join '','' (map member_text ms) @ CHR ''}'' # r) =
           Some (map (map_prod id json_sorted) ms, r)"
  using assms
proof (induction ms arbitrary: n)
  case (Cons m ms)
  then obtain k where n: "n = Suc k" by (cases n) auto
  obtain a v where m: "m = (a, v)" by fastforce
  with Cons.prems have a: "is_ascii a" and v: "reads v" by auto
  have key: "parse_string (json_escape a @ chr 34 # s) = Some (a, s)" for s
    using a by (rule parse_string_escaped)
  show ?case
  proof (cases ms)
    case Nil
    with Cons.prems n m key v show ?thesis by (simp add: member_text_def json_string_def readsD)
  next
    case (Cons y ys)
    with Cons.IH [of k] Cons.prems n m key v show ?thesis
      by (simp add: member_text_def [of "(a, v)"] json_string_def readsD)
  qed
qed simp

lemma readsI:
  assumes "json_marshal j \<noteq> []"
    and "\<And>k r. 2 * length (json_marshal j) \<le> Suc k \<Longrightarrow>
           parse_value (Suc k) (json_marshal j @ r) = Some (json_sorted j, r)"
  shows "reads j"
  unfolding reads_def
proof (intro allI impI)
  fix n r
  assume n: "2 * length (json_marshal j) \<le> n"
  with assms(1) obtain k where "n = Suc k" by (cases n) auto
  with n assms(2) show "parse_value n (json_marshal j @ r) = Some (json_sorted j, r)" by blast
qed

lemma reads_array:
  assumes "list_all plain_json xs" and "list_all reads xs"
  shows "reads (JArr xs)"
proof (cases xs)
  case Nil
  then show ?thesis by (intro readsI) simp_all
next
  case (Cons x ys)
  let ?b = "join '','' (map json_marshal xs)"
  obtain c s where head: "?b = c # s" "byte c \<notin> {32, 9, 10, 13, 93, 125}"
    using json_marshal_hd [of x] assms(1) Cons by (cases ys) auto
  have "c \<noteq> CHR '']''" using head(2) by auto
  show ?thesis
  proof (rule readsI)
    fix k r
    assume "2 * length (json_marshal (JArr xs)) \<le> Suc k"
    then have n: "2 * length ?b < k" by simp
    have "parse_elements k (?b @ CHR '']'' # r) = Some (map json_sorted xs, r)"
      using Cons by (intro parse_elements_marshal assms(2) n) simp
    with head \<open>c \<noteq> CHR '']''\<close> show "parse_value (Suc k) (json_marshal (JArr xs) @ r) = Some (json_sorted (JArr xs), r)"
      by simp
  qed simp
qed

lemma reads_object:
  assumes "list_all (\<lambda>(k, v). is_ascii k \<and> reads v) kvs"
  shows "reads (JObj kvs)"
proof (cases kvs)
  case Nil
  then show ?thesis by (intro readsI) simp_all
next
  case (Cons x ys)
  let ?ms = "sort_key fst kvs"
  let ?b = "join '','' (map member_text ?ms)"
  have ms: "list_all (\<lambda>(k, v). is_ascii k \<and> reads v) ?ms" using assms by (simp add: list_all_iff)
  have ne: "?ms \<noteq> []"
  proof
    assume "?ms = []"
    then have "set ?ms = {}" by (simp only: list.set)
    with Cons show False by simp
  qed
  from ne obtain m ns where "?ms = m # ns" by (cases ?ms) auto
  then obtain s where head: "?b = chr 34 # s"
    by (cases ns) (auto simp: member_text_def json_string_def)
  show ?thesis
  proof (rule readsI)
    fix k r
    assume "2 * length (json_marshal (JObj kvs)) \<le> Suc k"
    then have n: "2 * length ?b < k" by (simp add: marshal_object del: json_marshal.simps)
    have "parse_members k (?b @ CHR ''}'' # r) = Some (map (map_prod id json_sorted) ?ms, r)"
      by (intro parse_members_marshal ms ne n)
    with head show "parse_value (Suc k) (json_marshal (JObj kvs) @ r) = Some (json_sorted (JObj kvs), r)"
      by (simp add: marshal_object sort_map char_eq_iff [of "chr 34"] del: json_marshal.simps)
  qed simp
qed

lemma plain_json_reads: "plain_json j \<Longrightarrow> reads j"
proof (induction j)
  case (JBool b)
  then show ?case by (intro readsI) (simp_all add: lit_rest_def)
next
  case (JStr s)
  then show ?case by (intro readsI) (simp_all add: json_string_def parse_string_escaped)
next
  case (JArr xs)
  then show ?case by (intro reads_array) (auto simp: list_all_iff)
next
  case (JObj kvs)
  then show ?case by (intro reads_object) (fastforce simp: list_all_iff)
qed (auto intro!: readsI simp: lit_rest_def)

text \<open>A map with distinct members is decoded as it is.\<close>

lemma update_distinct:
  "distinct (map fst (m @ kvs)) \<Longrightarrow> foldl (\<lambda>m (k, v). AList.update k v m) m kvs = m @ kvs"
proof (induction kvs arbitrary: m)
  case (Cons p kvs)
  obtain k v where p: "p = (k, v)" by fastforce
  with Cons.prems have "k \<notin> fst ` set m" by auto
  then have "AList.update k v m = m @ [(k, v)]" by (induction m) auto
  with Cons.IH [of "m @ [(k, v)]"] Cons.prems p show ?case by simp
qed simp

lemma make_object_distinct: "distinct (map fst kvs) \<Longrightarrow> make_object kvs = JObj kvs"
  using update_distinct [of "[]" kvs] by (simp add: make_object_def)

lemma json_any_plain: "plain_json j \<Longrightarrow> json_any j = j"
proof (induction j)
  case (JArr xs)
  then have "map json_any xs = map id xs" by (intro map_cong) (auto simp: list_all_iff)
  then show ?case by simp
next
  case (JObj kvs)
  then have "map (map_prod id json_any) kvs = map id kvs"
    by (intro map_cong) (fastforce simp: list_all_iff)+
  with JObj show ?case by (simp add: make_object_distinct)
qed simp_all

lemma distinct_sort_fst: "distinct (map fst kvs) \<Longrightarrow> distinct (map fst (sort_key fst kvs))"
  by (metis distinct_map distinct_sort set_sort)

lemma plain_json_sorted: "plain_json j \<Longrightarrow> plain_json (json_sorted j)"
proof (induction j)
  case (JArr xs)
  then show ?case by (simp add: list_all_iff)
next
  case (JObj kvs)
  then have "distinct (map fst (map (map_prod id json_sorted) kvs))" by (simp add: comp_def)
  with JObj show ?case by (auto simp: list_all_iff simp del: map_map intro!: distinct_sort_fst)
qed simp_all

text \<open>The round trip.\<close>

lemma json_members_marshal: "plain_json j \<Longrightarrow> json_members (json_marshal j) = Some (json_sorted j)"
  using readsD [OF plain_json_reads, of j "2 * length (json_marshal j) + 1" "[]"]
  by (simp add: json_members_def)

lemma json_parse_marshal: "plain_json j \<Longrightarrow> json_parse (json_marshal j) = Some (json_sorted j)"
  by (simp add: json_parse_def json_members_marshal json_any_plain plain_json_sorted)

end
