(* ===== verification/Bucketaccess_Controller.thy ===== *)
theory Bucketaccess_Controller
  imports Bucketclaim_Controller Json_Roundtrip
begin

text \<open>
  The controller of COSI BucketAccess objects, internal/controller/bucketaccess_controller.go: it
  grants access to the bucket of a bound claim and writes the credentials to a Secret in the COSI
  \<^verbatim>\<open>BucketInfo\<close> format, and on deletion revokes the access, with the key it reads back from that Secret.
\<close>

section \<open>Constants and the reconciler\<close>

definition bucketAccessFinalizer :: string where
  "bucketAccessFinalizer = ''cosi.objectstorage.k8s.io/bucketaccess-finalizer''"

definition access_accessKeyForAccount :: "string \<Rightarrow> string" where
  "access_accessKeyForAccount accountID =
     (let normalized = to_lower (filter is_alnum accountID);
          cut = (if length normalized > 12 then take 12 normalized else normalized);
          body = (if cut = '''' then ''user'' else cut)
      in ''cosi'' @ body)"

record ('c, 'h, 'w) access_reconciler =
  ar_kube :: "'w kube"
  ar_resolver :: "('c, 'h, 'w) resolver_deps option"

definition providerForClaim ::
  "('c, 'h, 'w) access_reconciler \<Rightarrow> BucketClaim \<Rightarrow> (('h, 'w) op_state, go_error + 'w Provider) state" where
  "providerForClaim r claim =
     val_or_err (in_world (k_GetClass (ar_kube r) (spec_BucketClassName (claim_Spec claim)))) Inl
       (\<lambda>cls. ProviderForClass (ar_resolver r) (Some cls))"

section \<open>Reading an object tree\<close>

text \<open>Type assertions of Go, with the zero value where they fail.\<close>

fun json_map :: "json option \<Rightarrow> (string \<times> json) list" where
  "json_map (Some (JObj kvs)) = kvs"
| "json_map _ = []"

fun json_str :: "json option \<Rightarrow> string" where
  "json_str (Some (JStr s)) = s"
| "json_str _ = ''''"

fun json_true :: "json option \<Rightarrow> bool" where
  "json_true (Some (JBool b)) = b"
| "json_true _ = False"

text \<open>
  Decoding into a struct: the members of an object whose name is the field's, whatever its case; a
  value of another type is skipped. All of them are decoded, in their order, into the one field.
\<close>

fun struct_field :: "string \<Rightarrow> json \<Rightarrow> json list" where
  "struct_field name (JObj kvs) = map snd (filter (\<lambda>(k, v). equal_fold k name) kvs)"
| "struct_field name _ = []"

fun decode_string :: "string \<Rightarrow> json \<Rightarrow> string" where
  "decode_string old (JStr s) = s"
| "decode_string old _ = old"

definition bucket_info_access_key :: "string \<Rightarrow> string" where
  "bucket_info_access_key raw =
     (case json_members raw of
        None \<Rightarrow> ''''
      | Some payload \<Rightarrow>
          foldl decode_string ''''
            (concat (map (struct_field ''accessKeyID'')
              (concat (map (struct_field ''s3'') (struct_field ''spec'' payload))))))"

section \<open>Deletion\<close>

definition access_bucket_name :: "BucketClaim \<Rightarrow> string" where
  "access_bucket_name claim =
     (let b = trim_space (status_BucketName (claim_Status claim));
          b1 = (if b = '''' then trim_space (spec_BucketName (claim_Spec claim)) else b);
          b2 = (if b1 = '''' then claim_Namespace claim @ ''-'' @ claim_Name claim else b1)
      in to_lower b2)"

definition recorded_access_key ::
  "'w kube \<Rightarrow> string \<Rightarrow> string \<Rightarrow> string \<Rightarrow> (('h, 'w) op_state, string) state" where
  "recorded_access_key k ns secretName accountID = do {
     r \<leftarrow> in_world (k_GetSecret k ns secretName);
     let key = (case r of
                  Inl _ \<Rightarrow> ''''
                | Inr secret \<Rightarrow>
                    (case map_of (secret_Data secret) ''BucketInfo'' of
                       None \<Rightarrow> ''''
                     | Some raw \<Rightarrow> trim_space (bucket_info_access_key raw)));
     ret (if key = '''' then access_accessKeyForAccount accountID else key)
   }"

definition backend_unavailable :: "go_error \<Rightarrow> bool" where
  "backend_unavailable err \<longleftrightarrow> is_not_implemented err \<or> contains (err_text err) ''unsupported backend''"

definition release_access :: "'w kube \<Rightarrow> Unstructured \<Rightarrow> (('h, 'w) op_state, ctrl_result) state" where
  "release_access k ba =
     val_or_err (in_world (k_UpdateUnstructured k (ba\<lparr>u_Meta := (u_Meta ba)\<lparr>meta_Finalizers :=
         k_RemoveFinalizer k (meta_Finalizers (u_Meta ba)) bucketAccessFinalizer\<rparr>\<rparr>)))
       Failed (\<lambda>_. ret Done)"

definition delete_access ::
  "('c, 'h, 'w) access_reconciler \<Rightarrow> string \<Rightarrow> string \<Rightarrow> string \<Rightarrow> string \<Rightarrow> Unstructured \<Rightarrow>
     (('h, 'w) op_state, ctrl_result) state" where
  "delete_access r ns bucketClaimName credentialsSecretName accountID ba =
     (let k = ar_kube r in
      if \<not> k_ContainsFinalizer k (meta_Finalizers (u_Meta ba)) bucketAccessFinalizer then ret Done
      else do {
        g \<leftarrow> in_world (k_GetClaim k ns bucketClaimName);
        case g of
          Inl err \<Rightarrow> if is_not_found err then release_access k ba else ret (Failed err)
        | Inr claim \<Rightarrow> do {
            accessKeyID \<leftarrow> recorded_access_key k ns credentialsSecretName accountID;
            p \<leftarrow> providerForClaim r claim;
            case p of
              Inl err \<Rightarrow> ret (if backend_unavailable err then RequeueAfter 15 else Failed err)
            | Inr provider \<Rightarrow> do {
                e \<leftarrow> in_world (RevokeAccess provider (access_bucket_name claim) accountID accessKeyID);
                case e of
                  Some _ \<Rightarrow> ret (RequeueAfter 5)
                | None \<Rightarrow> do {
                    _ \<leftarrow> in_world (k_DeleteSecret k ns credentialsSecretName);
                    release_access k ba
                  }
              }
          }
      })"

section \<open>The grant\<close>

definition bucket_info :: "smap \<Rightarrow> json" where
  "bucket_info creds =
     (let ep = trim_space (smap_get creds ''endpoint'') in
      JObj [(''spec'', JObj [(''s3'', JObj
        ([(''accessKeyID'', JStr (smap_get creds ''accessKeyID'')),
          (''accessSecretKey'', JStr (smap_get creds ''accessSecretKey''))] @
         (if ep \<noteq> '''' then [(''endpoint'', JStr ep)] else [])))])])"

definition access_secret :: "string \<Rightarrow> string \<Rightarrow> string \<Rightarrow> Secret" where
  "access_secret ns n raw =
     \<lparr>secret_Namespace = ns, secret_Name = n, secret_Type = ''Opaque'', secret_ResourceVersion = '''',
      secret_Data = [(''BucketInfo'', raw)], secret_StringData = [], secret_Owners = []\<rparr>"

definition write_access_secret ::
  "'w kube \<Rightarrow> string \<Rightarrow> string \<Rightarrow> string \<Rightarrow> (('h, 'w) op_state, go_error option) state" where
  "write_access_secret k ns n raw = do {
     r \<leftarrow> in_world (k_GetSecret k ns n);
     case r of
       Inl err \<Rightarrow> if is_not_found err then in_world (k_CreateSecret k (access_secret ns n raw)) else ret (Some err)
     | Inr existing \<Rightarrow>
         in_world (k_UpdateSecret k (existing\<lparr>secret_Data := AList.update ''BucketInfo'' raw (secret_Data existing)\<rparr>))
   }"

definition granted_status :: "string \<Rightarrow> json" where
  "granted_status accountID = JObj [(''accessGranted'', JBool True), (''accountID'', JStr accountID)]"

definition grant_credentials ::
  "('c, 'h, 'w) access_reconciler \<Rightarrow> string \<Rightarrow> string \<Rightarrow> string \<Rightarrow> string \<Rightarrow> Unstructured \<Rightarrow> 'w Provider \<Rightarrow>
     (('h, 'w) op_state, ctrl_result) state" where
  "grant_credentials r ns credentialsSecretName accountID bucketName ba provider =
     (let k = ar_kube r in do {
        c \<leftarrow> in_world (GrantAccess provider bucketName accountID AccessTypeReadWrite '''' '''');
        case c of
          Inl _ \<Rightarrow> ret (RequeueAfter 5)
        | Inr creds \<Rightarrow>
            if_err (write_access_secret k ns credentialsSecretName (json_marshal (bucket_info creds))) Failed
              (if_err (in_world (k_UpdateUnstructuredStatus k
                   (ba\<lparr>u_Object := AList.update ''status'' (granted_status accountID) (u_Object ba)\<rparr>))) Failed
                (ret Done))
      })"

definition grant_access ::
  "('c, 'h, 'w) access_reconciler \<Rightarrow> string \<Rightarrow> string \<Rightarrow> string \<Rightarrow> string \<Rightarrow> Unstructured \<Rightarrow>
     (('h, 'w) op_state, ctrl_result) state" where
  "grant_access r ns bucketClaimName credentialsSecretName accountID ba =
     (let k = ar_kube r in do {
        g \<leftarrow> in_world (k_GetClaim k ns bucketClaimName);
        case g of
          Inl err \<Rightarrow> ret (if is_not_found err then RequeueAfter 5 else Failed err)
        | Inr claim \<Rightarrow>
            if \<not> status_BucketReady (claim_Status claim) \<or> trim_space (status_BucketName (claim_Status claim)) = ''''
            then ret (RequeueAfter 3)
            else do {
              p \<leftarrow> providerForClaim r claim;
              case p of
                Inl err \<Rightarrow>
                  ret (if backend_unavailable err then RequeueAfter 15
                       else if is_not_found err then RequeueAfter 5 else Failed err)
              | Inr provider \<Rightarrow>
                  grant_credentials r ns credentialsSecretName accountID
                    (to_lower (trim_space (status_BucketName (claim_Status claim)))) ba provider
            }
      })"

section \<open>Reconcile\<close>

definition ensure_access_finalizer ::
  "'w kube \<Rightarrow> Unstructured \<Rightarrow> (('h, 'w) op_state, go_error + Unstructured) state" where
  "ensure_access_finalizer k ba =
     (if k_ContainsFinalizer k (meta_Finalizers (u_Meta ba)) bucketAccessFinalizer then ret (Inr ba)
      else in_world (k_UpdateUnstructured k (ba\<lparr>u_Meta := (u_Meta ba)\<lparr>meta_Finalizers :=
             k_AddFinalizer k (meta_Finalizers (u_Meta ba)) bucketAccessFinalizer\<rparr>\<rparr>)))"

definition access_account_id :: "string \<Rightarrow> string \<Rightarrow> string" where
  "access_account_id ns n = ns @ ''-'' @ n"

text \<open>The status is read before the finalizer is added, and tested after it.\<close>

definition access_Reconcile ::
  "('c, 'h, 'w) access_reconciler \<Rightarrow> string \<Rightarrow> string \<Rightarrow> (('h, 'w) op_state, ctrl_result) state" where
  "access_Reconcile r ns n =
     (let k = ar_kube r in do {
        g \<leftarrow> in_world (k_GetUnstructured k ''BucketAccess'' ns n);
        case g of
          Inl err \<Rightarrow> ret (if is_not_found err then Done else Failed err)
        | Inr ba \<Rightarrow>
            (let spec = json_map (map_of (u_Object ba) ''spec'');
                 status = json_map (map_of (u_Object ba) ''status'');
                 bucketClaimName = json_str (map_of spec ''bucketClaimName'');
                 credentialsSecretName = json_str (map_of spec ''credentialsSecretName'');
                 accountID = access_account_id ns n
             in
             if bucketClaimName = '''' \<or> credentialsSecretName = '''' then ret Done
             else if meta_DeletionTimestamp (u_Meta ba) \<noteq> None
             then delete_access r ns bucketClaimName credentialsSecretName accountID ba
             else val_or_err (ensure_access_finalizer k ba) Failed
               (\<lambda>ba'. if json_true (map_of status ''accessGranted'') then ret Done
                      else grant_access r ns bucketClaimName credentialsSecretName accountID ba'))
      })"

section \<open>Lemmas: the key read back\<close>

lemma access_accessKey_eq: "access_accessKeyForAccount = minio_accessKeyForAccount"
  by (simp add: fun_eq_iff access_accessKeyForAccount_def minio_accessKeyForAccount_def)

interpretation access_key: account_name access_accessKeyForAccount "''cosi''" 12 lower_alnum
  unfolding access_accessKey_eq by (rule minio_key.account_name_axioms)

definition graphic_creds :: "smap \<Rightarrow> bool" where
  "graphic_creds creds \<longleftrightarrow>
     (\<forall>k \<in> {''accessKeyID'', ''accessSecretKey'', ''endpoint''}. list_all graphic (smap_get creds k))"

lemma plain_bucket_info: "graphic_creds creds \<Longrightarrow> plain_json (bucket_info creds)"
  by (auto simp: graphic_creds_def bucket_info_def Let_def graphic_ascii graphic_trim)
    (simp_all add: is_ascii_def)

lemma sorted_bucket_info: "json_sorted (bucket_info creds) = bucket_info creds"
  by (simp add: bucket_info_def Let_def)

lemma struct_field_bucket_info:
  "graphic_creds creds \<Longrightarrow>
     bucket_info_access_key (json_marshal (bucket_info creds)) = smap_get creds ''accessKeyID''"
  unfolding bucket_info_access_key_def
  by (simp add: json_members_marshal plain_bucket_info sorted_bucket_info)
    (simp add: bucket_info_def Let_def equal_fold_ascii is_ascii_def fold_rune_def)

lemma recorded_access_key_run:
  assumes "run_state (k_GetSecret k ns n) (st_world s) = (r, w)"
  shows "run_state (recorded_access_key k ns n a) s =
    ((let key = (case r of Inl _ \<Rightarrow> ''''
                 | Inr secret \<Rightarrow> (case map_of (secret_Data secret) ''BucketInfo'' of None \<Rightarrow> ''''
                                  | Some raw \<Rightarrow> trim_space (bucket_info_access_key raw)))
      in if key = '''' then access_accessKeyForAccount a else key), s\<lparr>st_world := w\<rparr>)"
  using assms by (simp add: recorded_access_key_def run_in_world Let_def)

text \<open>
  What the Secret of a grant is when the BucketAccess is deleted: unreadable, or with the \<^verbatim>\<open>BucketInfo\<close>
  that the grant wrote, whatever else is in it.
\<close>

definition secret_intact :: "smap \<Rightarrow> go_error + Secret \<Rightarrow> bool" where
  "secret_intact creds r \<longleftrightarrow>
     (case r of Inl _ \<Rightarrow> True
      | Inr secret \<Rightarrow> map_of (secret_Data secret) ''BucketInfo'' = Some (json_marshal (bucket_info creds)))"

lemma recorded_access_key_intact:
  assumes "run_state (k_GetSecret k ns n) (st_world s) = (r, w)" and "secret_intact creds r"
    and "graphic_creds creds" and "smap_get creds ''accessKeyID'' \<noteq> ''''"
  shows "result_of (recorded_access_key k ns n a) s =
           (if isl r then access_accessKeyForAccount a else smap_get creds ''accessKeyID'')"
proof -
  have "list_all graphic (smap_get creds ''accessKeyID'')" using assms(3) by (simp add: graphic_creds_def)
  with assms show ?thesis
    by (cases r) (simp_all add: recorded_access_key_run secret_intact_def struct_field_bucket_info graphic_trim)
qed

lemma minio_key_for_grant:
  assumes "result_of (GrantAccess (minio_provider sdk c) b a t '''' '''') w = Inr creds"
    and "list_all graphic (mg_EndpointURL sdk (client_s3 c))"
  shows "graphic_creds creds" "smap_get creds ''accessKeyID'' = minio_accessKeyForAccount a"
proof -
  have "creds = [(''accessKeyID'', minio_accessKeyForAccount a), (''accessSecretKey'', minio_secretForAccount a),
      (''bucketName'', b), (''endpoint'', mg_EndpointURL sdk (client_s3 c))]"
    using minio_GrantAccess_map [of sdk c b a t "''''" "''''" w creds] assms(1) by (simp add: minio_provider_def)
  with assms(2) show "graphic_creds creds" "smap_get creds ''accessKeyID'' = minio_accessKeyForAccount a"
    by (simp_all add: graphic_creds_def minio_key.graphic_enc minio_secret_graphic)
qed

section \<open>Lemmas: a backend with other deletions\<close>

lemma same_run_providerForClaim:
  assumes "ar_resolver r = Some d"
  shows "same_run (providerForClaim r claim) (providerForClaim (r\<lparr>ar_resolver := Some (other_deletion f g d)\<rparr>) claim)"
  unfolding providerForClaim_def
  by (simp add: assms) (intro same_run_val_or_err resolve_other_deletion)

text \<open>Two operations that resolve a provider, with continuations that agree on related providers.\<close>

lemma same_run_bind:
  assumes "same_run m m'" and "\<And>e. k (Inl e) = k' (Inl e)" and "\<And>p x. k' (Inr (p\<lparr>DeleteBucket := x\<rparr>)) = k (Inr p)"
  shows "do { r \<leftarrow> m'; k' r } = do { r \<leftarrow> m; k r }"
proof (rule state_ext)
  fix s
  obtain a s1 where m: "run_state m s = (a, s1)" by fastforce
  obtain a' s1' where m': "run_state m' s = (a', s1')" by fastforce
  from assms(1) have "world_after m' s = world_after m s" "same_but_deletion (result_of m s) (result_of m' s)"
    unfolding same_run_def by blast+
  with m m' have s1: "s1' = s1" and rel: "same_but_deletion a a'" by simp_all
  show "run_state (do { r \<leftarrow> m'; k' r }) s = run_state (do { r \<leftarrow> m; k r }) s"
  proof (cases a)
    case (Inl e)
    with rel m m' s1 assms(2) show ?thesis by simp
  next
    case (Inr p)
    with rel obtain x where "a' = Inr (p\<lparr>DeleteBucket := x\<rparr>)" by auto
    with Inr m m' s1 assms(3) show ?thesis by simp
  qed
qed

lemma access_other_deletion:
  "run_state (access_Reconcile (r\<lparr>ar_resolver := map_option (\<lambda>d. d\<lparr>rd_minio := (rd_minio d)\<lparr>mg_RemoveBucket := f\<rparr>,
      rd_aws := (rd_aws d)\<lparr>s3_DeleteBucket := g\<rparr>\<rparr>) (ar_resolver r)\<rparr>) ns n) s = run_state (access_Reconcile r ns n) s"
proof (cases "ar_resolver r")
  case None
  then have same: "r\<lparr>ar_resolver := None\<rparr> = r" by simp
  show ?thesis unfolding None option.map same ..
next
  case (Some d)
  let ?r = "r\<lparr>ar_resolver := Some (other_deletion f g d)\<rparr>"
  have kube: "ar_kube ?r = ar_kube r" by simp
  have same: "do { p \<leftarrow> providerForClaim ?r claim; case p of Inl err \<Rightarrow> e err | Inr q \<Rightarrow> h q } =
      do { p \<leftarrow> providerForClaim r claim; case p of Inl err \<Rightarrow> e err | Inr q \<Rightarrow> h q }"
    if "\<And>q x. h (q\<lparr>DeleteBucket := x\<rparr>) = h q" for e h claim
    by (rule same_run_bind [OF same_run_providerForClaim [OF Some]]) (simp_all add: that)
  have creds: "grant_credentials ?r = grant_credentials r"
    unfolding grant_credentials_def kube ..
  have creds_other: "grant_credentials r ns sn a b ba (q\<lparr>DeleteBucket := x\<rparr>) = grant_credentials r ns sn a b ba q"
    for ns sn a b ba q x
    unfolding grant_credentials_def by simp
  have same_grant: "do { p \<leftarrow> providerForClaim ?r claim; case p of Inl err \<Rightarrow> e err | Inr q \<Rightarrow> grant_credentials r ns sn a b ba q } =
      do { p \<leftarrow> providerForClaim r claim; case p of Inl err \<Rightarrow> e err | Inr q \<Rightarrow> grant_credentials r ns sn a b ba q }"
    for e claim ns sn a b ba
    by (rule same) (rule creds_other)
  have grant: "grant_access ?r = grant_access r"
    unfolding grant_access_def kube creds same_grant ..
  have delete: "delete_access ?r = delete_access r"
    unfolding delete_access_def kube by (subst same) simp_all
  show ?thesis
    unfolding Some option.map access_Reconcile_def other_deletion_def [symmetric] grant delete kube ..
qed

text \<open>C33. The controller never deletes a bucket, whatever the class's deletion policy, on any path: its run
  and its result are the same whatever the deletion calls of the two backends would do.\<close>

theorem access_never_deletes_bucket:
  "run_state (access_Reconcile (r\<lparr>ar_resolver := map_option (\<lambda>d. d\<lparr>rd_minio := (rd_minio d)\<lparr>mg_RemoveBucket := f\<rparr>,
      rd_aws := (rd_aws d)\<lparr>s3_DeleteBucket := g\<rparr>\<rparr>) (ar_resolver r)\<rparr>) ns n) s = run_state (access_Reconcile r ns n) s"
  by (rule access_other_deletion)

section \<open>Deletion\<close>

text \<open>A BucketAccess that asks for the claim \<open>cn\<close> and the Secret \<open>sn\<close>.\<close>

definition asks_for :: "Unstructured \<Rightarrow> string \<Rightarrow> string \<Rightarrow> bool" where
  "asks_for ba cn sn \<longleftrightarrow>
     json_str (map_of (json_map (map_of (u_Object ba) ''spec'')) ''bucketClaimName'') = cn \<and> cn \<noteq> '''' \<and>
     json_str (map_of (json_map (map_of (u_Object ba) ''spec'')) ''credentialsSecretName'') = sn \<and> sn \<noteq> ''''"

lemma access_Reconcile_deleted:
  assumes "run_state (k_GetUnstructured (ar_kube r) ''BucketAccess'' ns n) (st_world s) = (Inr ba, w)"
    and "asks_for ba cn sn" and "meta_DeletionTimestamp (u_Meta ba) \<noteq> None"
  shows "run_state (access_Reconcile r ns n) s =
           run_state (delete_access r ns cn sn (access_account_id ns n) ba) (s\<lparr>st_world := w\<rparr>)"
  using assms by (auto simp: access_Reconcile_def asks_for_def run_in_world Let_def)

lemma release_access_run:
  "run_state (release_access k ba) s =
     (case run_state (k_UpdateUnstructured k (ba\<lparr>u_Meta := (u_Meta ba)\<lparr>meta_Finalizers :=
          k_RemoveFinalizer k (meta_Finalizers (u_Meta ba)) bucketAccessFinalizer\<rparr>\<rparr>)) (st_world s) of
        (Inl err, w) \<Rightarrow> (Failed err, s\<lparr>st_world := w\<rparr>) | (Inr _, w) \<Rightarrow> (Done, s\<lparr>st_world := w\<rparr>))"
  by (auto simp: release_access_def run_simps split: prod.split sum.split)

text \<open>The finalizer of a BucketAccess whose claim is there, call by call.\<close>

lemma providerForClaim_run:
  assumes "run_state (k_GetClass (ar_kube r) (spec_BucketClassName (claim_Spec claim))) (st_world s) = (cls, w)"
  shows "run_state (providerForClaim r claim) s =
     (case cls of Inl err \<Rightarrow> (Inl err, s\<lparr>st_world := w\<rparr>)
      | Inr c \<Rightarrow> run_state (ProviderForClass (ar_resolver r) (Some c)) (s\<lparr>st_world := w\<rparr>))"
  using assms by (simp add: providerForClaim_def run_simps split: sum.split)

lemma delete_access_run:
  assumes "k_ContainsFinalizer (ar_kube r) (meta_Finalizers (u_Meta ba)) bucketAccessFinalizer"
    and "run_state (k_GetClaim (ar_kube r) ns cn) (st_world s) = (Inr claim, w2)"
    and "run_state (k_GetSecret (ar_kube r) ns sn) w2 = (secret, w3)"
    and "run_state (k_GetClass (ar_kube r) (spec_BucketClassName (claim_Spec claim))) w3 = (cls, w4)"
  shows "run_state (delete_access r ns cn sn a ba) s =
     (case (case cls of Inl err \<Rightarrow> (Inl err, s\<lparr>st_world := w4\<rparr>)
            | Inr c \<Rightarrow> run_state (ProviderForClass (ar_resolver r) (Some c)) (s\<lparr>st_world := w4\<rparr>)) of
        (Inl err, s2) \<Rightarrow> (if backend_unavailable err then RequeueAfter 15 else Failed err, s2)
      | (Inr p, s2) \<Rightarrow>
          (case run_state (RevokeAccess p (access_bucket_name claim) a
              (result_of (recorded_access_key (ar_kube r) ns sn a) (s\<lparr>st_world := w2\<rparr>))) (st_world s2) of
             (Some _, w) \<Rightarrow> (RequeueAfter 5, s2\<lparr>st_world := w\<rparr>)
           | (None, w) \<Rightarrow> run_state (release_access (ar_kube r) ba)
               (s2\<lparr>st_world := world_after (k_DeleteSecret (ar_kube r) ns sn) w\<rparr>)))"
proof -
  obtain key where key: "run_state (recorded_access_key (ar_kube r) ns sn a) (s\<lparr>st_world := w2\<rparr>) =
      (key, s\<lparr>st_world := w3\<rparr>)"
    using recorded_access_key_run [of "ar_kube r" ns sn "s\<lparr>st_world := w2\<rparr>"] assms(3) by simp
  have "run_state (providerForClaim r claim) (s\<lparr>st_world := w3\<rparr>) =
      (case cls of Inl err \<Rightarrow> (Inl err, s\<lparr>st_world := w4\<rparr>)
       | Inr c \<Rightarrow> run_state (ProviderForClass (ar_resolver r) (Some c)) (s\<lparr>st_world := w4\<rparr>))"
    using providerForClaim_run [of r claim "s\<lparr>st_world := w3\<rparr>"] assms(4) by (cases cls) simp_all
  with assms(1,2) key show ?thesis
    by (simp add: delete_access_def run_simps Let_def split: prod.split option.split sum.split)
qed

lemma release_not_requeued: "result_of (release_access k ba) s \<noteq> RequeueAfter t"
  by (simp add: release_access_run split: prod.split sum.split)

text \<open>C14. Deletion, call by call. Where the claim is gone, the finalizer is taken off with no call to a
  backend. Otherwise the access is revoked on the claim's bucket: the recorded name, else the
  specified one, else namespace and name, lower-cased; and with the key read back from the Secret, else
  the one derived from the account. Where the provider cannot be resolved or the revocation failed
  nothing is written and it is tried again or the error returned; after a revocation the Secret is
  deleted, whether or not that works, and then the object is updated without this finalizer. Neither
  backend reports a failed revocation, so with them it always comes to that, also where the user is
  still there.\<close>

theorem access_deletion_path:
  fixes r :: "('c, 'h, 'w) access_reconciler" and s :: "('h, 'w) op_state"
  assumes ba: "run_state (k_GetUnstructured (ar_kube r) ''BucketAccess'' ns n) (st_world s) = (Inr ba, w1)"
    and asks: "asks_for ba cn sn" and del: "meta_DeletionTimestamp (u_Meta ba) \<noteq> None"
    and fin: "k_ContainsFinalizer (ar_kube r) (meta_Finalizers (u_Meta ba)) bucketAccessFinalizer"
    and claim: "run_state (k_GetClaim (ar_kube r) ns cn) w1 = (g, w2)"
  shows "let k = ar_kube r; account = ns @ ''-'' @ n;
             released = (\<lambda>s1 :: ('h, 'w) op_state.
               case run_state (k_UpdateUnstructured k (ba\<lparr>u_Meta := (u_Meta ba)\<lparr>meta_Finalizers :=
                   k_RemoveFinalizer k (meta_Finalizers (u_Meta ba)) bucketAccessFinalizer\<rparr>\<rparr>)) (st_world s1) of
                 (Inl err, w) \<Rightarrow> (Failed err, s1\<lparr>st_world := w\<rparr>) | (Inr _, w) \<Rightarrow> (Done, s1\<lparr>st_world := w\<rparr>));
             unresolved = (\<lambda>err. if is_not_implemented err \<or> contains (err_text err) ''unsupported backend''
               then RequeueAfter 15 else Failed err)
         in (\<forall>err. g = Inl err \<longrightarrow> run_state (access_Reconcile r ns n) s =
               (if is_not_found err then released (s\<lparr>st_world := w2\<rparr>) else (Failed err, s\<lparr>st_world := w2\<rparr>))) \<and>
            (\<forall>claim secret w3 cls w4. g = Inr claim \<and> run_state (k_GetSecret k ns sn) w2 = (secret, w3) \<and>
               run_state (k_GetClass k (spec_BucketClassName (claim_Spec claim))) w3 = (cls, w4) \<longrightarrow>
               (\<forall>err. cls = Inl err \<longrightarrow>
                  run_state (access_Reconcile r ns n) s = (unresolved err, s\<lparr>st_world := w4\<rparr>)) \<and>
               (\<forall>c err s2. cls = Inr c \<and>
                  run_state (ProviderForClass (ar_resolver r) (Some c)) (s\<lparr>st_world := w4\<rparr>) = (Inl err, s2) \<longrightarrow>
                  run_state (access_Reconcile r ns n) s = (unresolved err, s2)) \<and>
               (\<forall>c p s2. cls = Inr c \<and>
                  run_state (ProviderForClass (ar_resolver r) (Some c)) (s\<lparr>st_world := w4\<rparr>) = (Inr p, s2) \<longrightarrow>
                  (let recorded = trim_space (status_BucketName (claim_Status claim));
                       named = (if recorded = '''' then trim_space (spec_BucketName (claim_Spec claim)) else recorded);
                       bucket = to_lower (if named = '''' then claim_Namespace claim @ ''-'' @ claim_Name claim else named);
                       written = (case secret of Inl _ \<Rightarrow> '''' | Inr sec \<Rightarrow>
                         (case map_of (secret_Data sec) ''BucketInfo'' of None \<Rightarrow> ''''
                          | Some raw \<Rightarrow> trim_space (bucket_info_access_key raw)));
                       key = (if written = '''' then minio_accessKeyForAccount account else written)
                   in case run_state (RevokeAccess p bucket account key) (st_world s2) of
                        (Some _, w) \<Rightarrow> run_state (access_Reconcile r ns n) s = (RequeueAfter 5, s2\<lparr>st_world := w\<rparr>)
                      | (None, w) \<Rightarrow> run_state (access_Reconcile r ns n) s =
                          released (s2\<lparr>st_world := world_after (k_DeleteSecret k ns sn) w\<rparr>)) \<and>
                  (bucket_provider p \<longrightarrow> (\<forall>t. result_of (access_Reconcile r ns n) s \<noteq> RequeueAfter t))))"
proof -
  let ?a = "access_account_id ns n"
  have run: "run_state (access_Reconcile r ns n) s = run_state (delete_access r ns cn sn ?a ba) (s\<lparr>st_world := w1\<rparr>)"
    by (rule access_Reconcile_deleted [OF ba asks del])
  have never: "bucket_provider p \<Longrightarrow> run_state (RevokeAccess p b a key) w \<noteq> (Some e, w')" for p b a key w e w'
    using bucket_provider.revoke_ok [of p b a key w] by auto
  have gone: "run_state (access_Reconcile r ns n) s =
      (if is_not_found err then run_state (release_access (ar_kube r) ba) (s\<lparr>st_world := w2\<rparr>)
       else (Failed err, s\<lparr>st_world := w2\<rparr>))" if "g = Inl err" for err
    using that fin claim unfolding run by (simp add: delete_access_def run_simps Let_def)
  have key: "result_of (recorded_access_key (ar_kube r) ns sn ?a) (s\<lparr>st_world := w2\<rparr>) =
      (let written = (case secret of Inl _ \<Rightarrow> '''' | Inr sec \<Rightarrow>
         (case map_of (secret_Data sec) ''BucketInfo'' of None \<Rightarrow> ''''
          | Some raw \<Rightarrow> trim_space (bucket_info_access_key raw)))
       in if written = '''' then minio_accessKeyForAccount ?a else written)"
    if "run_state (k_GetSecret (ar_kube r) ns sn) w2 = (secret, w3)" for secret w3
    using that unfolding access_accessKey_eq [symmetric] by (simp add: recorded_access_key_run)
  have twice: "(s :: ('h, 'w) op_state)\<lparr>st_world := x, st_world := y\<rparr> = s\<lparr>st_world := y\<rparr>" for x y by simp
  have there: "run_state (access_Reconcile r ns n) s =
     (case (case cls of Inl err \<Rightarrow> (Inl err, s\<lparr>st_world := w4\<rparr>)
            | Inr c \<Rightarrow> run_state (ProviderForClass (ar_resolver r) (Some c)) (s\<lparr>st_world := w4\<rparr>)) of
        (Inl err, s2) \<Rightarrow> (if backend_unavailable err then RequeueAfter 15 else Failed err, s2)
      | (Inr p, s2) \<Rightarrow>
          (case run_state (RevokeAccess p (access_bucket_name c) ?a
              (result_of (recorded_access_key (ar_kube r) ns sn ?a) (s\<lparr>st_world := w2\<rparr>))) (st_world s2) of
             (Some _, w) \<Rightarrow> (RequeueAfter 5, s2\<lparr>st_world := w\<rparr>)
           | (None, w) \<Rightarrow> run_state (release_access (ar_kube r) ba)
               (s2\<lparr>st_world := world_after (k_DeleteSecret (ar_kube r) ns sn) w\<rparr>)))"
    if "g = Inr c \<and> run_state (k_GetSecret (ar_kube r) ns sn) w2 = (secret, w3) \<and>
      run_state (k_GetClass (ar_kube r) (spec_BucketClassName (claim_Spec c))) w3 = (cls, w4)" for c secret w3 cls w4
    unfolding run
    by (rule delete_access_run [OF fin, of ns cn "s\<lparr>st_world := w1\<rparr>" c w2 sn secret w3 cls w4 ?a, unfolded twice])
      (use that claim in simp_all)
  show ?thesis
    unfolding Let_def
  proof ((intro conjI allI impI; (elim conjE)?), goal_cases)
    case (1 err)
    then show ?case by (simp add: gone release_access_run)
  next
    case (2 c secret w3 cls w4 err)
    then show ?case by (simp add: there [of c secret w3 cls w4] backend_unavailable_def)
  next
    case (3 c secret w3 cls w4 c' err s2)
    then show ?case by (simp add: there [of c secret w3 cls w4] backend_unavailable_def)
  next
    case (4 c secret w3 cls w4 c' p s2)
    then have run: "run_state (access_Reconcile r ns n) s =
      (case run_state (RevokeAccess p (access_bucket_name c) ?a
          (result_of (recorded_access_key (ar_kube r) ns sn ?a) (s\<lparr>st_world := w2\<rparr>))) (st_world s2) of
         (Some _, w) \<Rightarrow> (RequeueAfter 5, s2\<lparr>st_world := w\<rparr>)
       | (None, w) \<Rightarrow> run_state (release_access (ar_kube r) ba)
           (s2\<lparr>st_world := world_after (k_DeleteSecret (ar_kube r) ns sn) w\<rparr>))"
      by (simp add: there [of c secret w3 cls w4])
    from 4 have get: "run_state (k_GetSecret (ar_kube r) ns sn) w2 = (secret, w3)" by simp
    from run show ?case
      unfolding key [OF get]
      unfolding access_account_id_def access_bucket_name_def release_access_run Let_def
      by (simp split: prod.split option.split)
  next
    case (5 c secret w3 cls w4 c' p s2 t)
    then show ?case by (simp add: there [of c secret w3 cls w4] never release_not_requeued split: prod.split option.split)
  qed
qed


definition example_access :: Unstructured where
  "example_access =
     \<lparr>u_Kind = ''BucketAccess'',
      u_Meta = zero_meta\<lparr>meta_Namespace := ''ns1'', meta_Name := ''a1'', meta_Finalizers := [bucketAccessFinalizer]\<rparr>,
      u_Object = [(''spec'', JObj [(''bucketClaimName'', JStr ''c1''), (''credentialsSecretName'', JStr ''cred'')])]\<rparr>"

definition deleted_access :: Unstructured where
  "deleted_access = example_access\<lparr>u_Meta := (u_Meta example_access)\<lparr>meta_DeletionTimestamp := Some 1\<rparr>\<rparr>"

definition access_cluster :: "Unstructured \<Rightarrow> mem_cluster" where
  "access_cluster ba = example_cluster\<lparr>mc_claims := [((''ns1'', ''c1''), example_bound)],
     mc_objects := [((''BucketAccess'', ''ns1'', ''a1''), ba)]\<rparr>"

definition example_access_reconciler :: "(unit, unit, mem_cluster) access_reconciler" where
  "example_access_reconciler = \<lparr>ar_kube = mem_kube, ar_resolver = Some example_deps\<rparr>"

lemma example_access_asks: "asks_for example_access ''c1'' ''cred''" "asks_for deleted_access ''c1'' ''cred''"
  by (simp_all add: asks_for_def deleted_access_def example_access_def)

lemma example_resolves:
  "run_state (ProviderForClass (Some example_deps) (Some example_class)) s =
     (Inr (minio_provider cluster_minio mem_client), s)"
  by (simp add: ProviderForClass_def example_class_def zero_class_def KindForBucketClass_def example_deps_def
      minioProviderForClass_def default_minio_def run_simps)

theorem access_deletion_path_witness:
  "result_of (access_Reconcile example_access_reconciler ''ns1'' ''a1'')
     (start_state (access_cluster deleted_access)) = Done"
proof -
  let ?r = example_access_reconciler and ?s = "start_state (access_cluster deleted_access)"
  let ?w = "access_cluster deleted_access" and ?p = "minio_provider cluster_minio mem_client"
  have r: "ar_kube ?r = mem_kube" "ar_resolver ?r = Some example_deps" and w: "st_world ?s = ?w" "?s\<lparr>st_world := ?w\<rparr> = ?s"
    by (simp_all add: example_access_reconciler_def start_state_def)
  have ba: "run_state (k_GetUnstructured (ar_kube ?r) ''BucketAccess'' ''ns1'' ''a1'') (st_world ?s) = (Inr deleted_access, ?w)"
    by (simp add: r w) (simp add: mem_kube_def access_cluster_def run_simps)
  have del: "meta_DeletionTimestamp (u_Meta deleted_access) \<noteq> None"
    by (simp add: deleted_access_def)
  have fin: "k_ContainsFinalizer (ar_kube ?r) (meta_Finalizers (u_Meta deleted_access)) bucketAccessFinalizer"
    by (simp add: r) (simp add: mem_kube_def deleted_access_def example_access_def)
  have claim: "run_state (k_GetClaim (ar_kube ?r) ''ns1'' ''c1'') ?w = (Inr example_bound, ?w)"
    by (simp add: r) (simp add: mem_kube_def access_cluster_def run_simps)
  have secret: "run_state (k_GetSecret mem_kube ''ns1'' ''cred'') ?w = (Inl (ErrApi ReasonNotFound ''not found''), ?w)"
    by (simp add: mem_kube_def access_cluster_def example_cluster_def empty_cluster_def run_simps)
  have cls: "run_state (k_GetClass mem_kube (spec_BucketClassName (claim_Spec example_bound))) ?w = (Inr example_class, ?w)"
    by (simp add: mem_kube_def access_cluster_def example_cluster_def example_bound_def bound_claim_def example_claim_def run_simps)
  have never: "run_state (RevokeAccess ?p b a key) w \<noteq> (Some e, w')" for b a key w e w'
    using bucket_provider.revoke_ok [OF minio_backend.bucket_provider_axioms, of cluster_minio mem_client b a key w]
    by auto
  have stored: "run_state (k_UpdateUnstructured mem_kube u) w \<noteq> (Inl e, w')" for u w e w'
    by (simp add: mem_kube_def)
  from access_deletion_path [OF ba example_access_asks(2) del fin claim, unfolded Let_def r w, THEN conjunct2,
      rule_format, OF conjI [OF refl conjI [OF secret cls]], THEN conjunct2, THEN conjunct2, rule_format,
      OF conjI [OF refl example_resolves], THEN conjunct1]
  show ?thesis by (simp add: never stored split: prod.splits option.splits sum.splits)
qed

section \<open>The key that is revoked\<close>

text \<open>C34. The key round trip: the access key a grant wrote into the Secret as JSON is the one the finalizer
  reads back; where the Secret cannot be read the key is computed from the account, which for a grant
  by MinIO is again the one handed out.\<close>

theorem access_key_roundtrip:
  assumes "run_state (k_GetSecret k ns sn) (st_world s) = (r, w)" and "secret_intact creds r"
    and "graphic_creds creds" and "smap_get creds ''accessKeyID'' \<noteq> ''''"
  shows "result_of (recorded_access_key k ns sn a) s =
           (if isl r then access_accessKeyForAccount a else smap_get creds ''accessKeyID'') \<and>
         (\<forall>w0. result_of (GrantAccess (minio_provider sdk c) b a t '''' '''') w0 = Inr creds \<longrightarrow>
            result_of (recorded_access_key k ns sn a) s = smap_get creds ''accessKeyID'')"
proof -
  have "smap_get creds ''accessKeyID'' = minio_accessKeyForAccount a"
    if "result_of (GrantAccess (minio_provider sdk c) b a t '''' '''') w0 = Inr creds" for w0
    using minio_GrantAccess_map [of sdk c b a t "''''" "''''" w0 creds] that by (simp add: minio_provider_def)
  then show ?thesis
    unfolding recorded_access_key_intact [OF assms] by (auto simp: access_accessKey_eq)
qed

definition access_creds :: smap where
  "access_creds = [(''accessKeyID'', ''AKIA1''), (''accessSecretKey'', ''s/+''), (''endpoint'', ''http://m:9000'')]"

theorem access_key_roundtrip_witness:
  "result_of (recorded_access_key mem_kube ''ns1'' ''cred'' ''ns1-a1'') (start_state (empty_cluster\<lparr>mc_secrets :=
     [((''ns1'', ''cred''), access_secret ''ns1'' ''cred'' (json_marshal (bucket_info access_creds)))]\<rparr>)) = ''AKIA1''"
proof -
  let ?secret = "access_secret ''ns1'' ''cred'' (json_marshal (bucket_info access_creds))"
  let ?w = "empty_cluster\<lparr>mc_secrets := [((''ns1'', ''cred''), ?secret)]\<rparr>"
  have get: "run_state (k_GetSecret mem_kube ''ns1'' ''cred'') (st_world (start_state ?w)) = (Inr ?secret, ?w)"
    by (simp add: mem_kube_def start_state_def run_simps)
  have creds: "secret_intact access_creds (Inr ?secret)" "graphic_creds access_creds"
    "smap_get access_creds ''accessKeyID'' = ''AKIA1''"
    by (simp_all add: secret_intact_def access_secret_def graphic_creds_def access_creds_def graphic_def)
  show ?thesis
    using conjunct1 [OF access_key_roundtrip [OF get creds(1,2), of "''ns1-a1''"]] creds(3) by simp
qed

section \<open>The grant\<close>

definition granted_access :: "string \<Rightarrow> Unstructured \<Rightarrow> Unstructured" where
  "granted_access accountID ba =
     ba\<lparr>u_Object := AList.update ''status'' (granted_status accountID) (u_Object ba)\<rparr>"

lemma granted_access_steady:
  assumes "run_state (k_GetUnstructured (ar_kube r) ''BucketAccess'' ns n) (st_world s) = (Inr (granted_access a ba), w)"
    and "asks_for ba cn sn" and "meta_DeletionTimestamp (u_Meta ba) = None"
    and "k_ContainsFinalizer (ar_kube r) (meta_Finalizers (u_Meta ba)) bucketAccessFinalizer"
  shows "run_state (access_Reconcile r ns n) s = (Done, s\<lparr>st_world := w\<rparr>)"
  using assms by (auto simp: access_Reconcile_def granted_access_def asks_for_def granted_status_def Let_def
      ensure_access_finalizer_def update_conv run_simps)

lemma last_write: "(s :: ('h, 'w) op_state)\<lparr>st_world := x, st_world := y\<rparr> = s\<lparr>st_world := y\<rparr>"
  by simp

lemma world_write: "st_world (s\<lparr>st_world := x\<rparr>) = x"
  by simp

lemma providerForClaim_Inr:
  "run_state (providerForClaim r claim) s = (Inr p, s') \<longleftrightarrow>
     (\<exists>cls w. run_state (k_GetClass (ar_kube r) (spec_BucketClassName (claim_Spec claim))) (st_world s) = (Inr cls, w) \<and>
        run_state (ProviderForClass (ar_resolver r) (Some cls)) (s\<lparr>st_world := w\<rparr>) = (Inr p, s'))"
  by (auto simp: providerForClaim_def run_simps prod_eq_iff split: prod.splits sum.splits)

lemma ensure_access_finalizer_Inr:
  "run_state (ensure_access_finalizer k ba) s = (Inr ba', s') \<longleftrightarrow>
     (if k_ContainsFinalizer k (meta_Finalizers (u_Meta ba)) bucketAccessFinalizer then ba' = ba \<and> s' = s
      else \<exists>w. run_state (k_UpdateUnstructured k (ba\<lparr>u_Meta := (u_Meta ba)\<lparr>meta_Finalizers :=
             k_AddFinalizer k (meta_Finalizers (u_Meta ba)) bucketAccessFinalizer\<rparr>\<rparr>)) (st_world s) = (Inr ba', w) \<and>
           s' = s\<lparr>st_world := w\<rparr>)"
  by (auto simp: ensure_access_finalizer_def run_simps prod_eq_iff)

lemma write_access_secret_None:
  "run_state (write_access_secret k ns n raw) s = (None, s') \<longleftrightarrow>
     (\<exists>secret w w'. run_state (k_GetSecret k ns n) (st_world s) = (secret, w) \<and>
        (case secret of
           Inl err \<Rightarrow> is_not_found err \<and> run_state (k_CreateSecret k (access_secret ns n raw)) w = (None, w')
         | Inr old \<Rightarrow> run_state (k_UpdateSecret k
             (old\<lparr>secret_Data := AList.update ''BucketInfo'' raw (secret_Data old)\<rparr>)) w = (None, w')) \<and>
        s' = s\<lparr>st_world := w'\<rparr>)"
  by (auto simp: write_access_secret_def run_simps prod_eq_iff split: prod.splits sum.splits)

lemma grant_credentials_Done:
  "run_state (grant_credentials r ns sn a b ba p) s = (Done, s') \<longleftrightarrow>
     (\<exists>creds w s1 w'. run_state (GrantAccess p b a AccessTypeReadWrite '''' '''') (st_world s) = (Inr creds, w) \<and>
        run_state (write_access_secret (ar_kube r) ns sn (json_marshal (bucket_info creds))) (s\<lparr>st_world := w\<rparr>) = (None, s1) \<and>
        run_state (k_UpdateUnstructuredStatus (ar_kube r) (granted_access a ba)) (st_world s1) = (None, w') \<and>
        s' = s1\<lparr>st_world := w'\<rparr>)"
  by (auto simp: grant_credentials_def granted_access_def run_simps Let_def prod_eq_iff
      split: prod.splits sum.splits option.splits)

lemma grant_access_Done:
  "run_state (grant_access r ns cn sn a ba) s = (Done, s') \<longleftrightarrow>
     (\<exists>claim w p s1. run_state (k_GetClaim (ar_kube r) ns cn) (st_world s) = (Inr claim, w) \<and>
        status_BucketReady (claim_Status claim) \<and> trim_space (status_BucketName (claim_Status claim)) \<noteq> '''' \<and>
        run_state (providerForClaim r claim) (s\<lparr>st_world := w\<rparr>) = (Inr p, s1) \<and>
        run_state (grant_credentials r ns sn a (to_lower (trim_space (status_BucketName (claim_Status claim)))) ba p) s1
          = (Done, s'))"
  by (auto simp: grant_access_def run_simps Let_def prod_eq_iff split: prod.splits sum.splits if_splits)

text \<open>C35. Access is reported as granted only when it can be used. Where a BucketAccess is not granted yet, its
  reconcile ends without a retry and without an error exactly where these calls succeed one after the
  other, each in the state its predecessor left: the finalizer is there or added, the claim is read and
  ready, its class is read and a provider resolved for it, that provider grants read and write access to
  the claim's recorded bucket, the credentials it handed out are stored in the Secret (created where it
  is not found), and last the status of the object is written. Nothing else is called. An object so
  written is a steady state: reconciling it reads it and does nothing else.\<close>

theorem access_granted_after_secret:
  fixes r :: "('c, 'h, 'w) access_reconciler" and s :: "('h, 'w) op_state"
  assumes ba: "run_state (k_GetUnstructured (ar_kube r) ''BucketAccess'' ns n) (st_world s) = (Inr ba, w1)"
    and asks: "asks_for ba cn sn" and live: "meta_DeletionTimestamp (u_Meta ba) = None"
    and new: "\<not> json_true (map_of (json_map (map_of (u_Object ba) ''status'')) ''accessGranted'')"
  shows "(run_state (access_Reconcile r ns n) s = (Done, s') \<longleftrightarrow>
     (\<exists>ba' w2 claim w3 cls w4 p s5 creds w6 secret w7 w8 w9.
        (if k_ContainsFinalizer (ar_kube r) (meta_Finalizers (u_Meta ba)) bucketAccessFinalizer
         then ba' = ba \<and> w2 = w1
         else run_state (k_UpdateUnstructured (ar_kube r) (ba\<lparr>u_Meta := (u_Meta ba)\<lparr>meta_Finalizers :=
           k_AddFinalizer (ar_kube r) (meta_Finalizers (u_Meta ba)) bucketAccessFinalizer\<rparr>\<rparr>)) w1 = (Inr ba', w2)) \<and>
        run_state (k_GetClaim (ar_kube r) ns cn) w2 = (Inr claim, w3) \<and>
        status_BucketReady (claim_Status claim) \<and> trim_space (status_BucketName (claim_Status claim)) \<noteq> '''' \<and>
        run_state (k_GetClass (ar_kube r) (spec_BucketClassName (claim_Spec claim))) w3 = (Inr cls, w4) \<and>
        run_state (ProviderForClass (ar_resolver r) (Some cls)) (s\<lparr>st_world := w4\<rparr>) = (Inr p, s5) \<and>
        run_state (GrantAccess p (to_lower (trim_space (status_BucketName (claim_Status claim)))) (ns @ ''-'' @ n)
          AccessTypeReadWrite '''' '''') (st_world s5) = (Inr creds, w6) \<and>
        run_state (k_GetSecret (ar_kube r) ns sn) w6 = (secret, w7) \<and>
        (case secret of
           Inl err \<Rightarrow> is_not_found err \<and> run_state (k_CreateSecret (ar_kube r)
             \<lparr>secret_Namespace = ns, secret_Name = sn, secret_Type = ''Opaque'', secret_ResourceVersion = '''',
              secret_Data = [(''BucketInfo'', json_marshal (bucket_info creds))],
              secret_StringData = [], secret_Owners = []\<rparr>) w7 = (None, w8)
         | Inr old \<Rightarrow> run_state (k_UpdateSecret (ar_kube r) (old\<lparr>secret_Data :=
             AList.update ''BucketInfo'' (json_marshal (bucket_info creds)) (secret_Data old)\<rparr>)) w7 = (None, w8)) \<and>
        run_state (k_UpdateUnstructuredStatus (ar_kube r) (ba'\<lparr>u_Object := AList.update ''status''
          (JObj [(''accessGranted'', JBool True), (''accountID'', JStr (ns @ ''-'' @ n))]) (u_Object ba')\<rparr>)) w8 =
          (None, w9) \<and>
        s' = s5\<lparr>st_world := w9\<rparr>)) \<and>
   bucket_info creds0 = JObj [(''spec'', JObj [(''s3'', JObj
     ([(''accessKeyID'', JStr (smap_get creds0 ''accessKeyID'')),
       (''accessSecretKey'', JStr (smap_get creds0 ''accessSecretKey''))] @
      (if trim_space (smap_get creds0 ''endpoint'') \<noteq> ''''
       then [(''endpoint'', JStr (trim_space (smap_get creds0 ''endpoint'')))] else [])))])] \<and>
   (run_state (k_GetUnstructured (ar_kube r) ''BucketAccess'' ns n) (st_world s3) =
       (Inr (ba0\<lparr>u_Object := AList.update ''status''
          (JObj [(''accessGranted'', JBool True), (''accountID'', JStr (ns @ ''-'' @ n))]) (u_Object ba0)\<rparr>), w0) \<and>
     asks_for ba0 cn sn \<and> meta_DeletionTimestamp (u_Meta ba0) = None \<and>
     k_ContainsFinalizer (ar_kube r) (meta_Finalizers (u_Meta ba0)) bucketAccessFinalizer \<longrightarrow>
   run_state (access_Reconcile r ns n) s3 = (Done, s3\<lparr>st_world := w0\<rparr>))"
  (is "(?run \<longleftrightarrow> ?chain) \<and> ?info \<and> ?steady")
proof (intro conjI)
  let ?a = "access_account_id ns n"
  have "?run \<longleftrightarrow> (\<exists>ba' s2. run_state (ensure_access_finalizer (ar_kube r) ba) (s\<lparr>st_world := w1\<rparr>) = (Inr ba', s2) \<and>
      run_state (grant_access r ns cn sn ?a ba') s2 = (Done, s'))"
    using ba asks live new
    by (auto simp: access_Reconcile_def asks_for_def run_in_world run_val_or_err Let_def split: prod.splits sum.splits)
  also have "\<dots> \<longleftrightarrow> ?chain"
    unfolding ensure_access_finalizer_Inr grant_access_Done grant_credentials_Done providerForClaim_Inr
      write_access_secret_None granted_access_def granted_status_def access_secret_def access_account_id_def
    by (cases "k_ContainsFinalizer (ar_kube r) (meta_Finalizers (u_Meta ba)) bucketAccessFinalizer"; rule iffI)
      (clarsimp, intro exI conjI, (assumption | rule refl last_write [symmetric] | subst world_write)+)+
  finally show "?run \<longleftrightarrow> ?chain" .
  show ?info by (simp add: bucket_info_def Let_def)
  show ?steady
    by (intro impI, elim conjE)
      (rule granted_access_steady [where a = ?a, unfolded granted_access_def granted_status_def access_account_id_def])
qed

theorem access_granted_after_secret_witness:
  "\<exists>s'. run_state (access_Reconcile example_access_reconciler ''ns1'' ''a1'')
     (start_state (access_cluster example_access)) = (Done, s')"
proof -
  let ?r = example_access_reconciler and ?s = "start_state (access_cluster example_access)"
  let ?w = "access_cluster example_access" and ?a = "''ns1'' @ ''-'' @ ''a1''"
  let ?p = "minio_provider cluster_minio mem_client"
  let ?b = "to_lower (trim_space (status_BucketName (claim_Status example_bound)))"
  have r: "ar_kube ?r = mem_kube" "ar_resolver ?r = Some example_deps"
    and w: "st_world ?s = ?w" "?s\<lparr>st_world := ?w\<rparr> = ?s"
    by (simp_all add: example_access_reconciler_def start_state_def)
  have ba: "run_state (k_GetUnstructured (ar_kube ?r) ''BucketAccess'' ''ns1'' ''a1'') (st_world ?s) = (Inr example_access, ?w)"
    by (simp add: w r) (simp add: mem_kube_def access_cluster_def run_simps)
  have new: "meta_DeletionTimestamp (u_Meta example_access) = None"
    "\<not> json_true (map_of (json_map (map_of (u_Object example_access) ''status'')) ''accessGranted'')"
    by (simp_all add: example_access_def zero_meta_def)
  have claim: "run_state (k_GetClaim mem_kube ''ns1'' ''c1'') ?w = (Inr example_bound, ?w)"
    by (simp add: mem_kube_def access_cluster_def run_simps)
  have ready: "status_BucketReady (claim_Status example_bound)"
    "trim_space (status_BucketName (claim_Status example_bound)) \<noteq> ''''"
    by (simp_all add: example_bound_def bound_claim_def set_claim_status_def trim_space_graphic graphic_def)
  have fin: "k_ContainsFinalizer mem_kube (meta_Finalizers (u_Meta example_access)) bucketAccessFinalizer"
    by (simp add: mem_kube_def example_access_def)
  have cls: "run_state (k_GetClass mem_kube (spec_BucketClassName (claim_Spec example_bound))) ?w = (Inr example_class, ?w)"
    by (simp add: mem_kube_def access_cluster_def example_cluster_def example_bound_def bound_claim_def example_claim_def run_simps)
  obtain creds w6 where grant: "run_state (GrantAccess ?p ?b ?a AccessTypeReadWrite '''' '''') ?w = (Inr creds, w6)"
    using cluster_grant by blast
  let ?get = "k_GetSecret mem_kube ''ns1'' ''cred''"
  have "world_after ?get w6 = w6" "\<And>err. result_of ?get w6 = Inl err \<Longrightarrow> is_not_found err"
    by (auto simp: mem_kube_def run_simps split: option.splits)
  then obtain secret where secret: "run_state ?get w6 = (secret, w6)" "\<And>err. secret = Inl err \<Longrightarrow> is_not_found err"
    by (metis prod.collapse)
  have writes: "\<exists>w'. run_state (k_CreateSecret mem_kube x) w = (None, w')"
    "\<exists>w'. run_state (k_UpdateSecret mem_kube x) w = (None, w')"
    "\<exists>w'. run_state (k_UpdateUnstructuredStatus mem_kube u) w = (None, w')" for x u w
    by (simp_all add: mem_kube_def run_simps)
  let ?raw = "json_marshal (bucket_info creds)"
  obtain w8 where stored: "case secret of
       Inl err \<Rightarrow> is_not_found err \<and> run_state (k_CreateSecret mem_kube
         \<lparr>secret_Namespace = ''ns1'', secret_Name = ''cred'', secret_Type = ''Opaque'', secret_ResourceVersion = '''',
          secret_Data = [(''BucketInfo'', ?raw)], secret_StringData = [], secret_Owners = []\<rparr>) w6 = (None, w8)
     | Inr old \<Rightarrow> run_state (k_UpdateSecret mem_kube (old\<lparr>secret_Data :=
         AList.update ''BucketInfo'' ?raw (secret_Data old)\<rparr>)) w6 = (None, w8)"
    using writes(1,2) secret(2) by (cases secret) fastforce+
  obtain w9 where status: "run_state (k_UpdateUnstructuredStatus mem_kube (example_access\<lparr>u_Object := AList.update ''status''
      (JObj [(''accessGranted'', JBool True), (''accountID'', JStr ?a)]) (u_Object example_access)\<rparr>)) w8 = (None, w9)"
    using writes(3) by blast
  have p: "run_state (ProviderForClass (Some example_deps) (Some example_class)) (?s\<lparr>st_world := ?w\<rparr>) = (Inr ?p, ?s)"
    unfolding w by (rule example_resolves)
  have grant': "run_state (GrantAccess ?p ?b ?a AccessTypeReadWrite '''' '''') (st_world ?s) = (Inr creds, w6)"
    unfolding w by (rule grant)
  have "run_state (access_Reconcile ?r ''ns1'' ''a1'') ?s = (Done, ?s\<lparr>st_world := w9\<rparr>)"
    by (rule access_granted_after_secret [OF ba example_access_asks(1) new, THEN conjunct1, THEN iffD2, unfolded r],
        intro exI conjI, simp only: fin if_True simp_thms)
      (rule claim ready cls p grant' secret(1) stored status refl)+
  then show ?thesis by blast
qed

end
