(* ===== verification/Claim_Extensions.thy ===== *)
theory Claim_Extensions
  imports Provisioning Json_Roundtrip
begin

text \<open>
  \<^verbatim>\<open>ApplyClaimParameterExtensions\<close> of internal/provisioning/provisioning.go: the settings of a claim
  that a COSI request carries in its parameters. \<^verbatim>\<open>resource.ParseQuantity\<close> is a parameter; decoding
  JSON into the structs of api/v1alpha1 is modelled, by the tags of their fields.
\<close>

section \<open>Decoding JSON into a struct\<close>

text \<open>
  A decoder takes a JSON value and the old value of what it decodes into, and yields the new one, or
  \<open>None\<close> where the value is of another type, which \<^verbatim>\<open>Unmarshal\<close> reports as an error. null leaves the old
  value. The members of an object are decoded in their order, each into the field of its name, or else
  into the first whose name it is up to case; others are skipped.
\<close>

type_synonym 'r decoder = "json \<Rightarrow> 'r \<Rightarrow> 'r option"

definition field_decoder :: "(string \<times> 'r decoder) list \<Rightarrow> string \<Rightarrow> 'r decoder" where
  "field_decoder fs name =
     (case map_of fs name of
        Some d \<Rightarrow> d
      | None \<Rightarrow>
          (case find (\<lambda>(n, _). equal_fold name n) fs of
             Some (_, d) \<Rightarrow> d
           | None \<Rightarrow> (\<lambda>v r. Some r)))"

fun decode_members :: "(string \<times> 'r decoder) list \<Rightarrow> (string \<times> json) list \<Rightarrow> 'r \<Rightarrow> 'r option" where
  "decode_members fs [] r = Some r"
| "decode_members fs ((name, v) # kvs) r =
     (case field_decoder fs name v r of
        None \<Rightarrow> None
      | Some r' \<Rightarrow> decode_members fs kvs r')"

fun decode_struct :: "(string \<times> 'r decoder) list \<Rightarrow> 'r decoder" where
  "decode_struct fs (JObj kvs) r = decode_members fs kvs r"
| "decode_struct fs JNull r = Some r"
| "decode_struct fs _ r = None"

fun decode_string_into :: "(string \<Rightarrow> 'r \<Rightarrow> 'r) \<Rightarrow> 'r decoder" where
  "decode_string_into upd (JStr s) r = Some (upd s r)"
| "decode_string_into upd JNull r = Some r"
| "decode_string_into upd _ r = None"

fun decode_bool_into :: "(bool \<Rightarrow> 'r \<Rightarrow> 'r) \<Rightarrow> 'r decoder" where
  "decode_bool_into upd (JBool b) r = Some (upd b r)"
| "decode_bool_into upd JNull r = Some r"
| "decode_bool_into upd _ r = None"

text \<open>\<^verbatim>\<open>strconv.ParseInt(s, 10, 64)\<close> of a number literal: no fraction, no exponent, in range.\<close>

definition digits_value :: "string \<Rightarrow> int" where
  "digits_value ds = foldl (\<lambda>n c. 10 * n + (int (byte c) - 48)) 0 ds"

definition parse_int64 :: "string \<Rightarrow> 64 word option" where
  "parse_int64 s =
     (let (neg, ds) = (case s of CHR ''-'' # r \<Rightarrow> (True, r) | _ \<Rightarrow> (False, s));
          n = (if neg then - digits_value ds else digits_value ds)
      in if ds \<noteq> '''' \<and> list_all is_digit ds \<and> - (2 ^ 63) \<le> n \<and> n < 2 ^ 63
         then Some (word_of_int n) else None)"

fun decode_int_into :: "(64 word \<Rightarrow> 'r \<Rightarrow> 'r) \<Rightarrow> 'r decoder" where
  "decode_int_into upd (JNum t) r = map_option (\<lambda>n. upd n r) (parse_int64 t)"
| "decode_int_into upd JNull r = Some r"
| "decode_int_into upd _ r = None"

text \<open>A field that is itself a struct, decoded into its old value.\<close>

definition decode_field :: "('r \<Rightarrow> 'f) \<Rightarrow> ('f \<Rightarrow> 'r \<Rightarrow> 'r) \<Rightarrow> 'f decoder \<Rightarrow> 'r decoder" where
  "decode_field get upd d v r = map_option (\<lambda>f. upd f r) (d v (get r))"

section \<open>The structs of api/v1alpha1\<close>

definition expiration_fields :: "(string \<times> LifecycleExpiration decoder) list" where
  "expiration_fields = [(''days'', decode_int_into (\<lambda>n r. r\<lparr>expiration_Days := n\<rparr>))]"

definition lifecycle_rule_fields :: "(string \<times> LifecycleRule decoder) list" where
  "lifecycle_rule_fields =
     [(''id'', decode_string_into (\<lambda>s r. r\<lparr>rule_ID := s\<rparr>)),
      (''status'', decode_string_into (\<lambda>s r. r\<lparr>rule_Status := s\<rparr>)),
      (''prefix'', decode_string_into (\<lambda>s r. r\<lparr>rule_Prefix := s\<rparr>)),
      (''expiration'', decode_field rule_Expiration (\<lambda>e r. r\<lparr>rule_Expiration := e\<rparr>) (decode_struct expiration_fields))]"

definition replication_target_fields :: "(string \<times> ReplicationTarget decoder) list" where
  "replication_target_fields =
     [(''endpoint'', decode_string_into (\<lambda>s r. r\<lparr>target_Endpoint := s\<rparr>)),
      (''bucketName'', decode_string_into (\<lambda>s r. r\<lparr>target_BucketName := s\<rparr>)),
      (''accessKey'', decode_string_into (\<lambda>s r. r\<lparr>target_AccessKey := s\<rparr>)),
      (''secretKey'', decode_string_into (\<lambda>s r. r\<lparr>target_SecretKey := s\<rparr>)),
      (''useSSL'', decode_bool_into (\<lambda>b r. r\<lparr>target_UseSSL := b\<rparr>))]"

definition zero_rule :: LifecycleRule where
  "zero_rule = \<lparr>rule_ID = '''', rule_Status = '''', rule_Prefix = '''', rule_Expiration = \<lparr>expiration_Days = 0\<rparr>\<rparr>"

definition zero_target :: ReplicationTarget where
  "zero_target = \<lparr>target_Endpoint = '''', target_BucketName = '''', target_AccessKey = '''', target_SecretKey = '''',
     target_UseSSL = False\<rparr>"

text \<open>\<^verbatim>\<open>Unmarshal\<close> into a nil slice of rules and into a zero target.\<close>

fun decode_rules :: "json list \<Rightarrow> LifecycleRule list option" where
  "decode_rules [] = Some []"
| "decode_rules (v # vs) =
     (case decode_struct lifecycle_rule_fields v zero_rule of
        None \<Rightarrow> None
      | Some r \<Rightarrow> map_option ((#) r) (decode_rules vs))"

definition unmarshal_rules :: "string \<Rightarrow> LifecycleRule list option" where
  "unmarshal_rules raw =
     (case json_members raw of
        Some (JArr vs) \<Rightarrow> decode_rules vs
      | Some JNull \<Rightarrow> Some []
      | _ \<Rightarrow> None)"

definition unmarshal_target :: "string \<Rightarrow> ReplicationTarget option" where
  "unmarshal_target raw =
     (case json_members raw of
        Some v \<Rightarrow> decode_struct replication_target_fields v zero_target
      | None \<Rightarrow> None)"

section \<open>Applying the parameters\<close>

text \<open>A setting counts where its key is there and its value is not blank.\<close>

definition setting :: "smap \<Rightarrow> string \<Rightarrow> string option" where
  "setting parameters k =
     (case map_of parameters k of
        Some v \<Rightarrow> if trim_space v \<noteq> '''' then Some v else None
      | None \<Rightarrow> None)"

definition extend_quota :: "(string \<Rightarrow> go_error + Quantity) \<Rightarrow> smap \<Rightarrow> BucketClaimSpec \<Rightarrow> go_error + BucketClaimSpec" where
  "extend_quota ParseQuantity parameters spec =
     (case setting parameters ''quota'' of
        None \<Rightarrow> Inr spec
      | Some q \<Rightarrow>
          (case ParseQuantity (trim_space q) of
             Inl err \<Rightarrow> Inl (ErrWrap (''invalid quota quantity '' @ quote q @ '': '') err '''')
           | Inr qty \<Rightarrow> Inr (spec\<lparr>spec_Quota := Some qty\<rparr>)))"

definition extend_access_type :: "smap \<Rightarrow> BucketClaimSpec \<Rightarrow> BucketClaimSpec" where
  "extend_access_type parameters spec =
     (case setting parameters ''accessType'' of
        None \<Rightarrow> spec
      | Some t \<Rightarrow> spec\<lparr>spec_AccessType := trim_space t\<rparr>)"

definition extend_lifecycle :: "smap \<Rightarrow> BucketClaimSpec \<Rightarrow> go_error + BucketClaimSpec" where
  "extend_lifecycle parameters spec =
     (case setting parameters ''lifecycleRules'' of
        None \<Rightarrow> Inr spec
      | Some raw \<Rightarrow>
          (case unmarshal_rules raw of
             None \<Rightarrow> Inl (ErrWrap ''invalid lifecycleRules JSON: '' json_error '''')
           | Some rules \<Rightarrow> Inr (spec\<lparr>spec_LifecycleRules := rules\<rparr>)))"

definition extend_replication :: "smap \<Rightarrow> BucketClaimSpec \<Rightarrow> go_error + BucketClaimSpec" where
  "extend_replication parameters spec =
     (case setting parameters ''replicationTarget'' of
        None \<Rightarrow> Inr spec
      | Some raw \<Rightarrow>
          (case unmarshal_target raw of
             None \<Rightarrow> Inl (ErrWrap ''invalid replicationTarget JSON: '' json_error '''')
           | Some t \<Rightarrow> Inr (spec\<lparr>spec_ReplicationTarget := Some t\<rparr>)))"

definition ApplyClaimParameterExtensions ::
  "(string \<Rightarrow> go_error + Quantity) \<Rightarrow> BucketClaim \<Rightarrow> smap \<Rightarrow> go_error + BucketClaim" where
  "ApplyClaimParameterExtensions ParseQuantity claim parameters =
     (case extend_quota ParseQuantity parameters (claim_Spec claim) of
        Inl err \<Rightarrow> Inl err
      | Inr spec1 \<Rightarrow>
          (case extend_lifecycle parameters (extend_access_type parameters spec1) of
             Inl err \<Rightarrow> Inl err
           | Inr spec2 \<Rightarrow>
               (case extend_replication parameters spec2 of
                  Inl err \<Rightarrow> Inl err
                | Inr spec3 \<Rightarrow> Inr (claim\<lparr>claim_Spec := spec3\<rparr>))))"

end
