(* ===== verification/Cosi_Server.thy ===== *)
theory Cosi_Server
  imports Kube Claim_Extensions
begin

text \<open>
  The COSI driver, internal/cosi: the naming of mapper.go, the error codes of grpc.go, the identifiers
  of kubecompat.go and the five handlers of server.go. A request that is a nil pointer is \<open>None\<close>, a
  handler yields its response or the error it returns. \<^verbatim>\<open>Start\<close> is in \<open>Operator\<close>; the logging is not
  modelled.
\<close>

section \<open>kubecompat.go\<close>

definition ObjectStorageAPIGroup :: string where
  "ObjectStorageAPIGroup = ''objectstorage.k8s.io''"

definition ObjectStorageAPIVersion :: string where
  "ObjectStorageAPIVersion = ''v1alpha1''"

definition KindBucket :: string where
  "KindBucket = ''Bucket''"

definition KindBucketAccess :: string where
  "KindBucketAccess = ''BucketAccess''"

text \<open>\<^verbatim>\<open>schema.GroupVersionKind\<close>.\<close>

record group_version_kind =
  gvk_Group :: string
  gvk_Version :: string
  gvk_Kind :: string

definition BucketGVK :: group_version_kind where
  "BucketGVK = \<lparr>gvk_Group = ObjectStorageAPIGroup, gvk_Version = ObjectStorageAPIVersion, gvk_Kind = KindBucket\<rparr>"

definition BucketAccessGVK :: group_version_kind where
  "BucketAccessGVK =
     \<lparr>gvk_Group = ObjectStorageAPIGroup, gvk_Version = ObjectStorageAPIVersion, gvk_Kind = KindBucketAccess\<rparr>"

section \<open>mapper.go\<close>

text \<open>
  The regular expression \<^verbatim>\<open>^(.+)([0-9a-f]{8}-...-[0-9a-f]{12})$\<close>: the last 36 bytes are a UID, and
  what comes before is not empty and holds no newline, which the dot does not match.
\<close>

definition hex_lower :: "char \<Rightarrow> bool" where
  "hex_lower c \<longleftrightarrow> 48 \<le> byte c \<and> byte c \<le> 57 \<or> 97 \<le> byte c \<and> byte c \<le> 102"

definition is_uid :: "string \<Rightarrow> bool" where
  "is_uid s \<longleftrightarrow> length s = 36 \<and>
     list_all (\<lambda>(i, c). if i \<in> {8, 13, 18, 23} then c = CHR ''-'' else hex_lower c) (enumerate 0 s)"

definition SyntheticClaimName :: "string \<Rightarrow> string" where
  "SyntheticClaimName cosiName =
     (let s = trim_space cosiName in
      if s = '''' then ''cosi-access''
      else
        (let s1 = map (\<lambda>c. if c = CHR ''_'' then CHR ''-'' else c) (to_lower s) in
         if length s1 > 63 then take 63 s1 else s1))"

definition BucketClassNameFromBucketObjectName :: "string \<Rightarrow> string" where
  "BucketClassNameFromBucketObjectName bucketObjectName =
     (let s = trim_space bucketObjectName; n = length s - 36 in
      if is_uid (drop n s) \<and> take n s \<noteq> '''' \<and> chr 10 \<notin> set (take n s) then take n s else '''')"

definition BuildSyntheticClaim :: "string \<Rightarrow> string \<Rightarrow> smap \<Rightarrow> go_error + BucketClaim" where
  "BuildSyntheticClaim namespace bucketObjectName parameters =
     (let s = trim_space bucketObjectName in
      if s = '''' then Inl (ErrText ''bucket object name is empty'')
      else
        (let c1 = trim_space (smap_get parameters ''bucketClassName'');
             c2 = (if c1 = '''' then BucketClassNameFromBucketObjectName s else c1);
             c3 = (if c2 = '''' then ''cosi-bucketclass'' else c2)
         in Inr (zero_claim\<lparr>
              claim_Meta := zero_meta\<lparr>meta_Name := SyntheticClaimName s, meta_Namespace := namespace\<rparr>,
              claim_Spec := (claim_Spec zero_claim)\<lparr>spec_BucketClassName := c3, spec_Protocols := [''S3''],
                spec_BucketName := to_lower s, spec_AccessType := AccessTypeReadWrite\<rparr>\<rparr>)))"

definition BuildSyntheticClaimForAccess ::
  "string \<Rightarrow> string \<Rightarrow> string \<Rightarrow> smap \<Rightarrow> go_error + BucketClaim" where
  "BuildSyntheticClaimForAccess namespace bucketObjectName accessName parameters =
     (case BuildSyntheticClaim namespace bucketObjectName parameters of
        Inl err \<Rightarrow> Inl err
      | Inr claim \<Rightarrow> Inr (claim\<lparr>claim_Meta := (claim_Meta claim)\<lparr>meta_Name := SyntheticClaimName accessName\<rparr>\<rparr>))"

section \<open>grpc.go\<close>

definition grpcErr :: "go_error option \<Rightarrow> go_error option" where
  "grpcErr err =
     (case err of
        None \<Rightarrow> None
      | Some e \<Rightarrow>
          (case errors_as grpc_of e of
             Some _ \<Rightarrow> Some e
           | None \<Rightarrow>
               (case errors_as provisioning_of e of
                  Some (op, b, e') \<Rightarrow>
                    (let pErr = ErrProvisioning op b e' in
                     if IsTransientMinioError (Some pErr) then Some (ErrGrpc Unavailable (err_text pErr))
                     else Some (ErrGrpc Internal (err_text pErr)))
                | None \<Rightarrow>
                    if IsTransientMinioError (Some e) then Some (ErrGrpc Unavailable (err_text e))
                    else Some (ErrGrpc Internal (err_text e)))))"

text \<open>\<^verbatim>\<open>return nil, grpcErr(err)\<close> for an error that is not nil.\<close>

definition grpc_error :: "go_error \<Rightarrow> go_error + 'a" where
  "grpc_error e = (case grpcErr (Some e) of Some e' \<Rightarrow> Inl e' | None \<Rightarrow> Inl e)"

definition invalid_argument :: "string \<Rightarrow> go_error + 'a" where
  "invalid_argument msg = Inl (ErrGrpc InvalidArgument msg)"

section \<open>server.go: the server and its messages\<close>

record 'w cosi_server =
  cs_Provider :: "'w Provider"
  cs_KubeClient :: "'w kube option"
  cs_DriverName :: string
  cs_sockPath :: string
  cs_ParseQuantity :: "string \<Rightarrow> go_error + Quantity"

record DriverCreateBucketRequest =
  create_Name :: string
  create_Parameters :: smap

record DriverCreateBucketResponse =
  created_BucketId :: string
  created_Region :: string
  created_SignatureVersion :: string

datatype AuthenticationType =
  AuthenticationType_Unknown | AuthenticationType_Key | AuthenticationType_IAM | AuthenticationType_Other int

record DriverGrantBucketAccessRequest =
  grant_BucketId :: string
  grant_Name :: string
  grant_AuthenticationType :: AuthenticationType
  grant_Parameters :: smap

record DriverGrantBucketAccessResponse =
  granted_AccountId :: string
  granted_Credentials :: "(string \<times> smap) list"

record DriverRevokeBucketAccessRequest =
  revoke_BucketId :: string
  revoke_AccountId :: string

definition syntheticClassFromParameters :: "string \<Rightarrow> string \<Rightarrow> smap \<Rightarrow> go_error + BucketClass" where
  "syntheticClassFromParameters driverName bucketClassName parameters =
     (let n = trim_space bucketClassName;
          dp = trim_space (smap_get parameters ''deletionPolicy'');
          ol = trim_space (smap_get parameters ''objectLockingEnabled'');
          rm = trim_space (smap_get parameters ''retentionMode'');
          region = trim_space (smap_get parameters ''region'')
      in
      if n = '''' then Inl (ErrText ''bucketClassName is empty'')
      else Inr (zero_class\<lparr>
             class_Meta := zero_meta\<lparr>meta_Name := n\<rparr>,
             class_DriverName := trim_space driverName,
             class_DeletionPolicy := (if dp \<noteq> '''' then dp else DeletionPolicyRetain),
             class_ObjectLockingEnabled := (ol = ''true'' \<or> ol = ''1''),
             class_RetentionMode := rm,
             class_Parameters := AList.update ''region'' (if region = '''' then ''us-east-1'' else region) parameters\<rparr>))"

section \<open>server.go: the handlers\<close>

definition NewServer ::
  "'w Provider \<Rightarrow> 'w kube option \<Rightarrow> string \<Rightarrow> string \<Rightarrow> (string \<Rightarrow> go_error + Quantity) \<Rightarrow> 'w cosi_server" where
  "NewServer provider kube driverName socketPath ParseQuantity =
     \<lparr>cs_Provider = provider, cs_KubeClient = kube, cs_DriverName = driverName, cs_sockPath = socketPath,
      cs_ParseQuantity = ParseQuantity\<rparr>"

definition DriverGetInfo :: "'w cosi_server \<Rightarrow> go_error + string" where
  "DriverGetInfo s =
     (if trim_space (cs_DriverName s) = '''' then Inl (ErrGrpc FailedPrecondition ''driver name is not configured'')
      else Inr (cs_DriverName s))"

text \<open>The claim and the class that a create request stands for.\<close>

definition create_claim :: "'w cosi_server \<Rightarrow> DriverCreateBucketRequest \<Rightarrow> go_error + BucketClaim \<times> BucketClass" where
  "create_claim s req =
     (let ps = create_Parameters req in
      case BuildSyntheticClaim ''cosi'' (create_Name req) ps of
        Inl err \<Rightarrow> Inl err
      | Inr c \<Rightarrow>
          (case ApplyClaimParameterExtensions (cs_ParseQuantity s) c ps of
             Inl err \<Rightarrow> Inl err
           | Inr claim \<Rightarrow>
               (case syntheticClassFromParameters (cs_DriverName s) (spec_BucketClassName (claim_Spec claim)) ps of
                  Inl err \<Rightarrow> Inl err
                | Inr cls \<Rightarrow> Inr (claim, cls))))"

definition create_response :: "string \<Rightarrow> BucketClass \<Rightarrow> DriverCreateBucketResponse" where
  "create_response bucketName cls =
     (let region = trim_space (smap_get (class_Parameters cls) ''region'') in
      \<lparr>created_BucketId = bucketName, created_Region = (if region = '''' then ''us-east-1'' else region),
       created_SignatureVersion = ''S3V4''\<rparr>)"

definition DriverCreateBucket ::
  "'w cosi_server \<Rightarrow> DriverCreateBucketRequest option \<Rightarrow> ('w, go_error + DriverCreateBucketResponse) state" where
  "DriverCreateBucket s request =
     (case request of
        None \<Rightarrow> ret (invalid_argument ''bucket name is required'')
      | Some req \<Rightarrow>
          if trim_space (create_Name req) = '''' then ret (invalid_argument ''bucket name is required'')
          else
            (case create_claim s req of
               Inl err \<Rightarrow> ret (invalid_argument (err_text err))
             | Inr (claim, cls) \<Rightarrow> do {
                 p \<leftarrow> ProvisionBucket (cs_Provider s) claim cls;
                 case p of
                   (_, Some err) \<Rightarrow> ret (grpc_error err)
                 | (bucketName, None) \<Rightarrow> ret (Inr (create_response bucketName cls))
               }))"

text \<open>\<^verbatim>\<open>unstructured.NestedString(obj, "spec", "deletionPolicy")\<close>, with its other results dropped.\<close>

fun nested_string :: "(string \<times> json) list \<Rightarrow> string \<Rightarrow> string \<Rightarrow> string" where
  "nested_string obj k1 k2 =
     (case map_of obj k1 of
        Some (JObj kvs) \<Rightarrow> (case map_of kvs k2 of Some (JStr s) \<Rightarrow> s | _ \<Rightarrow> '''')
      | _ \<Rightarrow> '''')"

text \<open>
  Whether \<^verbatim>\<open>DriverDeleteBucket\<close> goes on to the backend: an error, or the answer. Without a client it
  does not; where the Bucket cannot be read, a class guessed from its name decides.
\<close>

definition deletion_decided :: "'w cosi_server \<Rightarrow> string \<Rightarrow> ('w, go_error + bool) state" where
  "deletion_decided s bucketObjectName =
     (case cs_KubeClient s of
        None \<Rightarrow> ret (Inr False)
      | Some k \<Rightarrow> do {
          g \<leftarrow> k_GetUnstructured k (gvk_Kind BucketGVK) '''' bucketObjectName;
          ret (case g of
                 Inr bk \<Rightarrow>
                   Inr (trim_space (nested_string (u_Object bk) ''spec'' ''deletionPolicy'') = DeletionPolicyDelete)
               | Inl _ \<Rightarrow>
                   (let bucketClassName = BucketClassNameFromBucketObjectName bucketObjectName in
                    if bucketClassName \<noteq> '''' then
                      (case syntheticClassFromParameters (cs_DriverName s) bucketClassName [] of
                         Inl err \<Rightarrow> grpc_error err
                       | Inr cls \<Rightarrow> Inr (class_DeletionPolicy cls = DeletionPolicyDelete))
                    else Inr False))
        })"

definition DriverDeleteBucket :: "'w cosi_server \<Rightarrow> string option \<Rightarrow> ('w, go_error + unit) state" where
  "DriverDeleteBucket s request =
     (case request of
        None \<Rightarrow> ret (invalid_argument ''bucket_id is required'')
      | Some bucketId \<Rightarrow>
          if trim_space bucketId = '''' then ret (invalid_argument ''bucket_id is required'')
          else
            (let bucketObjectName = trim_space bucketId; bucketName = to_lower bucketObjectName in
             val_or_err (deletion_decided s bucketObjectName) Inl
               (\<lambda>go. if go then if_err (DeleteBucket (cs_Provider s) bucketName) grpc_error (ret (Inr ()))
                      else ret (Inr ()))))"

definition DriverGrantBucketAccess ::
  "'w cosi_server \<Rightarrow> DriverGrantBucketAccessRequest option \<Rightarrow> ('w, go_error + DriverGrantBucketAccessResponse) state"
  where
  "DriverGrantBucketAccess s request =
     (case request of
        None \<Rightarrow> ret (invalid_argument ''bucket_id and name are required'')
      | Some req \<Rightarrow>
          if trim_space (grant_BucketId req) = '''' \<or> trim_space (grant_Name req) = ''''
          then ret (invalid_argument ''bucket_id and name are required'')
          else
            (case grant_AuthenticationType req of
               AuthenticationType_Key \<Rightarrow>
                 (let ps = grant_Parameters req; bucketObjectName = trim_space (grant_BucketId req) in
                  case BuildSyntheticClaimForAccess ''cosi'' bucketObjectName (grant_Name req) ps of
                    Inl err \<Rightarrow> ret (invalid_argument (err_text err))
                  | Inr c \<Rightarrow>
                      (case ApplyClaimParameterExtensions (cs_ParseQuantity s) c ps of
                         Inl err \<Rightarrow> ret (invalid_argument (err_text err))
                       | Inr claim \<Rightarrow>
                           val_or_err
                             (GrantBucketAccess (cs_Provider s) claim (to_lower bucketObjectName)
                                (trim_space (smap_get ps ''existingAccessKey''))
                                (trim_space (smap_get ps ''existingSecretKey'')))
                             grpc_error
                             (\<lambda>creds. ret (Inr
                                \<lparr>granted_AccountId = account_id claim,
                                 granted_Credentials = [(''s3'', [(''accessKeyID'', cred_AccessKeyID creds),
                                   (''accessSecretKey'', cred_AccessSecretKey creds)])]\<rparr>))))
             | AuthenticationType_IAM \<Rightarrow> ret (Inl (ErrGrpc Unimplemented ''IAM authentication is not supported''))
             | _ \<Rightarrow> ret (invalid_argument ''unsupported authentication type'')))"

text \<open>\<^verbatim>\<open>strings.SplitN(s, "-", 2)\<close>, where it yields two parts.\<close>

definition split_account :: "string \<Rightarrow> (string \<times> string) option" where
  "split_account s =
     (case dropWhile (\<lambda>c. c \<noteq> CHR ''-'') s of
        [] \<Rightarrow> None
      | _ # rest \<Rightarrow> Some (takeWhile (\<lambda>c. c \<noteq> CHR ''-'') s, rest))"

definition DriverRevokeBucketAccess ::
  "'w cosi_server \<Rightarrow> DriverRevokeBucketAccessRequest option \<Rightarrow> ('w, go_error + unit) state" where
  "DriverRevokeBucketAccess s request =
     (case request of
        None \<Rightarrow> ret (invalid_argument ''bucket_id and account_id are required'')
      | Some req \<Rightarrow>
          if trim_space (revoke_BucketId req) = '''' \<or> trim_space (revoke_AccountId req) = ''''
          then ret (invalid_argument ''bucket_id and account_id are required'')
          else
            (let bucketObjectName = to_lower (trim_space (revoke_BucketId req));
                 accountID = trim_space (revoke_AccountId req)
             in
             case split_account accountID of
               None \<Rightarrow> ret (invalid_argument ''invalid account_id'')
             | Some (ns, n) \<Rightarrow>
                 if ns = '''' \<or> n = '''' then ret (invalid_argument ''invalid account_id'')
                 else
                   (let claim = named_claim ns n in
                    if account_id claim \<noteq> accountID then ret (invalid_argument ''invalid account_id'')
                    else if_err (RevokeBucketAccess (cs_Provider s) claim bucketObjectName '''')
                           grpc_error (ret (Inr ())))))"

section \<open>Lemmas: extensions and names\<close>

lemma extension_spec:
  "extend_quota pq ps spec = Inr spec1 \<Longrightarrow> spec_BucketName spec1 = spec_BucketName spec \<and>
     spec_BucketClassName spec1 = spec_BucketClassName spec"
  "extend_lifecycle ps (extend_access_type ps spec) = Inr spec1 \<Longrightarrow> spec_BucketName spec1 = spec_BucketName spec \<and>
     spec_BucketClassName spec1 = spec_BucketClassName spec"
  "extend_replication ps spec = Inr spec1 \<Longrightarrow> spec_BucketName spec1 = spec_BucketName spec \<and>
     spec_BucketClassName spec1 = spec_BucketClassName spec"
  by (auto simp: extend_quota_def extend_lifecycle_def extend_access_type_def extend_replication_def
      split: option.splits sum.splits)

lemma extension_keeps:
  assumes "ApplyClaimParameterExtensions pq claim ps = Inr claim'"
  shows "claim_Meta claim' = claim_Meta claim \<and> claim_Status claim' = claim_Status claim \<and>
         spec_BucketName (claim_Spec claim') = spec_BucketName (claim_Spec claim) \<and>
         spec_BucketClassName (claim_Spec claim') = spec_BucketClassName (claim_Spec claim)"
  using assms unfolding ApplyClaimParameterExtensions_def
  by (auto split: sum.splits dest!: extension_spec)

lemma SyntheticClaimName_graphic: "list_all graphic s \<Longrightarrow> list_all graphic (SyntheticClaimName s)"
proof -
  assume s: "list_all graphic s"
  let ?m = "map (\<lambda>c. if c = CHR ''_'' then CHR ''-'' else c) (to_lower s)"
  have "list_all graphic ?m"
    using graphic_to_lower [OF s] by (auto simp: list_all_iff) (simp add: graphic_def)
  moreover have "list_all graphic (take 63 ?m)" if "list_all graphic ?m"
    using that by (auto simp: list_all_iff dest: in_set_takeD)
  moreover have "list_all graphic ''cosi-access''" by (simp add: graphic_def)
  ultimately show ?thesis
    using s by (simp add: SyntheticClaimName_def graphic_trim Let_def del: list.pred_map)
qed

lemma SyntheticClaimName_not_Nil: "SyntheticClaimName s \<noteq> ''''"
  by (auto simp: SyntheticClaimName_def Let_def)

lemma split_account_cosi: "split_account (''cosi-'' @ x) = Some (''cosi'', x)"
  by (simp add: split_account_def)

lemma DriverGrant_ok:
  assumes "run_state (DriverGrantBucketAccess s (Some req)) w = (Inr resp, w1)"
  obtains claim creds where "claim_Namespace claim = ''cosi''"
    "claim_Name claim = SyntheticClaimName (grant_Name req)" "granted_AccountId resp = account_id claim"
    "trim_space (grant_BucketId req) \<noteq> ''''"
    "run_state (GrantBucketAccess (cs_Provider s) claim (to_lower (trim_space (grant_BucketId req)))
       (trim_space (smap_get (grant_Parameters req) ''existingAccessKey''))
       (trim_space (smap_get (grant_Parameters req) ''existingSecretKey''))) w = (Inr creds, w1)"
    "granted_Credentials resp = [(''s3'', [(''accessKeyID'', cred_AccessKeyID creds),
       (''accessSecretKey'', cred_AccessSecretKey creds)])]"
proof -
  let ?ps = "grant_Parameters req" and ?b = "trim_space (grant_BucketId req)"
  obtain c where c: "BuildSyntheticClaimForAccess ''cosi'' ?b (grant_Name req) ?ps = Inr c"
    using assms by (auto simp: DriverGrantBucketAccess_def invalid_argument_def Let_def
        split: if_splits AuthenticationType.splits sum.splits)
  obtain claim where e: "ApplyClaimParameterExtensions (cs_ParseQuantity s) c ?ps = Inr claim"
    using assms c by (auto simp: DriverGrantBucketAccess_def invalid_argument_def Let_def
        split: if_splits AuthenticationType.splits sum.splits)
  have meta: "claim_Meta claim = claim_Meta c" using extension_keeps [OF e] by simp
  have n: "claim_Namespace c = ''cosi''" "claim_Name c = SyntheticClaimName (grant_Name req)"
    using c by (auto simp: BuildSyntheticClaimForAccess_def BuildSyntheticClaim_def Let_def split: sum.splits if_splits)
  have g: "trim_space (grant_BucketId req) \<noteq> ''''"
    "(case run_state (GrantBucketAccess (cs_Provider s) claim (to_lower ?b)
         (trim_space (smap_get ?ps ''existingAccessKey'')) (trim_space (smap_get ?ps ''existingSecretKey''))) w of
        (Inl err, w2) \<Rightarrow> False
      | (Inr creds, w2) \<Rightarrow> w2 = w1 \<and> resp = \<lparr>granted_AccountId = account_id claim,
          granted_Credentials = [(''s3'', [(''accessKeyID'', cred_AccessKeyID creds),
            (''accessSecretKey'', cred_AccessSecretKey creds)])]\<rparr>)"
    using assms c e by (auto simp: DriverGrantBucketAccess_def invalid_argument_def Let_def run_simps grpc_error_def
        split: if_splits AuthenticationType.splits prod.splits sum.splits option.splits)
  from g(2) obtain creds where
    "run_state (GrantBucketAccess (cs_Provider s) claim (to_lower ?b)
       (trim_space (smap_get ?ps ''existingAccessKey'')) (trim_space (smap_get ?ps ''existingSecretKey''))) w = (Inr creds, w1)"
    "resp = \<lparr>granted_AccountId = account_id claim, granted_Credentials = [(''s3'',
       [(''accessKeyID'', cred_AccessKeyID creds), (''accessSecretKey'', cred_AccessSecretKey creds)])]\<rparr>"
    by (auto split: prod.splits sum.splits)
  with g(1) meta n that [of claim creds] show ?thesis by simp
qed

section \<open>Access: grant and revoke\<close>

lemma DriverRevoke_run:
  assumes "trim_space b \<noteq> ''''" and "list_all graphic x" and "x \<noteq> ''''"
  shows "run_state (DriverRevokeBucketAccess s (Some \<lparr>revoke_BucketId = b, revoke_AccountId = ''cosi-'' @ x\<rparr>)) w =
    (case run_state (RevokeAccess (cs_Provider s) (to_lower (trim_space b)) (''cosi-'' @ x) '''') w of
       (None, w1) \<Rightarrow> (Inr (), w1)
     | (Some e, w1) \<Rightarrow> (grpc_error (ErrProvisioning OpRevokeAccess (to_lower (trim_space b)) e), w1))"
proof -
  have "list_all graphic (''cosi-'' @ x)" using assms(2) by (simp add: graphic_def)
  then have trim: "trim_space (''cosi-'' @ x) = ''cosi-'' @ x" by (rule graphic_trim)
  have acc: "account_id (named_claim ''cosi'' x) = ''cosi-'' @ x"
    by (simp add: account_id_def named_claim_def zero_meta_def)
  show ?thesis
    using assms(1,3) trim acc split_account_cosi [of x]
    by (simp add: DriverRevokeBucketAccess_def RevokeBucketAccess_def run_simps Let_def split: prod.split option.split)
qed

text \<open>C16. The account of a grant round-trips: revoking with the bucket and the account id that the grant
  answered calls the backend with the very bucket and account it granted. The access key is not carried
  along: with MinIO the user revoked is the one derived from the account, so a grant made with an
  \<^verbatim>\<open>existingAccessKey\<close> of another name keeps its user.\<close>

theorem cosi_grant_revoke_roundtrip:
  fixes s :: "'w cosi_server"
  assumes "run_state (DriverGrantBucketAccess s (Some req)) w = (Inr resp, w1)"
    and "list_all graphic (grant_Name req)"
  shows "\<exists>t k sk m. run_state (GrantAccess (cs_Provider s) (to_lower (trim_space (grant_BucketId req)))
           (granted_AccountId resp) t k sk) w = (Inr m, w1) \<and>
         k = trim_space (smap_get (grant_Parameters req) ''existingAccessKey'') \<and>
         (\<forall>w2. run_state (DriverRevokeBucketAccess s (Some \<lparr>revoke_BucketId = grant_BucketId req,
             revoke_AccountId = granted_AccountId resp\<rparr>)) w2 =
           (case run_state (RevokeAccess (cs_Provider s) (to_lower (trim_space (grant_BucketId req)))
                  (granted_AccountId resp) '''') w2 of
              (None, w3) \<Rightarrow> (Inr (), w3)
            | (Some e, w3) \<Rightarrow>
                (grpc_error (ErrProvisioning OpRevokeAccess (to_lower (trim_space (grant_BucketId req))) e), w3))) \<and>
         (\<forall>(sdk :: ('h, 'w) minio_sdk) c. cs_Provider s = minio_provider sdk c \<longrightarrow>
            smap_get m ''accessKeyID'' = (if k = '''' then minio_accessKeyForAccount (granted_AccountId resp) else k) \<and>
            (\<forall>w2. world_after (DriverRevokeBucketAccess s (Some \<lparr>revoke_BucketId = grant_BucketId req,
               revoke_AccountId = granted_AccountId resp\<rparr>)) w2 =
             world_after (ma_RemoveCannedPolicy sdk (client_admin c)
                 (minio_policyName (to_lower (trim_space (grant_BucketId req))) (granted_AccountId resp)))
               (world_after (ma_RemoveUser sdk (client_admin c)
                 (minio_accessKeyForAccount (granted_AccountId resp))) w2)))"
proof -
  let ?b = "trim_space (grant_BucketId req)" and ?x = "SyntheticClaimName (grant_Name req)"
  let ?k = "trim_space (smap_get (grant_Parameters req) ''existingAccessKey'')"
  let ?sk = "trim_space (smap_get (grant_Parameters req) ''existingSecretKey'')"
  from assms(1) obtain claim creds where claim: "claim_Namespace claim = ''cosi''" "claim_Name claim = ?x"
      "granted_AccountId resp = account_id claim" and b: "?b \<noteq> ''''" and
    grant: "run_state (GrantBucketAccess (cs_Provider s) claim (to_lower ?b) ?k ?sk) w = (Inr creds, w1)"
    by (rule DriverGrant_ok)
  have a: "granted_AccountId resp = ''cosi-'' @ ?x" by (simp add: claim account_id_def)
  from grantAccess_ok [OF grant [unfolded GrantBucketAccess_def]] obtain m where
    m: "run_state (GrantAccess (cs_Provider s) (to_lower ?b) (granted_AccountId resp)
          (spec_AccessType (claim_Spec claim)) ?k ?sk) w = (Inr m, w1)"
    by (auto simp: claim)
  have revoke: "run_state (DriverRevokeBucketAccess s (Some \<lparr>revoke_BucketId = grant_BucketId req,
        revoke_AccountId = granted_AccountId resp\<rparr>)) w2 =
      (case run_state (RevokeAccess (cs_Provider s) (to_lower ?b) (granted_AccountId resp) '''') w2 of
         (None, w3) \<Rightarrow> (Inr (), w3)
       | (Some e, w3) \<Rightarrow> (grpc_error (ErrProvisioning OpRevokeAccess (to_lower ?b) e), w3))" for w2
    unfolding a by (rule DriverRevoke_run [OF b SyntheticClaimName_graphic [OF assms(2)] SyntheticClaimName_not_Nil])
  have minio: "smap_get m ''accessKeyID'' = (if ?k = '''' then minio_accessKeyForAccount (granted_AccountId resp) else ?k)"
    if "cs_Provider s = minio_provider sdk c" for sdk :: "('h, 'w) minio_sdk" and c
  proof -
    have "result_of (minio_GrantAccess sdk c (to_lower ?b) (granted_AccountId resp)
        (spec_AccessType (claim_Spec claim)) ?k ?sk) w = Inr m"
      using m that by (simp add: minio_provider_def)
    from minio_GrantAccess_map [OF this] show ?thesis by simp
  qed
  have world: "world_after (DriverRevokeBucketAccess s (Some \<lparr>revoke_BucketId = grant_BucketId req,
         revoke_AccountId = granted_AccountId resp\<rparr>)) w2 =
      world_after (ma_RemoveCannedPolicy sdk (client_admin c) (minio_policyName (to_lower ?b) (granted_AccountId resp)))
        (world_after (ma_RemoveUser sdk (client_admin c) (minio_accessKeyForAccount (granted_AccountId resp))) w2)"
    if "cs_Provider s = minio_provider sdk c" for sdk :: "('h, 'w) minio_sdk" and c and w2
    unfolding revoke by (simp add: that minio_provider_def minio_RevokeAccess_run)
  show ?thesis
    by (rule exI [of _ "spec_AccessType (claim_Spec claim)"], rule exI [of _ ?k], rule exI [of _ ?sk],
        rule exI [of _ m], intro conjI m refl allI revoke impI) (erule minio, erule world)
qed

definition example_server :: "mem_cluster cosi_server" where
  "example_server = NewServer (minio_provider cluster_minio mem_client) (Some mem_kube) ''k8s-s3-bucket-operator''
     ''/var/lib/cosi/cosi.sock''
     (\<lambda>s. Inl (ErrText ''no quantities''))"

definition example_grant :: DriverGrantBucketAccessRequest where
  "example_grant = \<lparr>grant_BucketId = ''data'', grant_Name = ''ba-1'', grant_AuthenticationType = AuthenticationType_Key,
     grant_Parameters = []\<rparr>"

lemma example_grant_run:
  "\<exists>resp w1. run_state (DriverGrantBucketAccess example_server (Some example_grant)) empty_cluster = (Inr resp, w1)"
proof -
  let ?p = "minio_provider cluster_minio mem_client"
  have trim: "trim_space ''data'' = ''data''" "trim_space ''ba-1'' = ''ba-1''"
    by (simp_all add: trim_space_graphic graphic_def)
  obtain c where c: "BuildSyntheticClaimForAccess ''cosi'' ''data'' ''ba-1'' [] = Inr c"
    by (simp add: BuildSyntheticClaimForAccess_def BuildSyntheticClaim_def Let_def trim)
  have ext: "ApplyClaimParameterExtensions pq c [] = Inr c" for pq
    by (simp add: ApplyClaimParameterExtensions_def extend_quota_def extend_lifecycle_def extend_access_type_def
        extend_replication_def setting_def)
  obtain m w where m: "run_state (GrantAccess ?p (to_lower ''data'') (account_id c) (spec_AccessType (claim_Spec c)) '''' '''')
      empty_cluster = (Inr m, w)"
    using cluster_grant by blast
  then have "result_of (minio_GrantAccess cluster_minio mem_client (to_lower ''data'') (account_id c)
      (spec_AccessType (claim_Spec c)) '''' '''') empty_cluster = Inr m"
    by (simp add: minio_provider_def)
  from minio_GrantAccess_map [OF this] have
    "trim_space (smap_get m ''accessKeyID'') \<noteq> ''''" "trim_space (smap_get m ''accessSecretKey'') \<noteq> ''''"
    "trim_space (smap_get m ''endpoint'') \<noteq> ''''"
    by (simp_all add: minio_key.trim_enc minio_key.enc_not_Nil visible_trim visible_secret visible_not_Nil
        cluster_minio_def trim_space_graphic graphic_def)
  with m have "\<exists>creds w1. run_state (GrantBucketAccess ?p c (to_lower ''data'') '''' '''') empty_cluster = (Inr creds, w1)"
    by (simp add: GrantBucketAccess_def grantAccess_def run_simps Let_def)
  then show ?thesis
    using c ext trim
    by (auto simp: DriverGrantBucketAccess_def example_server_def NewServer_def example_grant_def run_simps Let_def)
qed

theorem cosi_grant_revoke_roundtrip_witness:
  "\<exists>resp w1 m. run_state (DriverGrantBucketAccess example_server (Some example_grant)) empty_cluster = (Inr resp, w1) \<and>
     smap_get m ''accessKeyID'' = minio_accessKeyForAccount (granted_AccountId resp)"
proof -
  obtain resp w1 where run: "run_state (DriverGrantBucketAccess example_server (Some example_grant)) empty_cluster = (Inr resp, w1)"
    using example_grant_run by blast
  have "list_all graphic (grant_Name example_grant)" by (simp add: example_grant_def graphic_def)
  from cosi_grant_revoke_roundtrip [OF run this]
  have "\<exists>m. smap_get m ''accessKeyID'' = minio_accessKeyForAccount (granted_AccountId resp)"
    by (auto simp: example_server_def NewServer_def example_grant_def)
  with run show ?thesis by blast
qed

section \<open>Deletion\<close>

lemma class_name_prefix: "prefix (BucketClassNameFromBucketObjectName s) (trim_space s)"
  by (simp add: BucketClassNameFromBucketObjectName_def Let_def take_is_prefix)

lemma guessed_class_retains:
  assumes "BucketClassNameFromBucketObjectName (trim_space s) \<noteq> ''''"
  shows "\<exists>cls. syntheticClassFromParameters d (BucketClassNameFromBucketObjectName (trim_space s)) [] = Inr cls \<and>
           class_DeletionPolicy cls = DeletionPolicyRetain"
proof -
  have "trim_space (BucketClassNameFromBucketObjectName (trim_space s)) \<noteq> ''''"
    using trim_space_prefix [OF _ class_name_prefix [of "trim_space s"]] assms by simp
  then show ?thesis by (simp add: syntheticClassFromParameters_def Let_def)
qed

lemma DriverDelete_run:
  "run_state (DriverDeleteBucket s (Some b)) w =
     (if trim_space b = '''' then (invalid_argument ''bucket_id is required'', w)
      else (case cs_KubeClient s of
              None \<Rightarrow> (Inr (), w)
            | Some k \<Rightarrow>
                (case run_state (k_GetUnstructured k ''Bucket'' '''' (trim_space b)) w of
                   (Inl _, w1) \<Rightarrow> (Inr (), w1)
                 | (Inr bk, w1) \<Rightarrow>
                     if trim_space (nested_string (u_Object bk) ''spec'' ''deletionPolicy'') \<noteq> ''Delete''
                     then (Inr (), w1)
                     else (case run_state (DeleteBucket (cs_Provider s) (to_lower (trim_space b))) w1 of
                             (None, w2) \<Rightarrow> (Inr (), w2) | (Some e, w2) \<Rightarrow> (grpc_error e, w2)))))"
proof -
  let ?n = "BucketClassNameFromBucketObjectName (trim_space b)"
  have kind: "gvk_Kind BucketGVK = ''Bucket''" by (simp add: BucketGVK_def KindBucket_def)
  have retain: "DeletionPolicyRetain \<noteq> DeletionPolicyDelete"
    by (simp add: DeletionPolicyDelete_def DeletionPolicyRetain_def)
  have guess: "run_state (deletion_decided s (trim_space b)) w =
      (case cs_KubeClient s of
         None \<Rightarrow> (Inr False, w)
       | Some k \<Rightarrow>
           (case run_state (k_GetUnstructured k ''Bucket'' '''' (trim_space b)) w of
              (Inl _, w1) \<Rightarrow> (Inr False, w1)
            | (Inr bk, w1) \<Rightarrow>
                (Inr (trim_space (nested_string (u_Object bk) ''spec'' ''deletionPolicy'') = ''Delete''), w1)))"
  proof (cases "?n = ''''")
    case True
    then show ?thesis
      by (simp add: deletion_decided_def kind run_simps DeletionPolicyDelete_def split: option.split sum.split prod.split)
  next
    case False
    then obtain cls where "syntheticClassFromParameters (cs_DriverName s) ?n [] = Inr cls"
        "class_DeletionPolicy cls = DeletionPolicyRetain"
      using guessed_class_retains [OF False] by blast
    with False show ?thesis
      by (simp add: deletion_decided_def kind run_simps retain split: option.split sum.split prod.split)
         (simp add: DeletionPolicyDelete_def)
  qed
  show ?thesis
    unfolding DriverDeleteBucket_def Let_def
    by (simp add: run_simps guess split: option.split sum.split prod.split)
qed

text \<open>C13. A bucket is deleted only on the word of its Bucket object: the driver calls \<^verbatim>\<open>DeleteBucket\<close>, on the
  lower-cased id, exactly where a client is configured, the object can be read, and its deletion policy
  is \<^verbatim>\<open>Delete\<close>. Everything else answers success and leaves the backend alone, also the fallback that
  guesses the class from the name, since a guessed class always retains.\<close>

theorem cosi_delete_policy:
  "run_state (DriverDeleteBucket s (Some b)) w =
     (if trim_space b = '''' then (invalid_argument ''bucket_id is required'', w)
      else (case cs_KubeClient s of
              None \<Rightarrow> (Inr (), w)
            | Some k \<Rightarrow>
                (case run_state (k_GetUnstructured k ''Bucket'' '''' (trim_space b)) w of
                   (Inl _, w1) \<Rightarrow> (Inr (), w1)
                 | (Inr bk, w1) \<Rightarrow>
                     if trim_space (nested_string (u_Object bk) ''spec'' ''deletionPolicy'') \<noteq> ''Delete''
                     then (Inr (), w1)
                     else (case run_state (DeleteBucket (cs_Provider s) (to_lower (trim_space b))) w1 of
                             (None, w2) \<Rightarrow> (Inr (), w2) | (Some e, w2) \<Rightarrow> (grpc_error e, w2)))))"
  by (rule DriverDelete_run)

section \<open>Creation\<close>

lemma create_claim_ok:
  assumes "create_claim s req = Inr (claim, cls)" and "list_all graphic (create_Name req)"
    and "trim_space (create_Name req) \<noteq> ''''"
  shows "provision_bucket_name claim cls' = to_lower (create_Name req)"
    and "smap_get (class_Parameters cls) ''region'' \<noteq> ''''"
    and "trim_space (smap_get (class_Parameters cls) ''region'') = smap_get (class_Parameters cls) ''region''"
proof -
  let ?n = "create_Name req"
  obtain c where c: "BuildSyntheticClaim ''cosi'' ?n (create_Parameters req) = Inr c"
      and e: "ApplyClaimParameterExtensions (cs_ParseQuantity s) c (create_Parameters req) = Inr claim"
      and k: "syntheticClassFromParameters (cs_DriverName s) (spec_BucketClassName (claim_Spec claim))
                (create_Parameters req) = Inr cls"
    using assms(1) by (auto simp: create_claim_def Let_def split: sum.splits)
  have "spec_BucketName (claim_Spec claim) = to_lower ?n"
    using extension_keeps [OF e] c graphic_trim [OF assms(2)]
    by (auto simp: BuildSyntheticClaim_def Let_def split: if_splits)
  moreover have "trim_space (to_lower ?n) = to_lower ?n"
    by (rule graphic_trim [OF graphic_to_lower [OF assms(2)]])
  moreover have "?n \<noteq> ''''" using assms(3) by auto
  ultimately show "provision_bucket_name claim cls' = to_lower ?n"
    by (simp add: provision_bucket_name_def Let_def to_lower_idem [OF graphic_ascii [OF assms(2)]])
  show "smap_get (class_Parameters cls) ''region'' \<noteq> ''''"
    "trim_space (smap_get (class_Parameters cls) ''region'') = smap_get (class_Parameters cls) ''region''"
    using k by (auto simp: syntheticClassFromParameters_def Let_def smap_get_def update_conv'
        trim_space_graphic graphic_def split: if_splits)
qed

lemma plan_created:
  assumes "result_of (createBucketAndConfigure mc claim cls) w = (n, None)"
  shows "n = provision_bucket_name claim cls"
    and "result_of (CreateBucket mc n (provision_region cls) (class_ObjectLockingEnabled cls)) w = None"
  using assms by (auto simp: provision_result planned_steps_def Let_def run_simps split: prod.splits option.splits)

text \<open>C17. Creation and deletion agree on the bucket: for a name without spaces, the id that a create request
  answers is the lower-cased name, whatever its parameters say; that bucket was created, in the region
  that is answered; and deleting by that id, where the Bucket object asks for it, deletes that bucket.
  So the parameter \<^verbatim>\<open>bucketName\<close>, which docs/COSI.md says forces the name of the bucket, is without
  effect: the synthetic claim always names the bucket, and provisioning reads the parameter only where
  the claim does not.\<close>

theorem cosi_create_delete_roundtrip:
  assumes "run_state (DriverCreateBucket s (Some req)) w = (Inr resp, w1)"
    and "list_all graphic (create_Name req)"
  shows "created_BucketId resp = to_lower (create_Name req) \<and>
    (\<exists>lock. result_of (CreateBucket (cs_Provider s) (created_BucketId resp) (created_Region resp) lock) w = None) \<and>
    (\<forall>k bk w2 w3. cs_KubeClient s = Some k \<and>
       run_state (k_GetUnstructured k ''Bucket'' '''' (created_BucketId resp)) w2 = (Inr bk, w3) \<and>
       nested_string (u_Object bk) ''spec'' ''deletionPolicy'' = ''Delete'' \<longrightarrow>
       run_state (DriverDeleteBucket s (Some (created_BucketId resp))) w2 =
         (case run_state (DeleteBucket (cs_Provider s) (created_BucketId resp)) w3 of
            (None, w4) \<Rightarrow> (Inr (), w4) | (Some e, w4) \<Rightarrow> (grpc_error e, w4)))"
proof -
  let ?n = "create_Name req"
  have named: "trim_space ?n \<noteq> ''''"
    using assms(1) by (auto simp: DriverCreateBucket_def invalid_argument_def run_simps split: if_splits)
  obtain claim cls where c: "create_claim s req = Inr (claim, cls)"
    using assms(1) named
    by (auto simp: DriverCreateBucket_def invalid_argument_def run_simps split: sum.splits)
  note ok = create_claim_ok [OF c assms(2) named]
  from assms(1) named c obtain b where b: "result_of (createBucketAndConfigure (cs_Provider s) claim cls) w = (b, None)"
      and resp: "resp = create_response b cls"
    by (auto simp: DriverCreateBucket_def ProvisionBucket_def run_simps grpc_error_def
        split: prod.splits option.splits)
  from plan_created [OF b] ok(1) have id: "created_BucketId resp = to_lower ?n" "b = to_lower ?n"
    by (simp_all add: resp create_response_def Let_def)
  have "created_Region resp = provision_region cls"
    using ok(2,3) by (simp add: resp create_response_def provision_region_def Let_def)
  with plan_created(2) [OF b] id have created:
    "result_of (CreateBucket (cs_Provider s) (created_BucketId resp) (created_Region resp)
       (class_ObjectLockingEnabled cls)) w = None" by simp
  have trim: "trim_space (to_lower ?n) = to_lower ?n" "to_lower (to_lower ?n) = to_lower ?n" "to_lower ?n \<noteq> ''''"
    using assms(2) named by (auto simp: graphic_trim graphic_to_lower to_lower_idem graphic_ascii)
  have policy: "trim_space ''Delete'' = ''Delete''" by (simp add: trim_space_graphic graphic_def)
  show ?thesis
    using id created trim policy by (auto simp: DriverDelete_run)
qed

definition example_create :: DriverCreateBucketRequest where
  "example_create = \<lparr>create_Name = ''Data'', create_Parameters = [(''bucketName'', ''other'')]\<rparr>"

lemma example_create_claim:
  "\<exists>claim cls. create_claim example_server example_create = Inr (claim, cls) \<and>
     provision_bucket_name claim cls = ''data'' \<and> claim_Spec claim =
       (claim_Spec zero_claim)\<lparr>spec_BucketClassName := ''cosi-bucketclass'', spec_Protocols := [''S3''],
          spec_BucketName := ''data'', spec_AccessType := AccessTypeReadWrite\<rparr> \<and>
     create_response ''data'' cls =
       \<lparr>created_BucketId = ''data'', created_Region = ''us-east-1'', created_SignatureVersion = ''S3V4''\<rparr>"
proof -
  let ?ps = "[(''bucketName'', ''other'')]"
  have trim: "trim_space ''Data'' = ''Data''" "trim_space ''cosi-bucketclass'' = ''cosi-bucketclass''"
      "trim_space ''data'' = ''data''" "trim_space ''us-east-1'' = ''us-east-1''"
    by (simp_all add: trim_space_graphic graphic_def)
  have lower: "to_lower ''Data'' = ''data''" "to_lower ''data'' = ''data''" by code_simp+
  have cls: "BucketClassNameFromBucketObjectName ''Data'' = ''''" by code_simp
  obtain c where c: "BuildSyntheticClaim ''cosi'' ''Data'' ?ps = Inr c" "claim_Spec c =
       (claim_Spec zero_claim)\<lparr>spec_BucketClassName := ''cosi-bucketclass'', spec_Protocols := [''S3''],
          spec_BucketName := ''data'', spec_AccessType := AccessTypeReadWrite\<rparr>"
    by (simp add: BuildSyntheticClaim_def Let_def trim lower cls smap_get_def)
  have ext: "ApplyClaimParameterExtensions pq c ?ps = Inr c" for pq
    by (simp add: ApplyClaimParameterExtensions_def extend_quota_def extend_lifecycle_def extend_access_type_def
        extend_replication_def setting_def)
  have "\<exists>cls. syntheticClassFromParameters d ''cosi-bucketclass'' ?ps = Inr cls \<and>
      trim_space (smap_get (class_Parameters cls) ''region'') = ''us-east-1''" for d
    by (simp add: syntheticClassFromParameters_def Let_def trim smap_get_def)
  then obtain cls where "syntheticClassFromParameters (cs_DriverName example_server) ''cosi-bucketclass'' ?ps = Inr cls"
      "trim_space (smap_get (class_Parameters cls) ''region'') = ''us-east-1''" by blast
  with c ext show ?thesis
    by (simp add: create_claim_def example_create_def provision_bucket_name_def create_response_def trim lower)
qed

lemma example_create_run:
  "\<exists>w1. run_state (DriverCreateBucket example_server (Some example_create)) empty_cluster =
     (Inr \<lparr>created_BucketId = ''data'', created_Region = ''us-east-1'', created_SignatureVersion = ''S3V4''\<rparr>, w1)"
proof -
  let ?p = "minio_provider cluster_minio mem_client"
  obtain claim cls where c: "create_claim example_server example_create = Inr (claim, cls)"
      "provision_bucket_name claim cls = ''data''" "spec_Quota (claim_Spec claim) = None"
      "spec_LifecycleRules (claim_Spec claim) = []" "spec_ReplicationTarget (claim_Spec claim) = None"
      "create_response ''data'' cls =
         \<lparr>created_BucketId = ''data'', created_Region = ''us-east-1'', created_SignatureVersion = ''S3V4''\<rparr>"
    using example_create_claim by (auto simp: zero_claim_def)
  have "result_of (CreateBucket ?p ''data'' r l) empty_cluster = None" for r l
    by (simp add: minio_provider_def minio_CreateBucket_def cluster_minio_def mem_sdk_def mem_client_def
        empty_cluster_def mem_empty_def run_simps)
  then obtain w1 where "run_state (CreateBucket ?p ''data'' (provision_region cls) (class_ObjectLockingEnabled cls))
      empty_cluster = (None, w1)"
    by (metis prod.collapse)
  then have "\<exists>w1. run_state (createBucketAndConfigure ?p claim cls) empty_cluster = ((''data'', None), w1)"
    using c by (simp add: createBucketAndConfigure_def run_simps Let_def minio_provider_def)
  moreover have "trim_space (create_Name example_create) \<noteq> ''''"
    by (simp add: example_create_def trim_space_graphic graphic_def)
  moreover have "cs_Provider example_server = ?p" by (simp add: example_server_def NewServer_def)
  ultimately show ?thesis
    using c by (auto simp: DriverCreateBucket_def ProvisionBucket_def run_simps)
qed

theorem cosi_create_delete_roundtrip_witness:
  "\<exists>resp w1. run_state (DriverCreateBucket example_server (Some example_create)) empty_cluster = (Inr resp, w1) \<and>
     smap_get (create_Parameters example_create) ''bucketName'' = ''other'' \<and>
     created_BucketId resp = ''data'' \<and> created_Region resp = ''us-east-1'' \<and>
     (\<exists>lock. result_of (CreateBucket (cs_Provider example_server) ''data'' ''us-east-1'' lock) empty_cluster = None)"
proof -
  let ?r = "\<lparr>created_BucketId = ''data'', created_Region = ''us-east-1'', created_SignatureVersion = ''S3V4''\<rparr>"
  obtain w1 where run: "run_state (DriverCreateBucket example_server (Some example_create)) empty_cluster = (Inr ?r, w1)"
    using example_create_run by blast
  have "list_all graphic (create_Name example_create)" by (simp add: example_create_def graphic_def)
  note created = cosi_create_delete_roundtrip [OF run this, THEN conjunct2, THEN conjunct1]
  have "\<exists>lock. result_of (CreateBucket (cs_Provider example_server) ''data'' ''us-east-1'' lock) empty_cluster = None"
    using created by simp
  moreover have "smap_get (create_Parameters example_create) ''bucketName'' = ''other''"
    by (simp add: example_create_def)
  ultimately show ?thesis using run by fastforce
qed

section \<open>Errors\<close>

lemma grpc_error_status: "grpc_error e = Inl e' \<Longrightarrow> errors_as grpc_of e' \<noteq> None"
  by (auto simp: grpc_error_def grpcErr_def Let_def split: option.splits if_splits)

lemma grpc_error_Inl: "\<exists>e'. grpc_error e = Inl e'"
  by (simp add: grpc_error_def split: option.split)

lemma invalid_argument_status: "invalid_argument m = Inl e \<Longrightarrow> errors_as grpc_of e \<noteq> None"
  by (auto simp: invalid_argument_def)

lemmas handler_errors = grpc_error_status invalid_argument_status

lemma grpcErr_cases:
  "errors_as grpc_of e \<noteq> None \<Longrightarrow> grpcErr (Some e) = Some e"
  "errors_as grpc_of e = None \<Longrightarrow> errors_as provisioning_of e = Some (op, b, e') \<Longrightarrow>
     grpcErr (Some e) = Some (ErrGrpc (if IsTransientMinioError (Some (ErrProvisioning op b e')) then Unavailable else Internal)
       (err_text (ErrProvisioning op b e')))"
  "errors_as grpc_of e = None \<Longrightarrow> errors_as provisioning_of e = None \<Longrightarrow>
     grpcErr (Some e) = Some (ErrGrpc (if IsTransientMinioError (Some e) then Unavailable else Internal) (err_text e))"
  by (auto simp: grpcErr_def Let_def)

lemma grpcErr_status: "grpcErr (Some e) = Some e' \<Longrightarrow> errors_as grpc_of e' \<noteq> None"
  by (auto simp: grpcErr_def Let_def split: option.splits if_splits)

lemma handler_error_status:
  "DriverGetInfo s = Inl e \<Longrightarrow> errors_as grpc_of e \<noteq> None"
  "result_of (DriverCreateBucket s r1) w = Inl e \<Longrightarrow> errors_as grpc_of e \<noteq> None"
  "result_of (DriverDeleteBucket s r2) w = Inl e \<Longrightarrow> errors_as grpc_of e \<noteq> None"
  "result_of (DriverGrantBucketAccess s r3) w = Inl e \<Longrightarrow> errors_as grpc_of e \<noteq> None"
  "result_of (DriverRevokeBucketAccess s r4) w = Inl e \<Longrightarrow> errors_as grpc_of e \<noteq> None"
proof -
  show "DriverGetInfo s = Inl e \<Longrightarrow> errors_as grpc_of e \<noteq> None"
    by (auto simp: DriverGetInfo_def split: if_splits)
  show "result_of (DriverCreateBucket s r1) w = Inl e \<Longrightarrow> errors_as grpc_of e \<noteq> None"
    by (auto simp: DriverCreateBucket_def run_simps split: option.splits if_splits sum.splits prod.splits
        dest: handler_errors)
  show "result_of (DriverGrantBucketAccess s r3) w = Inl e \<Longrightarrow> errors_as grpc_of e \<noteq> None"
    by (auto simp: DriverGrantBucketAccess_def run_simps Let_def
        split: option.splits if_splits sum.splits prod.splits AuthenticationType.splits dest: handler_errors)
  show "result_of (DriverRevokeBucketAccess s r4) w = Inl e \<Longrightarrow> errors_as grpc_of e \<noteq> None"
    by (auto simp: DriverRevokeBucketAccess_def run_simps Let_def
        split: option.splits if_splits sum.splits prod.splits dest: handler_errors)
  show "result_of (DriverDeleteBucket s r2) w = Inl e \<Longrightarrow> errors_as grpc_of e \<noteq> None"
    by (auto simp: DriverDeleteBucket_def deletion_decided_def run_simps Let_def
        split: option.splits if_splits sum.splits prod.splits dest: handler_errors)
qed

text \<open>C36. Errors are typed: whatever a handler returns as an error is a gRPC status. An error that has a
  status in its chain is passed on as it is, no error stays no error, and any other error becomes a
  status: \<^verbatim>\<open>Unavailable\<close> exactly where provisioning classifies it as transient and \<^verbatim>\<open>Internal\<close> otherwise,
  with its text, or with the text of the \<^verbatim>\<open>ProvisioningError\<close> in its chain where there is one. So
  translating twice changes nothing.\<close>

theorem cosi_errors_are_statuses:
  "(DriverGetInfo s = Inl e \<or> result_of (DriverCreateBucket s r1) w = Inl e \<or>
      result_of (DriverDeleteBucket s r2) w = Inl e \<or> result_of (DriverGrantBucketAccess s r3) w = Inl e \<or>
      result_of (DriverRevokeBucketAccess s r4) w = Inl e \<longrightarrow> (\<exists>code. errors_as grpc_of e = Some code)) \<and>
   grpcErr None = None \<and>
   (errors_as grpc_of err = Some code \<longrightarrow> grpcErr (Some err) = Some err) \<and>
   (errors_as grpc_of err = None \<and> errors_as provisioning_of err = None \<longrightarrow>
      grpcErr (Some err) =
        Some (ErrGrpc (if IsTransientMinioError (Some err) then Unavailable else Internal) (err_text err))) \<and>
   (errors_as grpc_of err = None \<and> errors_as provisioning_of err = Some (op', b', err') \<longrightarrow>
      grpcErr (Some err) =
        Some (ErrGrpc (if IsTransientMinioError (Some (ErrProvisioning op' b' err')) then Unavailable else Internal)
          (err_text (ErrProvisioning op' b' err')))) \<and>
   (errors_as grpc_of err = None \<longrightarrow>
      grpcErr (Some (ErrProvisioning op b err)) =
        Some (ErrGrpc (if IsTransientMinioError (Some (ErrProvisioning op b err)) then Unavailable else Internal)
          (err_text (ErrProvisioning op b err)))) \<and>
   grpcErr (grpcErr (Some err)) = grpcErr (Some err)"
proof (intro conjI impI)
  assume "DriverGetInfo s = Inl e \<or> result_of (DriverCreateBucket s r1) w = Inl e \<or>
      result_of (DriverDeleteBucket s r2) w = Inl e \<or> result_of (DriverGrantBucketAccess s r3) w = Inl e \<or>
      result_of (DriverRevokeBucketAccess s r4) w = Inl e"
  then show "\<exists>code. errors_as grpc_of e = Some code"
    by (metis handler_error_status not_Some_eq)
next
  show "grpcErr None = None" by (simp add: grpcErr_def)
  show "grpcErr (Some err) = Some err" if "errors_as grpc_of err = Some code"
    using that by (simp add: grpcErr_cases(1))
  show "grpcErr (Some err) =
      Some (ErrGrpc (if IsTransientMinioError (Some err) then Unavailable else Internal) (err_text err))"
    if "errors_as grpc_of err = None \<and> errors_as provisioning_of err = None"
    using that by (simp add: grpcErr_cases(3))
  show "grpcErr (Some err) =
      Some (ErrGrpc (if IsTransientMinioError (Some (ErrProvisioning op' b' err')) then Unavailable else Internal)
        (err_text (ErrProvisioning op' b' err')))"
    if "errors_as grpc_of err = None \<and> errors_as provisioning_of err = Some (op', b', err')"
    using that by (simp add: grpcErr_cases(2))
  show "grpcErr (Some (ErrProvisioning op b err)) =
      Some (ErrGrpc (if IsTransientMinioError (Some (ErrProvisioning op b err)) then Unavailable else Internal)
        (err_text (ErrProvisioning op b err)))" if "errors_as grpc_of err = None"
    using that by (intro grpcErr_cases) (simp_all add: errors_as_provisioning errors_as_head)
next
  have "grpcErr (Some err) \<noteq> None" by (auto simp: grpcErr_def Let_def split: option.split)
  then obtain e' where e': "grpcErr (Some err) = Some e'" by blast
  then show "grpcErr (grpcErr (Some err)) = grpcErr (Some err)"
    using grpcErr_cases(1) [OF grpcErr_status [OF e']] by simp
qed

theorem cosi_errors_are_statuses_witness:
  "result_of (DriverRevokeBucketAccess example_server None) empty_cluster =
     Inl (ErrGrpc InvalidArgument ''bucket_id and account_id are required'') \<and>
   errors_as grpc_of (ErrGrpc InvalidArgument ''bucket_id and account_id are required'') \<noteq> None \<and>
   grpcErr (Some (ErrProvisioning OpGrantAccess ''data'' (ErrNet True False ''i/o timeout''))) =
     Some (ErrGrpc Unavailable ''grant_access failed for bucket data: i/o timeout'') \<and>
   grpcErr (Some (ErrNet True False ''i/o timeout'')) = Some (ErrGrpc Unavailable ''i/o timeout'') \<and>
   grpcErr (Some (ErrWrap ''create: '' (ErrGrpc FailedPrecondition ''busy'') '''')) =
     Some (ErrWrap ''create: '' (ErrGrpc FailedPrecondition ''busy'') '''')"
proof -
  let ?e = "ErrGrpc InvalidArgument ''bucket_id and account_id are required''"
  let ?net = "ErrNet True False ''i/o timeout''"
  let ?wrapped = "ErrWrap ''create: '' (ErrGrpc FailedPrecondition ''busy'') ''''"
  have r: "result_of (DriverRevokeBucketAccess example_server None) empty_cluster = Inl ?e"
    by (simp add: DriverRevokeBucketAccess_def invalid_argument_def run_simps)
  have t: "IsTransientMinioError (Some (ErrProvisioning OpGrantAccess ''data'' ?net))"
    "IsTransientMinioError (Some ?net)"
    by (simp_all add: IsTransientMinioError_def)
  note c = cosi_errors_are_statuses [where s = example_server and e = ?e and ?r4.0 = None and w = empty_cluster
      and err = ?net and op = OpGrantAccess and b = "''data''"]
  note passed = cosi_errors_are_statuses [where err = ?wrapped and code = FailedPrecondition,
      THEN conjunct2, THEN conjunct2, THEN conjunct1]
  from c r have "errors_as grpc_of ?e \<noteq> None" by auto
  moreover from c t have "grpcErr (Some (ErrProvisioning OpGrantAccess ''data'' ?net)) =
     Some (ErrGrpc Unavailable ''grant_access failed for bucket data: i/o timeout'')"
    "grpcErr (Some ?net) = Some (ErrGrpc Unavailable ''i/o timeout'')" by simp_all
  moreover from passed have "grpcErr (Some ?wrapped) = Some ?wrapped" by simp
  ultimately show ?thesis using r by blast
qed

end
