(* ===== verification/Go_Flags.thy ===== *)
theory Go_Flags
  imports Go_Strings
begin

text \<open>
  Go's \<^verbatim>\<open>flag\<close> package, as far as cmd/main.go uses it: a set of named flags that write the variables of a
  state \<open>'s\<close>, and \<^verbatim>\<open>Parse\<close>. The loop consumes one argument, or two where a flag takes the next one as its
  value, and stops at the first argument that is not a flag.
\<close>

section \<open>Flags\<close>

text \<open>A \<^verbatim>\<open>flag.Value\<close>: whether it is boolean, and its \<^verbatim>\<open>Set\<close>, which may refuse the text.\<close>

record 's flag_var =
  flag_IsBool :: bool
  flag_Set :: "string \<Rightarrow> 's \<Rightarrow> 's option"

definition string_var :: "(string \<Rightarrow> 's \<Rightarrow> 's) \<Rightarrow> 's flag_var" where
  "string_var put = \<lparr>flag_IsBool = False, flag_Set = (\<lambda>x s. Some (put x s))\<rparr>"

definition bool_var :: "(bool \<Rightarrow> 's \<Rightarrow> 's) \<Rightarrow> 's flag_var" where
  "bool_var put = \<lparr>flag_IsBool = True, flag_Set = (\<lambda>x s. map_option (\<lambda>b. put b s) (parse_bool x))\<rparr>"

section \<open>Parsing\<close>

datatype flag_error =
  ErrHelp | BadSyntax string | NotDefined string | NeedsArgument string | InvalidValue string string

text \<open>
  One argument: not a flag, the terminator \<^verbatim>\<open>--\<close>, a flag with the value after its first \<^verbatim>\<open>=\<close> if there is
  one beyond its first character, or neither of them.
\<close>

datatype flag_arg = NotFlag | Terminator | Malformed | Flag string "string option"

definition split_value :: "string \<Rightarrow> flag_arg" where
  "split_value n =
     (case n of
        [] \<Rightarrow> Malformed
      | c # cs \<Rightarrow>
          if c = CHR ''-'' \<or> c = CHR ''='' then Malformed
          else (case dropWhile (\<lambda>d. d \<noteq> CHR ''='') cs of
                  [] \<Rightarrow> Flag n None
                | _ # v \<Rightarrow> Flag (c # takeWhile (\<lambda>d. d \<noteq> CHR ''='') cs) (Some v)))"

definition flag_argument :: "string \<Rightarrow> flag_arg" where
  "flag_argument s =
     (case s of
        c # d # n \<Rightarrow>
          if c \<noteq> CHR ''-'' then NotFlag
          else if d = CHR ''-'' then (if n = [] then Terminator else split_value n)
          else split_value (d # n)
      | _ \<Rightarrow> NotFlag)"

text \<open>\<^verbatim>\<open>Parse\<close>: the variables it leaves and the arguments it has not read, or the first error.\<close>

fun flag_parse :: "(string \<times> 's flag_var) list \<Rightarrow> string list \<Rightarrow> 's \<Rightarrow> flag_error + 's \<times> string list" where
  "flag_parse fs [] s = Inr (s, [])"
| "flag_parse fs (a # args) s =
     (case flag_argument a of
        NotFlag \<Rightarrow> Inr (s, a # args)
      | Terminator \<Rightarrow> Inr (s, args)
      | Malformed \<Rightarrow> Inl (BadSyntax a)
      | Flag n value \<Rightarrow>
          (case map_of fs n of
             None \<Rightarrow> Inl (if n = ''help'' \<or> n = ''h'' then ErrHelp else NotDefined n)
           | Some f \<Rightarrow>
               if flag_IsBool f then
                 (let x = (case value of Some x \<Rightarrow> x | None \<Rightarrow> ''true'') in
                  case flag_Set f x s of None \<Rightarrow> Inl (InvalidValue n x) | Some s' \<Rightarrow> flag_parse fs args s')
               else
                 (case value of
                    Some x \<Rightarrow> (case flag_Set f x s of None \<Rightarrow> Inl (InvalidValue n x) | Some s' \<Rightarrow> flag_parse fs args s')
                  | None \<Rightarrow>
                      (case args of
                         [] \<Rightarrow> Inl (NeedsArgument n)
                       | x # rest \<Rightarrow>
                           (case flag_Set f x s of
                              None \<Rightarrow> Inl (InvalidValue n x) | Some s' \<Rightarrow> flag_parse fs rest s')))))"

section \<open>Lemmas: reading back a flag\<close>

text \<open>How a flag can be written: with one dash or two, and its value in the same argument or in the next one.\<close>

datatype spelling = Spelling (two_dashes: bool) (apart: bool)

definition dashes :: "bool \<Rightarrow> string" where
  "dashes two = (if two then ''--'' else ''-'')"

definition spell :: "spelling \<Rightarrow> string \<Rightarrow> string \<Rightarrow> string list" where
  "spell sp n x =
     (if apart sp then [dashes (two_dashes sp) @ n, x] else [dashes (two_dashes sp) @ n @ CHR ''='' # x])"

definition flag_name :: "string \<Rightarrow> bool" where
  "flag_name n \<longleftrightarrow> n \<noteq> '''' \<and> hd n \<noteq> CHR ''-'' \<and> CHR ''='' \<notin> set n"

lemma dropWhile_value: "c \<notin> set n \<Longrightarrow> dropWhile (\<lambda>d. d \<noteq> c) (n @ c # x) = c # x"
  by (induction n) auto

lemma takeWhile_value: "c \<notin> set n \<Longrightarrow> takeWhile (\<lambda>d. d \<noteq> c) (n @ c # x) = n"
  by (induction n) auto

lemma dropWhile_no_value: "c \<notin> set n \<Longrightarrow> dropWhile (\<lambda>d. d \<noteq> c) n = []"
  by (induction n) auto

lemma flag_argument_spelled:
  assumes "flag_name n"
  shows "flag_argument (dashes two @ n @ CHR ''='' # x) = Flag n (Some x)"
    and "flag_argument (dashes two @ n) = Flag n None"
  using assms
  by (cases n; auto simp: dashes_def flag_name_def flag_argument_def split_value_def dropWhile_value takeWhile_value
      dropWhile_no_value)+

text \<open>A flag set in any spelling has its value, and the arguments after it are read as if it were not there.\<close>

lemma flag_parse_spelled:
  assumes "flag_name n" and "map_of fs n = Some f" and "flag_Set f x s = Some s'" and "flag_IsBool f \<Longrightarrow> \<not> apart sp"
  shows "flag_parse fs (spell sp n x @ rest) s = flag_parse fs rest s'"
  using assms flag_argument_spelled [OF assms(1), of "two_dashes sp"]
  by (cases "apart sp"; cases "flag_IsBool f") (simp_all add: spell_def)

text \<open>An argument that names no flag ends the parsing with an error, whatever follows.\<close>

lemma flag_parse_undefined:
  assumes "flag_name n" and "map_of fs n = None" and "n \<notin> {''h'', ''help''}"
  shows "flag_parse fs (spell sp n x @ rest) s = Inl (NotDefined n)"
  using assms flag_argument_spelled [OF assms(1), of "two_dashes sp"] by (simp add: spell_def)

end
