(* ===== verification/Operator.thy ===== *)
theory Operator
  imports Claim_Progress Bucketaccess_Controller Cosi_Server Go_Flags
begin

text \<open>
  The process: \<^verbatim>\<open>Start\<close> of the COSI server (internal/cosi/server.go), which prepares its socket and serves,
  and \<^verbatim>\<open>main\<close> (cmd/main.go), which reads the command line and the environment, builds the components and hands
  them to the manager. The manager of controller-runtime, the flags that libraries register, the file
  system and the listener are parameters; the logging is not modelled.
\<close>

section \<open>The directory of the socket\<close>

text \<open>\<^verbatim>\<open>filepath.Clean\<close> on Unix, on the components between the slashes, and \<^verbatim>\<open>filepath.Dir\<close>.\<close>

fun clean_parts :: "bool \<Rightarrow> string list \<Rightarrow> string list \<Rightarrow> string list" where
  "clean_parts rooted out [] = rev out"
| "clean_parts rooted out (p # ps) =
     (if p = '''' \<or> p = ''.'' then clean_parts rooted out ps
      else if p = ''..'' then
        (case out of
           [] \<Rightarrow> clean_parts rooted (if rooted then [] else [''..'']) ps
         | q # qs \<Rightarrow> if q = ''..'' then clean_parts rooted (''..'' # out) ps else clean_parts rooted qs ps)
      else clean_parts rooted (p # out) ps)"

fun split_slash :: "string \<Rightarrow> string \<Rightarrow> string list" where
  "split_slash acc [] = [rev acc]"
| "split_slash acc (c # cs) = (if c = CHR ''/'' then rev acc # split_slash '''' cs else split_slash (c # acc) cs)"

fun join_slash :: "string list \<Rightarrow> string" where
  "join_slash [] = ''''"
| "join_slash [p] = p"
| "join_slash (p # ps) = p @ ''/'' @ join_slash ps"

definition path_clean :: "string \<Rightarrow> string" where
  "path_clean path =
     (let rooted = (path \<noteq> '''' \<and> hd path = CHR ''/'');
          body = join_slash (clean_parts rooted [] (split_slash '''' path))
      in if rooted then ''/'' @ body else if body = '''' then ''.'' else body)"

definition path_dir :: "string \<Rightarrow> string" where
  "path_dir path = path_clean (rev (dropWhile (\<lambda>c. c \<noteq> CHR ''/'') (rev path)))"

lemma path_dir_examples:
  "path_dir ''/var/lib/cosi/cosi.sock'' = ''/var/lib/cosi''" "path_dir ''cosi.sock'' = ''.''"
  "path_dir ''/a/./b//../c/s'' = ''/a/c''" "path_dir ''../x/../s'' = ''..''" "path_dir ''/s'' = ''/''"
  by code_simp+

section \<open>Start\<close>

text \<open>
  What \<^verbatim>\<open>Start\<close> uses of the system, over an address space \<open>'l\<close> of listeners. Serving ends by the
  context's cancellation, after which the server is stopped gracefully, or by an error of its own.
\<close>

datatype served = Cancelled | Served "go_error option"

record ('l, 'w) system =
  sys_MkdirAll :: "string \<Rightarrow> ('w, go_error option) state"
  sys_Remove :: "string \<Rightarrow> ('w, go_error option) state"
  sys_ListenUnix :: "string \<Rightarrow> ('w, go_error + 'l) state"
  sys_Chmod :: "string \<Rightarrow> ('w, go_error option) state"
  sys_Serve :: "'w cosi_server \<Rightarrow> 'l \<Rightarrow> ('w, served) state"
  sys_GracefulStop :: "'l \<Rightarrow> ('w, unit) state"

definition Start :: "('l, 'w) system \<Rightarrow> 'w cosi_server \<Rightarrow> ('w, go_error option) state" where
  "Start sys s =
     (let sock = cs_sockPath s in
      if trim_space sock = '''' then ret (Some (ErrText ''COSI socket path is empty''))
      else
        if_err (sys_MkdirAll sys (path_dir sock)) (\<lambda>e. Some (ErrWrap ''create cosi socket dir: '' e '''')) (do {
          _ \<leftarrow> sys_Remove sys sock;
          val_or_err (sys_ListenUnix sys sock) (\<lambda>e. Some (ErrWrap (''listen unix '' @ quote sock @ '': '') e ''''))
            (\<lambda>lis. if_err (sys_Chmod sys sock) (\<lambda>e. Some (ErrWrap ''chmod cosi socket: '' e '''')) (do {
               r \<leftarrow> sys_Serve sys s lis;
               case r of
                 Cancelled \<Rightarrow> do { _ \<leftarrow> sys_GracefulStop sys lis; ret None }
               | Served err \<Rightarrow> ret err
             }))
        }))"

section \<open>main\<close>

record operator_flags =
  metricsAddr :: string
  enableLeaderElection :: bool
  probeAddr :: string
  cosiEnabled :: bool
  cosiDriverName :: string
  cosiSocketPath :: string

definition default_flags :: operator_flags where
  "default_flags = \<lparr>metricsAddr = '':8080'', enableLeaderElection = False, probeAddr = '':8081'',
     cosiEnabled = False, cosiDriverName = ''k8s-s3-bucket-operator'',
     cosiSocketPath = ''/var/lib/cosi/cosi.sock''\<rparr>"

text \<open>The flags that \<^verbatim>\<open>main\<close> registers, each writing its variable.\<close>

definition operator_flag_vars :: "(string \<times> operator_flags flag_var) list" where
  "operator_flag_vars =
     [(''metrics-bind-address'', string_var (\<lambda>x f. f\<lparr>metricsAddr := x\<rparr>)),
      (''health-probe-bind-address'', string_var (\<lambda>x f. f\<lparr>probeAddr := x\<rparr>)),
      (''leader-elect'', bool_var (\<lambda>b f. f\<lparr>enableLeaderElection := b\<rparr>)),
      (''cosi-enabled'', bool_var (\<lambda>b f. f\<lparr>cosiEnabled := b\<rparr>)),
      (''cosi-driver-name'', string_var (\<lambda>x f. f\<lparr>cosiDriverName := x\<rparr>)),
      (''cosi-socket-path'', string_var (\<lambda>x f. f\<lparr>cosiSocketPath := x\<rparr>))]"

text \<open>
  The libraries register flags of their own in the same set, the logger's (\<^verbatim>\<open>opts.BindFlags\<close>) and \<^verbatim>\<open>kubeconfig\<close>.
  Of them only the name, whether they are boolean and which values they take are known here; what they
  are set to is kept in order.
\<close>

record library_flag =
  lf_IsBool :: bool
  lf_Accepts :: "string \<Rightarrow> bool"

type_synonym settings = "operator_flags \<times> (string \<times> string) list"

definition own_var :: "operator_flags flag_var \<Rightarrow> settings flag_var" where
  "own_var v = \<lparr>flag_IsBool = flag_IsBool v,
     flag_Set = (\<lambda>x (f, libs). map_option (\<lambda>f'. (f', libs)) (flag_Set v x f))\<rparr>"

definition library_var :: "string \<Rightarrow> library_flag \<Rightarrow> settings flag_var" where
  "library_var n l = \<lparr>flag_IsBool = lf_IsBool l,
     flag_Set = (\<lambda>x (f, libs). if lf_Accepts l x then Some (f, libs @ [(n, x)]) else None)\<rparr>"

definition command_line :: "(string \<times> library_flag) list \<Rightarrow> (string \<times> settings flag_var) list" where
  "command_line libs = map (\<lambda>(n, v). (n, own_var v)) operator_flag_vars @ map (\<lambda>(n, l). (n, library_var n l)) libs"

text \<open>The environment overrides the flags; a value of \<^verbatim>\<open>COSI_ENABLED\<close> that is not a boolean is ignored.\<close>

definition env_overrides :: "(string \<Rightarrow> string) \<Rightarrow> operator_flags \<Rightarrow> operator_flags" where
  "env_overrides getenv f =
     (let enabled = trim_space (getenv ''COSI_ENABLED'');
          driver = trim_space (getenv ''COSI_DRIVER_NAME'');
          sock = trim_space (getenv ''COSI_SOCKET_PATH'');
          f1 = (if enabled \<noteq> '''' then (case parse_bool enabled of Some b \<Rightarrow> f\<lparr>cosiEnabled := b\<rparr> | None \<Rightarrow> f) else f);
          f2 = (if driver \<noteq> '''' then f1\<lparr>cosiDriverName := driver\<rparr> else f1)
      in if sock \<noteq> '''' then f2\<lparr>cosiSocketPath := sock\<rparr> else f2)"

text \<open>The API group, and the kinds that the files of api/v1alpha1 register with its scheme builder, file by file.\<close>

record group_version =
  gv_Group :: string
  gv_Version :: string

definition GroupVersion :: group_version where
  "GroupVersion = \<lparr>gv_Group = ''objectstorage.k8s.io'', gv_Version = ''v1alpha1''\<rparr>"

definition init_bucketclaim_types :: "string list list \<Rightarrow> string list list" where
  "init_bucketclaim_types builder = builder @ [[''BucketClaim'', ''BucketClaimList'']]"

definition init_bucketclass_types :: "string list list \<Rightarrow> string list list" where
  "init_bucketclass_types builder = builder @ [[''BucketClass'', ''BucketClassList'']]"

definition SchemeBuilder :: "string list list" where
  "SchemeBuilder = init_bucketclass_types (init_bucketclaim_types [])"

text \<open>What a controller is built for: the objects it reconciles, and those whose owners it reconciles.\<close>

datatype watched = WatchBucketClaim | WatchSecret | WatchUnstructured group_version_kind

record watches =
  watch_For :: watched
  watch_Owns :: "watched list"

text \<open>
  The manager: its construction, for which the libraries' own flags count too, its client, and the registrations
  that may fail, \<^verbatim>\<open>Complete\<close> of the two controllers among them.
\<close>

record ('c, 'h, 'w) manager =
  mgr_NewManager :: "operator_flags \<Rightarrow> (string \<times> string) list \<Rightarrow> ('w, go_error option) state"
  mgr_GetClient :: "'w kube"
  mgr_CompleteClaims :: "watches \<Rightarrow> ('c, 'h, 'w) claim_reconciler \<Rightarrow> ('w, go_error option) state"
  mgr_CompleteAccesses :: "watches \<Rightarrow> ('c, 'h, 'w) access_reconciler \<Rightarrow> ('w, go_error option) state"
  mgr_AddServer :: "'w cosi_server \<Rightarrow> ('w, go_error option) state"
  mgr_AddHealthzCheck :: "('w, go_error option) state"
  mgr_AddReadyzCheck :: "('w, go_error option) state"
  mgr_Start :: "('w, go_error option) state"

definition claim_SetupWithManager ::
  "('c, 'h, 'w) manager \<Rightarrow> ('c, 'h, 'w) claim_reconciler \<Rightarrow> ('w, go_error option) state" where
  "claim_SetupWithManager mgr r =
     mgr_CompleteClaims mgr \<lparr>watch_For = WatchBucketClaim, watch_Owns = [WatchSecret]\<rparr> r"

definition access_SetupWithManager ::
  "('c, 'h, 'w) manager \<Rightarrow> ('c, 'h, 'w) access_reconciler \<Rightarrow> ('w, go_error option) state" where
  "access_SetupWithManager mgr r =
     mgr_CompleteAccesses mgr \<lparr>watch_For = WatchUnstructured BucketAccessGVK, watch_Owns = []\<rparr> r"

text \<open>
  The libraries and the environment the process runs with. \<open>pr_MustRegister\<close> registers collectors with
  Prometheus, \<open>pr_AddClientGo\<close> and \<open>pr_AddToScheme\<close> fill the scheme; an error of theirs is a panic.
\<close>

record ('c, 'h, 'w) process =
  pr_MustRegister :: "collector list \<Rightarrow> ('w, go_error option) state"
  pr_AddClientGo :: "('w, go_error option) state"
  pr_AddToScheme :: "group_version \<Rightarrow> string list list \<Rightarrow> ('w, go_error option) state"
  pr_Getenv :: "string \<Rightarrow> string"
  pr_LibraryFlags :: "(string \<times> library_flag) list"
  pr_Manager :: "('c, 'h, 'w) manager"
  pr_Minio :: "('h, 'w) minio_sdk"
  pr_Aws :: "('c, 'h, 'w) aws_sdk"
  pr_ParseQuantity :: "string \<Rightarrow> go_error + Quantity"

text \<open>The components \<^verbatim>\<open>main\<close> builds around the default MinIO client.\<close>

definition operator_resolver :: "('c, 'h, 'w) process \<Rightarrow> 'h minio_Client \<Rightarrow> ('c, 'h, 'w) resolver_deps" where
  "operator_resolver pr minioClient =
     NewResolver (mgr_GetClient (pr_Manager pr)) (pr_Minio pr) (pr_Aws pr) (Some minioClient)"

definition operator_claims ::
  "('c, 'h, 'w) process \<Rightarrow> operator_flags \<Rightarrow> 'h minio_Client \<Rightarrow> ('c, 'h, 'w) claim_reconciler" where
  "operator_claims pr f minioClient =
     \<lparr>cr_kube = mgr_GetClient (pr_Manager pr), cr_resolver = Some (operator_resolver pr minioClient),
      cr_EnableCOSI = cosiEnabled f\<rparr>"

definition operator_accesses :: "('c, 'h, 'w) process \<Rightarrow> 'h minio_Client \<Rightarrow> ('c, 'h, 'w) access_reconciler" where
  "operator_accesses pr minioClient =
     \<lparr>ar_kube = mgr_GetClient (pr_Manager pr), ar_resolver = Some (operator_resolver pr minioClient)\<rparr>"

definition operator_server ::
  "('c, 'h, 'w) process \<Rightarrow> operator_flags \<Rightarrow> 'h minio_Client \<Rightarrow> 'w cosi_server" where
  "operator_server pr f minioClient =
     NewServer (minio_provider (pr_Minio pr) minioClient) (Some (mgr_GetClient (pr_Manager pr)))
       (cosiDriverName f) (cosiSocketPath f) (pr_ParseQuantity pr)"

text \<open>What \<^verbatim>\<open>main\<close> does with the flags. The exit code: \<^verbatim>\<open>os.Exit(1)\<close> at the first failure.\<close>

definition run_main :: "('c, 'h, 'w) process \<Rightarrow> settings \<Rightarrow> ('w, nat) state" where
  "run_main pr parsed =
     (let f = env_overrides (pr_Getenv pr) (fst parsed); mgr = pr_Manager pr; failed = (\<lambda>_ :: go_error. 1) in
      if_err (mgr_NewManager mgr f (snd parsed)) failed
        (case minio_NewClient (pr_Minio pr) (minio_ConfigFromEnv (pr_Getenv pr)) of
           Inl _ \<Rightarrow> ret 1
         | Inr minioClient \<Rightarrow>
             if_err (claim_SetupWithManager mgr (operator_claims pr f minioClient)) failed
            (if_err (if cosiEnabled f
                     then if_err (access_SetupWithManager mgr (operator_accesses pr minioClient)) Some
                            (mgr_AddServer mgr (operator_server pr f minioClient))
                     else ret None) failed
            (if_err (mgr_AddHealthzCheck mgr) failed
            (if_err (mgr_AddReadyzCheck mgr) failed
            (if_err (mgr_Start mgr) failed (ret 0)))))))"

text \<open>
  \<^verbatim>\<open>flag.Parse\<close> leaves the process with 0 after printing the help and with 2 after an error; registering a
  name twice panics, which also ends it with 2. What follows the flags is not read.
\<close>

definition main :: "('c, 'h, 'w) process \<Rightarrow> string list \<Rightarrow> ('w, nat) state" where
  "main pr args =
     (if \<not> distinct (map fst (command_line (pr_LibraryFlags pr))) then ret 2
      else
        (case flag_parse (command_line (pr_LibraryFlags pr)) args (default_flags, []) of
           Inl ErrHelp \<Rightarrow> ret 0
         | Inl _ \<Rightarrow> ret 2
         | Inr (parsed, _) \<Rightarrow> run_main pr parsed))"

text \<open>The whole program: the \<^verbatim>\<open>init\<close> functions of its packages in the order of their imports, where a panic ends it with 2, and \<open>main\<close>.\<close>

definition init_metrics :: "('c, 'h, 'w) process \<Rightarrow> ('w, go_error option) state" where
  "init_metrics pr = pr_MustRegister pr collectors"

definition init_scheme :: "('c, 'h, 'w) process \<Rightarrow> ('w, go_error option) state" where
  "init_scheme pr = if_err (pr_AddClientGo pr) Some (pr_AddToScheme pr GroupVersion SchemeBuilder)"

definition run_program :: "('c, 'h, 'w) process \<Rightarrow> string list \<Rightarrow> ('w, nat) state" where
  "run_program pr args =
     if_err (init_metrics pr) (\<lambda>_. 2) (if_err (init_scheme pr) (\<lambda>_. 2) (main pr args))"

text \<open>The manager runs the driver through \<^verbatim>\<open>cosiRunnable\<close>.\<close>

definition cosiRunnable_Start :: "('l, 'w) system \<Rightarrow> 'w cosi_server \<Rightarrow> ('w, go_error option) state" where
  "cosiRunnable_Start sys srv = Start sys srv"

section \<open>Lemmas\<close>

text \<open>Serving waits for the permissions of the socket: where they cannot be set, nothing is served.\<close>

lemma Start_protected:
  assumes "\<And>w. result_of (sys_Chmod sys (cs_sockPath s)) w \<noteq> None"
  shows "Start (sys\<lparr>sys_Serve := f, sys_GracefulStop := g\<rparr>) s = Start sys s"
proof (rule state_ext)
  fix w
  have fails: "run_state (sys_Chmod sys (cs_sockPath s)) w1 = (None, w2) \<longleftrightarrow> False" for w1 w2
    using assms [of w1] by auto
  show "run_state (Start (sys\<lparr>sys_Serve := f, sys_GracefulStop := g\<rparr>) s) w = run_state (Start sys s) w"
    by (auto simp: Start_def Let_def run_simps fails split: prod.split option.split sum.split)
qed

lemma run_main_started:
  assumes "run_state (run_main pr parsed) w = (code, w1)"
  shows "code \<in> {0, 1}"
    and "code = 0 \<Longrightarrow> \<exists>c w0. minio_NewClient (pr_Minio pr) (minio_ConfigFromEnv (pr_Getenv pr)) = Inr c \<and>
           run_state (mgr_Start (pr_Manager pr)) w0 = (None, w1)"
  using assms by (auto simp: run_main_def Let_def run_simps split: prod.splits option.splits sum.splits if_splits)

text \<open>The command line alone decides between the exit code 2, the help, and starting the operator.\<close>

lemma main_cases:
  obtains "main pr args = ret 2"
  | "flag_parse (command_line (pr_LibraryFlags pr)) args (default_flags, []) = Inl ErrHelp" "main pr args = ret 0"
  | parsed rest where "flag_parse (command_line (pr_LibraryFlags pr)) args (default_flags, []) = Inr (parsed, rest)"
      "main pr args = run_main pr parsed"
proof (cases "distinct (map fst (command_line (pr_LibraryFlags pr)))")
  case True
  show ?thesis
  proof (cases "flag_parse (command_line (pr_LibraryFlags pr)) args (default_flags, [])")
    case (Inl e)
    with True that(1,2) show ?thesis by (cases e) (simp_all add: main_def)
  next
    case (Inr x)
    with True that(3) show ?thesis by (cases x) (simp add: main_def)
  qed
qed (use that(1) in \<open>simp add: main_def\<close>)

section \<open>Lemmas: the command line\<close>

text \<open>The text of each flag for given values, and a command line that writes them all.\<close>

definition bool_text :: "bool \<Rightarrow> string" where
  "bool_text b = (if b then ''true'' else ''false'')"

definition flag_texts :: "operator_flags \<Rightarrow> (string \<times> string) list" where
  "flag_texts f =
     [(''metrics-bind-address'', metricsAddr f), (''health-probe-bind-address'', probeAddr f),
      (''leader-elect'', bool_text (enableLeaderElection f)), (''cosi-enabled'', bool_text (cosiEnabled f)),
      (''cosi-driver-name'', cosiDriverName f), (''cosi-socket-path'', cosiSocketPath f)]"

definition write_flags :: "(string \<Rightarrow> spelling) \<Rightarrow> operator_flags \<Rightarrow> string list" where
  "write_flags sp f = concat (map (\<lambda>(n, x). spell (sp n) n x) (flag_texts f))"

lemma operator_flag_read:
  assumes "map_of operator_flag_vars n = Some v" and "flag_name n" and "flag_Set v x f = Some f'"
    and "flag_IsBool v \<Longrightarrow> \<not> apart sp"
  shows "flag_parse (command_line libs) (spell sp n x @ rest) (f, l) = flag_parse (command_line libs) rest (f', l)"
proof -
  have "map_of (map (\<lambda>(n, v). (n, own_var v)) operator_flag_vars) n = Some (own_var v)"
    using assms(1) by (simp add: map_of_map)
  then have "map_of (command_line libs) n = Some (own_var v)"
    by (simp add: command_line_def map_add_def)
  then show ?thesis
    by (rule flag_parse_spelled [OF assms(2)]) (simp_all add: own_var_def assms(3,4))
qed

lemma parse_bool_text: "parse_bool (bool_text b) = Some b"
  by (simp add: bool_text_def parse_bool_def)

text \<open>Each flag of the operator, read back from any spelling; a boolean one needs its value in the same argument.\<close>

lemma operator_flags_read:
  "flag_parse (command_line libs) (spell sp ''metrics-bind-address'' x @ rest) (f, l) =
     flag_parse (command_line libs) rest (f\<lparr>metricsAddr := x\<rparr>, l)"
  "flag_parse (command_line libs) (spell sp ''health-probe-bind-address'' x @ rest) (f, l) =
     flag_parse (command_line libs) rest (f\<lparr>probeAddr := x\<rparr>, l)"
  "flag_parse (command_line libs) (spell sp ''cosi-driver-name'' x @ rest) (f, l) =
     flag_parse (command_line libs) rest (f\<lparr>cosiDriverName := x\<rparr>, l)"
  "flag_parse (command_line libs) (spell sp ''cosi-socket-path'' x @ rest) (f, l) =
     flag_parse (command_line libs) rest (f\<lparr>cosiSocketPath := x\<rparr>, l)"
  "\<not> apart sp \<Longrightarrow> flag_parse (command_line libs) (spell sp ''leader-elect'' (bool_text b) @ rest) (f, l) =
     flag_parse (command_line libs) rest (f\<lparr>enableLeaderElection := b\<rparr>, l)"
  "\<not> apart sp \<Longrightarrow> flag_parse (command_line libs) (spell sp ''cosi-enabled'' (bool_text b) @ rest) (f, l) =
     flag_parse (command_line libs) rest (f\<lparr>cosiEnabled := b\<rparr>, l)"
  by (rule operator_flag_read, simp add: operator_flag_vars_def,
      simp_all add: flag_name_def string_var_def bool_var_def parse_bool_text)+

lemma flag_parse_written:
  assumes "\<not> apart (sp ''leader-elect'')" and "\<not> apart (sp ''cosi-enabled'')"
  shows "flag_parse (command_line libs) (write_flags sp f @ rest) (f0, l) = flag_parse (command_line libs) rest (f, l)"
  unfolding write_flags_def flag_texts_def
  by (cases f; cases f0) (simp add: operator_flags_read assms)

lemma main_written:
  assumes "distinct (map fst (command_line (pr_LibraryFlags pr)))"
    and "\<not> apart (sp ''leader-elect'')" and "\<not> apart (sp ''cosi-enabled'')"
  shows "main pr (write_flags sp f @ rest) =
    (case flag_parse (command_line (pr_LibraryFlags pr)) rest (f, []) of
       Inl ErrHelp \<Rightarrow> ret 0 | Inl _ \<Rightarrow> ret 2 | Inr (parsed, _) \<Rightarrow> run_main pr parsed)"
  using assms(1) by (simp add: main_def flag_parse_written [where sp = sp, OF assms(2,3)])

text \<open>The argument that the manifests of the repository pass.\<close>

lemma deployment_flags:
  "flag_parse (command_line libs) [''--leader-elect=true''] (default_flags, []) =
     Inr ((default_flags\<lparr>enableLeaderElection := True\<rparr>, []), [])"
  using operator_flags_read(5) [of "Spelling True False" libs True "[]" default_flags "[]"]
  by (simp add: spell_def dashes_def bool_text_def)

lemma env_overrides_fields:
  "metricsAddr (env_overrides getenv f) = metricsAddr f" "probeAddr (env_overrides getenv f) = probeAddr f"
  "enableLeaderElection (env_overrides getenv f) = enableLeaderElection f"
  "cosiEnabled (env_overrides getenv f) =
     (case parse_bool (trim_space (getenv ''COSI_ENABLED'')) of Some b \<Rightarrow> b | None \<Rightarrow> cosiEnabled f)"
  "cosiDriverName (env_overrides getenv f) =
     (let v = trim_space (getenv ''COSI_DRIVER_NAME'') in if v = '''' then cosiDriverName f else v)"
  "cosiSocketPath (env_overrides getenv f) =
     (let v = trim_space (getenv ''COSI_SOCKET_PATH'') in if v = '''' then cosiSocketPath f else v)"
  by (auto simp: env_overrides_def Let_def parse_bool_def split: option.split)

lemma operator_default_provider:
  assumes "KindForBucketClass (Some cls) = Inr KindMinIO"
    and "\<forall>ref. class_MinioCredentialSecretRef cls = Some ref \<longrightarrow> sref_Name ref = ''''"
  shows "run_state (ProviderForClass (cr_resolver (operator_claims pr f c)) (Some cls)) s =
    (Inr (cs_Provider (operator_server pr f c)), s)"
  using assms
  by (auto simp: ProviderForClass_def minioProviderForClass_def default_minio_def operator_claims_def
      operator_resolver_def operator_server_def NewResolver_def NewServer_def split: option.split)

section \<open>Properties\<close>

text \<open>The parser's example: flags like those the logger and the client configuration register.\<close>

definition example_library_flags :: "(string \<times> library_flag) list" where
  "example_library_flags =
     [(''kubeconfig'', \<lparr>lf_IsBool = False, lf_Accepts = (\<lambda>_. True)\<rparr>),
      (''zap-devel'', \<lparr>lf_IsBool = True, lf_Accepts = (\<lambda>x. parse_bool x \<noteq> None)\<rparr>)]"

definition example_process :: "(unit, unit, mem_cluster) process" where
  "example_process =
     \<lparr>pr_MustRegister = (\<lambda>cs. ret (if distinct (map col_Name cs) then None else Some (ErrText ''duplicate collector''))),
      pr_AddClientGo = ret None, pr_AddToScheme = (\<lambda>_ _. ret None),
      pr_Getenv = (\<lambda>v. if v = ''COSI_ENABLED'' then ''0'' else if v = ''MINIO_USE_SSL'' then ''false'' else ''x''),
      pr_LibraryFlags = example_library_flags,
      pr_Manager = \<lparr>mgr_NewManager = (\<lambda>_ _. ret None), mgr_GetClient = mem_kube, mgr_CompleteClaims = (\<lambda>_ _. ret None),
        mgr_CompleteAccesses = (\<lambda>_ _. ret None), mgr_AddServer = (\<lambda>_. ret None), mgr_AddHealthzCheck = ret None,
        mgr_AddReadyzCheck = ret None, mgr_Start = ret None\<rparr>,
      pr_Minio = cluster_minio, pr_Aws = cluster_aws, pr_ParseQuantity = (\<lambda>_. Inl (ErrText ''no quantities''))\<rparr>"

lemma example_flags_distinct: "distinct (map fst (command_line (pr_LibraryFlags example_process)))"
  by (simp add: command_line_def operator_flag_vars_def example_library_flags_def example_process_def)

text \<open>C27. The command line. Writing the flags, each with one dash or two and its value in the same argument
  or, unless it is boolean, in the next one, and parsing them gives the values written, whatever was set
  before; the operator then runs with them, except that \<^verbatim>\<open>COSI_ENABLED\<close>, \<^verbatim>\<open>COSI_DRIVER_NAME\<close> and
  \<^verbatim>\<open>COSI_SOCKET_PATH\<close> win where they are set, the first only to a boolean. A flag that nobody registered ends
  the process with 2, whatever else is given, before anything has been called.\<close>

theorem command_line_roundtrip:
  assumes "distinct (map fst (command_line (pr_LibraryFlags pr)))"
    and "\<not> apart (sp ''leader-elect'')" and "\<not> apart (sp ''cosi-enabled'')"
    and "\<not> apart (sp' ''leader-elect'')" and "\<not> apart (sp' ''cosi-enabled'')"
    and "flag_name n" and "n \<notin> set (map fst (command_line (pr_LibraryFlags pr)))" and "n \<notin> {''h'', ''help''}"
  shows "main pr (write_flags sp f @ write_flags sp' f') = run_main pr (f', []) \<and>
    main pr (write_flags sp f @ spell sp'' n x @ rest) = ret 2 \<and>
    env_overrides getenv f =
      f\<lparr>cosiEnabled := (case parse_bool (trim_space (getenv ''COSI_ENABLED'')) of Some b \<Rightarrow> b | None \<Rightarrow> cosiEnabled f),
        cosiDriverName := (let v = trim_space (getenv ''COSI_DRIVER_NAME'') in if v = '''' then cosiDriverName f else v),
        cosiSocketPath := (let v = trim_space (getenv ''COSI_SOCKET_PATH'') in if v = '''' then cosiSocketPath f else v)\<rparr>"
proof (intro conjI)
  note written = main_written [where sp = sp, OF assms(1-3)]
  show "main pr (write_flags sp f @ write_flags sp' f') = run_main pr (f', [])"
    using flag_parse_written [where sp = sp' and f = f' and rest = "[]", OF assms(4,5)] by (simp add: written)
  have "map_of (command_line (pr_LibraryFlags pr)) n = None" using assms(7) by (simp add: map_of_eq_None_iff)
  from flag_parse_undefined [OF assms(6) this assms(8)]
  show "main pr (write_flags sp f @ spell sp'' n x @ rest) = ret 2" by (simp add: written)
qed (rule operator_flags.equality, simp_all add: env_overrides_fields)

theorem command_line_roundtrip_witness:
  "main example_process ([''-metrics-bind-address=:9000'', ''--health-probe-bind-address=:8081'', ''-leader-elect=false'',
       ''--cosi-enabled=false'', ''--cosi-driver-name=k8s-s3-bucket-operator'', ''--cosi-socket-path=/var/lib/cosi/cosi.sock''] @
     write_flags (\<lambda>_. Spelling True False) default_flags) = run_main example_process (default_flags, []) \<and>
   main example_process (write_flags (\<lambda>_. Spelling True False) default_flags @ [''--cosi-socket'', ''/tmp/s'']) = ret 2 \<and>
   cosiDriverName (env_overrides (\<lambda>v. if v = ''COSI_DRIVER_NAME'' then ''d'' else '''') default_flags) = ''d''"
proof -
  let ?sp = "\<lambda>_ :: string. Spelling True False"
  let ?sp1 = "\<lambda>n. Spelling (n \<notin> {''metrics-bind-address'', ''leader-elect''}) False"
  let ?n = "''cosi-socket''" and ?env = "\<lambda>v. if v = ''COSI_DRIVER_NAME'' then ''d'' else ''''"
  have first: "write_flags ?sp1 (default_flags\<lparr>metricsAddr := '':9000''\<rparr>) =
    [''-metrics-bind-address=:9000'', ''--health-probe-bind-address=:8081'', ''-leader-elect=false'', ''--cosi-enabled=false'',
     ''--cosi-driver-name=k8s-s3-bucket-operator'', ''--cosi-socket-path=/var/lib/cosi/cosi.sock'']"
    by (simp add: write_flags_def flag_texts_def spell_def dashes_def default_flags_def bool_text_def)
  have "trim_space ''d'' = ''d''" by (simp add: trim_space_graphic graphic_def)
  moreover have "flag_name ?n" by (simp add: flag_name_def)
  moreover have "?n \<notin> set (map fst (command_line (pr_LibraryFlags example_process)))"
    by (simp add: command_line_def operator_flag_vars_def example_library_flags_def example_process_def)
  ultimately show ?thesis
    using command_line_roundtrip [OF example_flags_distinct, of ?sp1 ?sp ?n "default_flags\<lparr>metricsAddr := '':9000''\<rparr>"
        default_flags "Spelling True True" "''/tmp/s''" "[]" ?env]
      command_line_roundtrip [OF example_flags_distinct, of ?sp ?sp ?n default_flags
        default_flags "Spelling True True" "''/tmp/s''" "[]" ?env]
    unfolding first by (simp add: spell_def [of "Spelling True True"] dashes_def)
qed

text \<open>The world after all \<^verbatim>\<open>init\<close> functions, where none of them panicked.\<close>

definition initialised :: "('c, 'h, 'w) process \<Rightarrow> 'w \<Rightarrow> 'w \<Rightarrow> bool" where
  "initialised pr w w2 \<longleftrightarrow>
     (\<exists>w1. run_state (init_metrics pr) w = (None, w1) \<and> run_state (init_scheme pr) w1 = (None, w2))"

lemma run_program_cases:
  obtains w2 where "initialised pr w w2" and "run_state (run_program pr args) w = run_state (main pr args) w2"
  | "\<not> (\<exists>w2. initialised pr w w2)" and "result_of (run_program pr args) w = 2"
proof -
  obtain m w1 where m: "run_state (init_metrics pr) w = (m, w1)" by fastforce
  obtain t w2 where t: "run_state (init_scheme pr) w1 = (t, w2)" by fastforce
  show ?thesis
  proof (cases "m = None \<and> t = None")
    case True
    with m t that(1) [of w2] show ?thesis by (simp add: initialised_def run_program_def run_simps)
  next
    case False
    with m t that(2) show ?thesis
      by (cases m; cases t) (simp_all add: initialised_def run_program_def run_simps)
  qed
qed

text \<open>C40. The wiring of the process. It ends with exit code 0 only where no \<^verbatim>\<open>init\<close> function panicked and after
  printing the help, or after the default MinIO client was built and the manager ran to an end without an
  error; with 2 only by such a panic or by the command line, before anything else has been called; and with 1
  otherwise. While COSI is not enabled, by the flag or by the environment, neither the BucketAccess reconciler
  nor the driver is registered; the driver works on the provider that the controllers use for a MinIO class
  without a Secret of its own; and a COSI Bucket refers to its claim by a group version and a kind that are
  registered with the scheme.\<close>

theorem operator_wiring:
  fixes pr :: "('c, 'h, 'w) process" and s :: "('h, 'w) op_state"
  shows "result_of (run_program pr args) w \<in> {0, 1, 2} \<and>
   (result_of (run_program pr args) w = 0 \<longrightarrow> (\<exists>w2. initialised pr w w2) \<and>
      (flag_parse (command_line (pr_LibraryFlags pr)) args (default_flags, []) = Inl ErrHelp \<or>
       (\<exists>c w0. minio_NewClient (pr_Minio pr) (minio_ConfigFromEnv (pr_Getenv pr)) = Inr c \<and>
          run_state (mgr_Start (pr_Manager pr)) w0 = (None, world_after (run_program pr args) w)))) \<and>
   (result_of (run_program pr args) w = 2 \<longrightarrow> \<not> (\<exists>w2. initialised pr w w2) \<or> main pr args = ret 2) \<and>
   (flag_parse (command_line (pr_LibraryFlags pr)) args (default_flags, []) = Inr (parsed, rest) \<and>
    \<not> cosiEnabled (env_overrides (pr_Getenv pr) (fst parsed)) \<longrightarrow>
      main (pr\<lparr>pr_Manager := (pr_Manager pr)\<lparr>mgr_CompleteAccesses := a, mgr_AddServer := b\<rparr>\<rparr>) args = main pr args) \<and>
   (KindForBucketClass (Some cls) = Inr KindMinIO \<and>
    (\<forall>ref. class_MinioCredentialSecretRef cls = Some ref \<longrightarrow> sref_Name ref = '''') \<longrightarrow>
      run_state (ProviderForClass (cr_resolver (operator_claims pr f c)) (Some cls)) s =
        (Inr (cs_Provider (operator_server pr f c)), s)) \<and>
   (let owner = json_map (map_of (json_map (Some (cosi_bucket_spec claim cls))) ''bucketClaim'') in
      json_str (map_of owner ''apiVersion'') = gv_Group GroupVersion @ ''/'' @ gv_Version GroupVersion \<and>
      json_str (map_of owner ''kind'') \<in> set (concat SchemeBuilder))"
proof -
  have codes: "result_of (main pr args) w \<in> {0, 1, 2} \<and>
   (result_of (main pr args) w = 0 \<longrightarrow>
      flag_parse (command_line (pr_LibraryFlags pr)) args (default_flags, []) = Inl ErrHelp \<or>
      (\<exists>c w0. minio_NewClient (pr_Minio pr) (minio_ConfigFromEnv (pr_Getenv pr)) = Inr c \<and>
         run_state (mgr_Start (pr_Manager pr)) w0 = (None, world_after (main pr args) w))) \<and>
   (result_of (main pr args) w = 2 \<longrightarrow> main pr args = ret 2)" for w
  proof (rule main_cases [of pr args])
    fix parsed rest
    assume m: "main pr args = run_main pr parsed"
    obtain code w1 where run: "run_state (run_main pr parsed) w = (code, w1)" by fastforce
    from run_main_started [OF run] run show ?thesis by (auto simp: m)
  qed simp_all
  have "result_of (run_program pr args) w \<in> {0, 1, 2} \<and>
   (result_of (run_program pr args) w = 0 \<longrightarrow> (\<exists>w2. initialised pr w w2) \<and>
      (flag_parse (command_line (pr_LibraryFlags pr)) args (default_flags, []) = Inl ErrHelp \<or>
       (\<exists>c w0. minio_NewClient (pr_Minio pr) (minio_ConfigFromEnv (pr_Getenv pr)) = Inr c \<and>
          run_state (mgr_Start (pr_Manager pr)) w0 = (None, world_after (run_program pr args) w)))) \<and>
   (result_of (run_program pr args) w = 2 \<longrightarrow> \<not> (\<exists>w2. initialised pr w w2) \<or> main pr args = ret 2)"
    by (rule run_program_cases [of pr w args]) (use codes in auto)
  moreover have "let owner = json_map (map_of (json_map (Some (cosi_bucket_spec claim cls))) ''bucketClaim'') in
      json_str (map_of owner ''apiVersion'') = gv_Group GroupVersion @ ''/'' @ gv_Version GroupVersion \<and>
      json_str (map_of owner ''kind'') \<in> set (concat SchemeBuilder)"
    by (simp add: cosi_bucket_spec_def Let_def GroupVersion_def SchemeBuilder_def init_bucketclaim_types_def
        init_bucketclass_types_def)
  moreover have "main (pr\<lparr>pr_Manager := (pr_Manager pr)\<lparr>mgr_CompleteAccesses := a, mgr_AddServer := b\<rparr>\<rparr>) args = main pr args"
    if "flag_parse (command_line (pr_LibraryFlags pr)) args (default_flags, []) = Inr (parsed, rest) \<and>
      \<not> cosiEnabled (env_overrides (pr_Getenv pr) (fst parsed))"
    using that by (simp add: main_def run_main_def Let_def claim_SetupWithManager_def operator_claims_def operator_resolver_def cong: sum.case_cong)
  ultimately show ?thesis using operator_default_provider [of cls pr f c s] by blast
qed

theorem operator_wiring_witness:
  "\<not> cosiEnabled (env_overrides (pr_Getenv example_process) (default_flags\<lparr>enableLeaderElection := True\<rparr>)) \<and>
   main (example_process\<lparr>pr_Manager := (pr_Manager example_process)\<lparr>mgr_CompleteAccesses := \<lambda>_ _. ret (Some json_error),
     mgr_AddServer := \<lambda>_. ret (Some json_error)\<rparr>\<rparr>) [''--leader-elect=true''] = main example_process [''--leader-elect=true''] \<and>
   KindForBucketClass (Some zero_class) = Inr KindMinIO \<and>
   result_of (ProviderForClass (cr_resolver (operator_claims example_process default_flags mem_client)) (Some zero_class))
     (start_state empty_cluster) = Inr (cs_Provider (operator_server example_process default_flags mem_client)) \<and>
   (\<exists>w. initialised example_process empty_cluster w)"
proof -
  let ?f = "default_flags\<lparr>enableLeaderElection := True\<rparr>"
  have off: "\<not> cosiEnabled (env_overrides (pr_Getenv example_process) ?f)"
  proof -
    have "trim_space ''0'' = ''0''" "trim_space ''x'' = ''x''" by (simp_all add: trim_space_graphic graphic_def)
    then show ?thesis by (simp add: env_overrides_def example_process_def parse_bool_def Let_def)
  qed
  have init: "initialised example_process empty_cluster empty_cluster"
    by (simp add: initialised_def init_metrics_def init_scheme_def example_process_def collectors_def run_simps)
  have kind: "KindForBucketClass (Some zero_class) = Inr KindMinIO" by code_simp
  have "class_MinioCredentialSecretRef zero_class = None" by (simp add: zero_class_def)
  with operator_wiring [where pr = example_process and args = "[''--leader-elect=true'']" and w = empty_cluster
      and parsed = "(?f, [])" and rest = "[]" and a = "\<lambda>_ _. ret (Some json_error)" and b = "\<lambda>_. ret (Some json_error)"
      and cls = zero_class and f = default_flags and c = mem_client and s = "start_state empty_cluster" and claim = example_claim]
    off kind deployment_flags init
  show ?thesis by auto
qed

end
