(* ===== verification/Operator_System.thy ===== *)
theory Operator_System
  imports Operator
begin

text \<open>
  The running operator as a transition system: in any order and any number of times the two reconcilers
  run on any object, the COSI driver serves any request, the process restarts with empty caches, and
  somebody else changes the cluster or the backend. Each run of a reconciler or of a handler is one
  step: the manager never runs one object's reconciler twice at once, and the calls of different ones
  meet only in the API server and the backend. \<open>Interleaving\<close> lets others act between the calls of a run.
\<close>

section \<open>Steps\<close>

record ('c, 'h, 'w) operator =
  op_claims :: "('c, 'h, 'w) claim_reconciler"
  op_accesses :: "('c, 'h, 'w) access_reconciler option"
  op_server :: "'w cosi_server option"

text \<open>What \<open>main\<close> starts.\<close>

definition main_operator ::
  "('c, 'h, 'w) process \<Rightarrow> operator_flags \<Rightarrow> 'h minio_Client \<Rightarrow> ('c, 'h, 'w) operator" where
  "main_operator pr f minioClient =
     \<lparr>op_claims = operator_claims pr f minioClient,
      op_accesses = (if cosiEnabled f then Some (operator_accesses pr minioClient) else None),
      op_server = (if cosiEnabled f then Some (operator_server pr f minioClient) else None)\<rparr>"

inductive operator_step ::
  "('c, 'h, 'w) operator \<Rightarrow> ('w \<Rightarrow> 'w \<Rightarrow> bool) \<Rightarrow> ('h, 'w) op_state \<Rightarrow> ('h, 'w) op_state \<Rightarrow> bool"
  for p :: "('c, 'h, 'w) operator" and env :: "'w \<Rightarrow> 'w \<Rightarrow> bool" where
  claim: "operator_step p env s (world_after (Reconcile (op_claims p) ns n) s)"
| access: "op_accesses p = Some a \<Longrightarrow> operator_step p env s (world_after (access_Reconcile a ns n) s)"
| create: "op_server p = Some v \<Longrightarrow> operator_step p env s (world_after (in_world (DriverCreateBucket v create_req)) s)"
| delete: "op_server p = Some v \<Longrightarrow> operator_step p env s (world_after (in_world (DriverDeleteBucket v id_req)) s)"
| grant: "op_server p = Some v \<Longrightarrow> operator_step p env s (world_after (in_world (DriverGrantBucketAccess v grant_req)) s)"
| revoke: "op_server p = Some v \<Longrightarrow>
    operator_step p env s (world_after (in_world (DriverRevokeBucketAccess v revoke_req)) s)"
| restart: "operator_step p env s (s\<lparr>st_cache := [], st_awsCache := [], st_metrics := []\<rparr>)"
| outside: "env (st_world s) w \<Longrightarrow> operator_step p env s (s\<lparr>st_world := w\<rparr>)"

inductive reachable ::
  "('c, 'h, 'w) operator \<Rightarrow> ('w \<Rightarrow> 'w \<Rightarrow> bool) \<Rightarrow> ('h, 'w) op_state \<Rightarrow> ('h, 'w) op_state \<Rightarrow> bool"
  for p :: "('c, 'h, 'w) operator" and env :: "'w \<Rightarrow> 'w \<Rightarrow> bool" and s :: "('h, 'w) op_state" where
  start: "reachable p env s s"
| step: "reachable p env s s1 \<Longrightarrow> operator_step p env s1 s2 \<Longrightarrow> reachable p env s s2"


lemma reachable_invariant:
  assumes "reachable p env s s1" and "J s" and "\<And>s1 s2. J s1 \<Longrightarrow> operator_step p env s1 s2 \<Longrightarrow> J s2"
  shows "J s1"
  using assms(1) by (induction rule: reachable.induct) (use assms(2,3) in blast)+

section \<open>An invariant of the world through all components\<close>

text \<open>The writes of the other components leave the claims alone.\<close>

definition object_store :: "(Unstructured \<Rightarrow> bool) \<Rightarrow> 'w kube \<Rightarrow> ('w \<Rightarrow> bool) \<Rightarrow> bool" where
  "object_store W k I \<longleftrightarrow>
     (\<forall>u. W u \<longrightarrow> keeps I (k_UpdateUnstructured k u) (\<lambda>r. \<forall>v. r = Inr v \<longrightarrow> W v)) \<and>
     (\<forall>s. keeps I (k_CreateSecret k s) (\<lambda>_. True)) \<and> (\<forall>s. keeps I (k_UpdateSecret k s) (\<lambda>_. True)) \<and>
     (\<forall>ns n. keeps I (k_DeleteSecret k ns n) (\<lambda>_. True))"

lemma object_storeD:
  assumes "object_store W k I"
  shows "W u \<Longrightarrow> keeps I (k_UpdateUnstructured k u) (\<lambda>r. \<forall>v. r = Inr v \<longrightarrow> W v)"
    "keeps I (k_CreateSecret k s) (\<lambda>_. True)" "keeps I (k_UpdateSecret k s) (\<lambda>_. True)"
    "keeps I (k_DeleteSecret k ns n) (\<lambda>_. True)"
  using assms by (simp_all add: object_store_def)

lemma keeps_access_reconcile:
  assumes c: "claim_store W C (ar_kube r) I" and o: "object_store W (ar_kube r) I"
    and v: "resolver_store (ar_resolver r) I"
  shows "keeps (of_world I) (access_Reconcile r ns n) (\<lambda>_. True)"
proof -
  note calls = claim_storeD(5,6,10) [OF c] object_storeD(2-4) [OF o] keeps_mono [OF claim_storeD(1) [OF c]]
    keeps_mono [OF claim_storeD(4) [OF c]]
  note objects = claim_store_objects [OF c]
  have provider: "keeps (of_world I) (providerForClaim r claim) (\<lambda>x. \<forall>p. x = Inr p \<longrightarrow> provider_keeps I p)" for claim
    unfolding providerForClaim_def
    by (rule keeps_val_or_err [where R = "\<lambda>_. True"]) (simp_all add: keeps_in_world calls keeps_resolver [OF v])
  have secret: "keeps (of_world I) (write_access_secret (ar_kube r) ns n raw) (\<lambda>_. True)" for n raw
    unfolding write_access_secret_def by (intro keeps_rules calls TrueI)
  have key: "keeps (of_world I) (recorded_access_key (ar_kube r) ns n a) (\<lambda>_. True)" for n a
    unfolding recorded_access_key_def Let_def by (intro keeps_rules calls TrueI)
  have release: "keeps (of_world I) (release_access (ar_kube r) ba) (\<lambda>_. True)" if "W ba" for ba
    unfolding release_access_def by (intro keeps_rules keeps_mono [OF object_storeD(1) [OF o]] objects that TrueI)
  have deleted: "keeps (of_world I) (delete_access r ns cn sn a ba) (\<lambda>_. True)" if "W ba" for cn sn a ba
    unfolding delete_access_def Let_def
    by (intro keeps_rules calls keeps_bind [OF provider] key release [OF that] provider_keepsD TrueI; blast)
  have granted: "keeps (of_world I) (grant_access r ns cn sn a ba) (\<lambda>_. True)" if "W ba" for cn sn a ba
    unfolding grant_access_def grant_credentials_def Let_def
    by (intro keeps_rules calls claim_storeD(9) [OF c] objects that keeps_bind [OF provider] secret provider_keepsD TrueI; blast)
  have finalizer: "keeps (of_world I) (ensure_access_finalizer (ar_kube r) ba) (\<lambda>x. \<forall>ba'. x = Inr ba' \<longrightarrow> W ba')"
    if "W ba" for ba
    unfolding ensure_access_finalizer_def
    by (intro keeps_rules object_storeD(1) [OF o] objects that) (simp add: that)
  show ?thesis
    unfolding access_Reconcile_def Let_def
    by (intro keeps_rules keeps_bind [OF keeps_in_world [OF claim_storeD(7) [OF c]]]
        keeps_val_or_err [OF finalizer] deleted granted TrueI; blast)
qed

lemma keeps_cosi:
  assumes p: "provider_keeps I (cs_Provider v)"
    and k: "\<And>k. cs_KubeClient v = Some k \<Longrightarrow> claim_store W C k I"
  shows "keeps I (DriverCreateBucket v r1) (\<lambda>_. True)" "keeps I (DriverDeleteBucket v r2) (\<lambda>_. True)"
    "keeps I (DriverGrantBucketAccess v r3) (\<lambda>_. True)" "keeps I (DriverRevokeBucketAccess v r4) (\<lambda>_. True)"
proof -
  note ps = provider_keepsD [OF p]
  show "keeps I (DriverCreateBucket v r1) (\<lambda>_. True)"
    unfolding DriverCreateBucket_def ProvisionBucket_def createBucketAndConfigure_def Let_def
    by (intro keeps_rules ps TrueI)
  show "keeps I (DriverDeleteBucket v r2) (\<lambda>_. True)"
    unfolding DriverDeleteBucket_def deletion_decided_def Let_def
    by (intro keeps_rules ps keeps_mono [OF claim_storeD(7) [OF k]] TrueI) assumption
  show "keeps I (DriverGrantBucketAccess v r3) (\<lambda>_. True)"
    unfolding DriverGrantBucketAccess_def GrantBucketAccess_def grantAccess_def Let_def
    by (auto split: option.split AuthenticationType.split sum.split intro!: keeps_rules ps)
  show "keeps I (DriverRevokeBucketAccess v r4) (\<lambda>_. True)"
    unfolding DriverRevokeBucketAccess_def RevokeBucketAccess_def Let_def
    by (intro keeps_rules ps TrueI)
qed

lemma step_invariant:
  assumes k: "condition_laws (mgr_GetClient (pr_Manager pr))" "claim_store W C (mgr_GetClient (pr_Manager pr)) I"
      "object_store W (mgr_GetClient (pr_Manager pr)) I" and v: "resolver_store (Some (operator_resolver pr c)) I"
    and env: "\<And>w w'. env w w' \<Longrightarrow> I w \<Longrightarrow> I w'"
    and s: "of_world I s" and step: "operator_step (main_operator pr f c) env s s1"
  shows "of_world I s1"
proof -
  have claims: "claim_env W C (operator_claims pr f c) I"
    using k v by (simp add: claim_env_def operator_claims_def)
  have accesses: "keeps (of_world I) (access_Reconcile (operator_accesses pr c) ns n) (\<lambda>_. True)" for ns n
    using k v by (intro keeps_access_reconcile) (simp_all add: operator_accesses_def)
  have "provider_keeps I (minio_provider (pr_Minio pr) c)"
    using v by (simp add: resolver_store_def operator_resolver_def NewResolver_def)
  then have server: "provider_keeps I (cs_Provider (operator_server pr f c))"
    "\<And>k. cs_KubeClient (operator_server pr f c) = Some k \<Longrightarrow> claim_store W C k I"
    using k by (simp_all add: operator_server_def NewServer_def)
  have cosi: "keeps I (DriverCreateBucket (operator_server pr f c) r1) (\<lambda>_. True)"
    "keeps I (DriverDeleteBucket (operator_server pr f c) r2) (\<lambda>_. True)"
    "keeps I (DriverGrantBucketAccess (operator_server pr f c) r3) (\<lambda>_. True)"
    "keeps I (DriverRevokeBucketAccess (operator_server pr f c) r4) (\<lambda>_. True)" for r1 r2 r3 r4
    by (rule keeps_cosi [OF server(1)], erule server(2))+
  note handlers = cosi [THEN keeps_in_world, THEN keepsD, OF s, THEN conjunct1]
  note runs = keepsD [OF keeps_Reconcile [OF claims] s, THEN conjunct1] keepsD [OF accesses s, THEN conjunct1]
  have parts: "op_claims (main_operator pr f c) = operator_claims pr f c"
    "op_accesses (main_operator pr f c) = Some a \<Longrightarrow> a = operator_accesses pr c"
    "op_server (main_operator pr f c) = Some v \<Longrightarrow> v = operator_server pr f c" for a v
    by (simp_all add: main_operator_def split: if_splits)
  from step show ?thesis
  proof cases
    case claim
    then show ?thesis using runs(1) by (simp only: parts(1))
  next
    case access
    then show ?thesis using runs(2) by (simp only: parts(2) [OF access(2)])
  next
    case create
    then show ?thesis using handlers(1) by (simp only: parts(3) [OF create(2)])
  next
    case delete
    then show ?thesis using handlers(2) by (simp only: parts(3) [OF delete(2)])
  next
    case grant
    then show ?thesis using handlers(3) by (simp only: parts(3) [OF grant(2)])
  next
    case revoke
    then show ?thesis using handlers(4) by (simp only: parts(3) [OF revoke(2)])
  next
    case restart
    then show ?thesis using s by simp
  next
    case outside
    then show ?thesis using s env by simp
  qed
qed

lemma mem_object_store: "object_store (\<lambda>_. True) mem_kube all_consistent"
  by (simp add: object_store_def mem_kube_def keeps_def run_simps put_object_def put_secret_def)

section \<open>Deletion\<close>

text \<open>The process with the deletion calls of its two backends replaced.\<close>

definition process_deleting ::
  "('h \<Rightarrow> string \<Rightarrow> ('w, go_error option) state) \<Rightarrow> ('h \<Rightarrow> string \<Rightarrow> ('w, go_error option) state) \<Rightarrow>
     ('c, 'h, 'w) process \<Rightarrow> ('c, 'h, 'w) process" where
  "process_deleting f g pr =
     pr\<lparr>pr_Minio := (pr_Minio pr)\<lparr>mg_RemoveBucket := f\<rparr>, pr_Aws := (pr_Aws pr)\<lparr>s3_DeleteBucket := g\<rparr>\<rparr>"

lemma process_deleting_parts:
  "mgr_GetClient (pr_Manager (process_deleting f g pr)) = mgr_GetClient (pr_Manager pr)"
  "operator_resolver (process_deleting f g pr) c = other_deletion f g (operator_resolver pr c)"
  "operator_claims (process_deleting f g pr) fl c =
     (operator_claims pr fl c)\<lparr>cr_resolver := Some (other_deletion f g (operator_resolver pr c))\<rparr>"
  "operator_accesses (process_deleting f g pr) c =
     (operator_accesses pr c)\<lparr>ar_resolver := Some (other_deletion f g (operator_resolver pr c))\<rparr>"
  "operator_server (process_deleting f g pr) fl c =
     (operator_server pr fl c)\<lparr>cs_Provider := (cs_Provider (operator_server pr fl c))\<lparr>DeleteBucket :=
        minio_DeleteBucket ((pr_Minio pr)\<lparr>mg_RemoveBucket := f\<rparr>) c\<rparr>\<rparr>"
  by (simp_all add: process_deleting_def operator_resolver_def operator_claims_def operator_accesses_def
      operator_server_def NewResolver_def NewServer_def other_deletion_def minio_other_deletion)

lemma handlers_other_deletion:
  "DriverCreateBucket (v\<lparr>cs_Provider := p\<lparr>DeleteBucket := x\<rparr>\<rparr>) r1 = DriverCreateBucket (v\<lparr>cs_Provider := p\<rparr>) r1"
  "DriverGrantBucketAccess (v\<lparr>cs_Provider := p\<lparr>DeleteBucket := x\<rparr>\<rparr>) r3 = DriverGrantBucketAccess (v\<lparr>cs_Provider := p\<rparr>) r3"
  "DriverRevokeBucketAccess (v\<lparr>cs_Provider := p\<lparr>DeleteBucket := x\<rparr>\<rparr>) r4 = DriverRevokeBucketAccess (v\<lparr>cs_Provider := p\<rparr>) r4"
proof -
  have create: "ProvisionBucket (p\<lparr>DeleteBucket := x\<rparr>) claim cls = ProvisionBucket p claim cls" for claim cls
    unfolding ProvisionBucket_def by (rule create_other_deletion)
  have grant: "GrantBucketAccess (p\<lparr>DeleteBucket := x\<rparr>) = GrantBucketAccess p"
    by (simp add: fun_eq_iff GrantBucketAccess_def grantAccess_def)
  have revoke: "RevokeBucketAccess (p\<lparr>DeleteBucket := x\<rparr>) = RevokeBucketAccess p"
    by (simp add: fun_eq_iff RevokeBucketAccess_def)
  have fields: "cs_ParseQuantity (v\<lparr>cs_Provider := q\<rparr>) = cs_ParseQuantity v"
    "cs_DriverName (v\<lparr>cs_Provider := q\<rparr>) = cs_DriverName v" "cs_Provider (v\<lparr>cs_Provider := q\<rparr>) = q" for q
    by simp_all
  have claim: "create_claim (v\<lparr>cs_Provider := q\<rparr>) = create_claim v" for q
    unfolding fun_eq_iff create_claim_def fields by simp
  show "DriverCreateBucket (v\<lparr>cs_Provider := p\<lparr>DeleteBucket := x\<rparr>\<rparr>) r1 = DriverCreateBucket (v\<lparr>cs_Provider := p\<rparr>) r1"
    unfolding DriverCreateBucket_def claim fields create ..
  show "DriverGrantBucketAccess (v\<lparr>cs_Provider := p\<lparr>DeleteBucket := x\<rparr>\<rparr>) r3 = DriverGrantBucketAccess (v\<lparr>cs_Provider := p\<rparr>) r3"
    unfolding DriverGrantBucketAccess_def fields grant ..
  show "DriverRevokeBucketAccess (v\<lparr>cs_Provider := p\<lparr>DeleteBucket := x\<rparr>\<rparr>) r4 = DriverRevokeBucketAccess (v\<lparr>cs_Provider := p\<rparr>) r4"
    unfolding DriverRevokeBucketAccess_def fields revoke ..
qed

text \<open>While \<open>I\<close> holds no Bucket object that is read asks for \<^verbatim>\<open>Delete\<close>.\<close>

definition bucket_retained :: "Unstructured \<Rightarrow> bool" where
  "bucket_retained bk \<longleftrightarrow> trim_space (nested_string (u_Object bk) ''spec'' ''deletionPolicy'') \<noteq> DeletionPolicyDelete"

definition buckets_retain :: "'w kube \<Rightarrow> ('w \<Rightarrow> bool) \<Rightarrow> bool" where
  "buckets_retain k I \<longleftrightarrow>
     (\<forall>b. keeps I (k_GetUnstructured k ''Bucket'' '''' b) (\<lambda>r. \<forall>bk. r = Inr bk \<longrightarrow> bucket_retained bk))"

lemma delete_other_deletion:
  assumes "\<And>k. cs_KubeClient v = Some k \<Longrightarrow> buckets_retain k I" and "I w"
  shows "run_state (DriverDeleteBucket (v\<lparr>cs_Provider := p\<rparr>) r) w = run_state (DriverDeleteBucket (v\<lparr>cs_Provider := q\<rparr>) r) w"
proof (cases r)
  case None
  then show ?thesis by (simp add: DriverDeleteBucket_def)
next
  case (Some b)
  have "trim_space (nested_string (u_Object bk) ''spec'' ''deletionPolicy'') \<noteq> ''Delete''"
    if "cs_KubeClient v = Some k" "run_state (k_GetUnstructured k ''Bucket'' '''' b) w = (Inr bk, w1)" for k b bk w1
  proof -
    have "keeps I (k_GetUnstructured k ''Bucket'' '''' b) (\<lambda>r. \<forall>bk. r = Inr bk \<longrightarrow> bucket_retained bk)"
      using assms(1) [OF that(1)] by (simp add: buckets_retain_def)
    from keepsD [OF this assms(2)] that(2) show ?thesis
      by (simp add: bucket_retained_def DeletionPolicyDelete_def del: nested_string.simps)
  qed
  then show ?thesis
    unfolding Some
    by (auto simp: DriverDelete_run simp del: nested_string.simps split: option.split prod.split sum.split)
qed

text \<open>Two operators whose runs from a state are the same.\<close>

definition same_at :: "('c, 'h, 'w) operator \<Rightarrow> ('c, 'h, 'w) operator \<Rightarrow> ('h, 'w) op_state \<Rightarrow> bool" where
  "same_at p p' s \<longleftrightarrow>
     (\<forall>ns n. world_after (Reconcile (op_claims p) ns n) s = world_after (Reconcile (op_claims p') ns n) s) \<and>
     rel_option (\<lambda>a a'. \<forall>ns n. world_after (access_Reconcile a ns n) s = world_after (access_Reconcile a' ns n) s)
       (op_accesses p) (op_accesses p') \<and>
     rel_option (\<lambda>v v'. \<forall>r1 r2 r3 r4.
         world_after (DriverCreateBucket v r1) (st_world s) = world_after (DriverCreateBucket v' r1) (st_world s) \<and>
         world_after (DriverDeleteBucket v r2) (st_world s) = world_after (DriverDeleteBucket v' r2) (st_world s) \<and>
         world_after (DriverGrantBucketAccess v r3) (st_world s) = world_after (DriverGrantBucketAccess v' r3) (st_world s) \<and>
         world_after (DriverRevokeBucketAccess v r4) (st_world s) = world_after (DriverRevokeBucketAccess v' r4) (st_world s))
       (op_server p) (op_server p')"

lemma same_at_sym: "same_at p p' s \<Longrightarrow> same_at p' p s"
  by (cases "op_accesses p"; cases "op_accesses p'"; cases "op_server p"; cases "op_server p'") (simp_all add: same_at_def)

lemma same_at_step:
  assumes "same_at p p' s" and "operator_step p env s s1"
  shows "operator_step p' env s s1"
  using assms(2)
proof cases
  case (claim ns n)
  with assms(1) operator_step.claim [of p' env s ns n] show ?thesis by (simp add: same_at_def)
next
  case (access a ns n)
  with assms(1) obtain a' where "op_accesses p' = Some a'"
    "world_after (access_Reconcile a ns n) s = world_after (access_Reconcile a' ns n) s"
    by (cases "op_accesses p'") (simp_all add: same_at_def)
  with access operator_step.access [of p' a' env s ns n] show ?thesis by simp
next
  case (create v r)
  with assms(1) obtain v' where "op_server p' = Some v'"
    "world_after (DriverCreateBucket v r) (st_world s) = world_after (DriverCreateBucket v' r) (st_world s)"
    by (cases "op_server p'") (simp_all add: same_at_def)
  with create operator_step.create [of p' v' env s r] show ?thesis by (simp add: run_in_world)
next
  case (delete v r)
  with assms(1) obtain v' where "op_server p' = Some v'"
    "world_after (DriverDeleteBucket v r) (st_world s) = world_after (DriverDeleteBucket v' r) (st_world s)"
    by (cases "op_server p'") (simp_all add: same_at_def)
  with delete operator_step.delete [of p' v' env s r] show ?thesis by (simp add: run_in_world)
next
  case (grant v r)
  with assms(1) obtain v' where "op_server p' = Some v'"
    "world_after (DriverGrantBucketAccess v r) (st_world s) = world_after (DriverGrantBucketAccess v' r) (st_world s)"
    by (cases "op_server p'") (simp_all add: same_at_def)
  with grant operator_step.grant [of p' v' env s r] show ?thesis by (simp add: run_in_world)
next
  case (revoke v r)
  with assms(1) obtain v' where "op_server p' = Some v'"
    "world_after (DriverRevokeBucketAccess v r) (st_world s) = world_after (DriverRevokeBucketAccess v' r) (st_world s)"
    by (cases "op_server p'") (simp_all add: same_at_def)
  with revoke operator_step.revoke [of p' v' env s r] show ?thesis by (simp add: run_in_world)
next
  case restart
  then show ?thesis using operator_step.restart by simp
next
  case (outside w)
  then show ?thesis using operator_step.outside by simp
qed

lemma same_at_deleting:
  assumes cls: "classes_retain (mgr_GetClient (pr_Manager pr)) I" and bucket: "buckets_retain (mgr_GetClient (pr_Manager pr)) I"
    and s: "I (st_world s)"
  shows "same_at (main_operator (process_deleting f g pr) fl c) (main_operator pr fl c) s"
proof -
  let ?pr = "process_deleting f g pr"
  have claims: "run_state (Reconcile (operator_claims ?pr fl c) ns n) s = run_state (Reconcile (operator_claims pr fl c) ns n) s"
    for ns n
  proof -
    have r: "cr_resolver (operator_claims pr fl c) = Some (operator_resolver pr c)"
      "classes_retain (cr_kube (operator_claims pr fl c)) I"
      using cls by (simp_all add: operator_claims_def)
    show ?thesis
      unfolding process_deleting_parts other_deletion_def by (rule reconcile_never_deletes_retained [OF r s])
  qed
  have accesses: "run_state (access_Reconcile (operator_accesses ?pr c) ns n) s =
      run_state (access_Reconcile (operator_accesses pr c) ns n) s" for ns n
  proof -
    have "ar_resolver (operator_accesses pr c) = Some (operator_resolver pr c)" by (simp add: operator_accesses_def)
    with access_other_deletion [where r = "operator_accesses pr c" and f = f and g = g and ns = ns and n = n and s = s]
    show ?thesis by (simp add: process_deleting_parts other_deletion_def)
  qed
  let ?v = "operator_server pr fl c"
  have same: "?v\<lparr>cs_Provider := cs_Provider ?v\<rparr> = ?v" by simp
  have kube: "cs_KubeClient ?v = Some k \<Longrightarrow> buckets_retain k I" for k
    using bucket by (simp add: operator_server_def NewServer_def)
  have server: "DriverCreateBucket (operator_server ?pr fl c) = DriverCreateBucket ?v"
    "DriverGrantBucketAccess (operator_server ?pr fl c) = DriverGrantBucketAccess ?v"
    "DriverRevokeBucketAccess (operator_server ?pr fl c) = DriverRevokeBucketAccess ?v"
    unfolding process_deleting_parts fun_eq_iff handlers_other_deletion same by simp_all
  have "run_state (DriverDeleteBucket (operator_server ?pr fl c) r) (st_world s) = run_state (DriverDeleteBucket ?v r) (st_world s)" for r
  proof -
    have "run_state (DriverDeleteBucket (?v\<lparr>cs_Provider := p\<rparr>) r) (st_world s) =
        run_state (DriverDeleteBucket (?v\<lparr>cs_Provider := cs_Provider ?v\<rparr>) r) (st_world s)" for p
      by (rule delete_other_deletion, erule kube, rule s)
    then show ?thesis unfolding process_deleting_parts same .
  qed
  with claims accesses server show ?thesis by (simp add: same_at_def main_operator_def)
qed

lemma reachable_same:
  assumes "\<And>t. J t \<Longrightarrow> same_at p p' t" and "\<And>t t1. J t \<Longrightarrow> operator_step p env t t1 \<Longrightarrow> J t1" and "J s"
    and "reachable p env s s1"
  shows "reachable p' env s s1 \<and> J s1"
  using assms(4)
proof (induction rule: reachable.induct)
  case start
  then show ?case using assms(3) by (simp add: reachable.start)
next
  case (step s1 s2)
  with assms(1,2) same_at_step [of p p' s1 env s2] show ?case by (blast intro: reachable.step)
qed

end
