(* ===== verification/Interleaving.thy ===== *)
theory Interleaving
  imports Operator_System
begin

text \<open>
  Interleaving call by call. In \<open>Operator_System\<close> a run of a reconciler or a handler is one step; the manager
  however runs several of them at once, and others use the cluster and the backends meanwhile. Here others
  may act before every single call to the API server, to MinIO or to AWS, and every world that a call sees
  or leaves is recorded. Whatever they do, provided each of their actions keeps an invariant, all the worlds
  seen satisfy it; and as each call of the operator keeps it, so does the operator seen from them.
\<close>

section \<open>Acting before every call\<close>

text \<open>The shared world, what others will do before the next calls, and the worlds that calls have seen or left.\<close>

record 'w shared =
  sh_world :: 'w
  sh_others :: "('w \<Rightarrow> 'w) list"
  sh_seen :: "'w list"

definition at_call :: "('w, 'a) state \<Rightarrow> ('w shared, 'a) state" where
  "at_call m = State (\<lambda>v.
     let w = (case sh_others v of [] \<Rightarrow> sh_world v | act # _ \<Rightarrow> act (sh_world v));
         (x, w') = run_state m w
     in (x, \<lparr>sh_world = w', sh_others = tl (sh_others v), sh_seen = sh_seen v @ [w, w']\<rparr>))"

definition interleaved_kube :: "'w kube \<Rightarrow> 'w shared kube" where
  "interleaved_kube k =
     \<lparr>k_GetClaim = (\<lambda>ns n. at_call (k_GetClaim k ns n)),
      k_GetClass = (\<lambda>n. at_call (k_GetClass k n)),
      k_GetSecret = (\<lambda>ns n. at_call (k_GetSecret k ns n)),
      k_GetConfigMap = (\<lambda>ns n. at_call (k_GetConfigMap k ns n)),
      k_UpdateClaim = (\<lambda>c. at_call (k_UpdateClaim k c)),
      k_UpdateClaimStatus = (\<lambda>c. at_call (k_UpdateClaimStatus k c)),
      k_GetUnstructured = (\<lambda>kind ns n. at_call (k_GetUnstructured k kind ns n)),
      k_CreateUnstructured = (\<lambda>u. at_call (k_CreateUnstructured k u)),
      k_UpdateUnstructured = (\<lambda>u. at_call (k_UpdateUnstructured k u)),
      k_UpdateUnstructuredStatus = (\<lambda>u. at_call (k_UpdateUnstructuredStatus k u)),
      k_CreateOrUpdateSecret = (\<lambda>ns n f. at_call (k_CreateOrUpdateSecret k ns n f)),
      k_CreateSecret = (\<lambda>s. at_call (k_CreateSecret k s)),
      k_UpdateSecret = (\<lambda>s. at_call (k_UpdateSecret k s)),
      k_DeleteSecret = (\<lambda>ns n. at_call (k_DeleteSecret k ns n)),
      k_ContainsFinalizer = k_ContainsFinalizer k, k_AddFinalizer = k_AddFinalizer k, k_RemoveFinalizer = k_RemoveFinalizer k,
      k_SetControllerReference = k_SetControllerReference k, k_SetStatusCondition = k_SetStatusCondition k, k_IsStatusConditionTrue = k_IsStatusConditionTrue k\<rparr>"

definition interleaved_minio :: "('h, 'w) minio_sdk \<Rightarrow> ('h, 'w shared) minio_sdk" where
  "interleaved_minio sdk =
     \<lparr>miniogo_New = miniogo_New sdk, madmin_New = madmin_New sdk,
      mg_BucketExists = (\<lambda>h b. at_call (mg_BucketExists sdk h b)),
      mg_MakeBucket = (\<lambda>h b r l. at_call (mg_MakeBucket sdk h b r l)),
      mg_RemoveBucket = (\<lambda>h b. at_call (mg_RemoveBucket sdk h b)),
      mg_SetBucketLifecycle = (\<lambda>h b rs. at_call (mg_SetBucketLifecycle sdk h b rs)),
      mg_SetBucketReplication = (\<lambda>h b rs. at_call (mg_SetBucketReplication sdk h b rs)),
      mg_EndpointURL = mg_EndpointURL sdk,
      ma_SetBucketQuota = (\<lambda>h b q. at_call (ma_SetBucketQuota sdk h b q)),
      ma_AddUser = (\<lambda>h u s. at_call (ma_AddUser sdk h u s)),
      ma_AddCannedPolicy = (\<lambda>h n p. at_call (ma_AddCannedPolicy sdk h n p)),
      ma_SetPolicy = (\<lambda>h n u g. at_call (ma_SetPolicy sdk h n u g)),
      ma_RemoveUser = (\<lambda>h u. at_call (ma_RemoveUser sdk h u)),
      ma_RemoveCannedPolicy = (\<lambda>h n. at_call (ma_RemoveCannedPolicy sdk h n))\<rparr>"

definition interleaved_aws :: "('c, 'h, 'w) aws_sdk \<Rightarrow> ('c, 'h, 'w shared) aws_sdk" where
  "interleaved_aws sdk =
     \<lparr>aws_LoadConfig = aws_LoadConfig sdk, s3_NewFromConfig = s3_NewFromConfig sdk, iam_NewFromConfig = iam_NewFromConfig sdk,
      s3_CreateBucket = (\<lambda>h i. at_call (s3_CreateBucket sdk h i)),
      s3_DeleteBucket = (\<lambda>h b. at_call (s3_DeleteBucket sdk h b)),
      s3_PutBucketLifecycleConfiguration = (\<lambda>h b rs. at_call (s3_PutBucketLifecycleConfiguration sdk h b rs)),
      s3_PutPublicAccessBlock = (\<lambda>h b c. at_call (s3_PutPublicAccessBlock sdk h b c)),
      s3_PutBucketOwnershipControls = (\<lambda>h b os. at_call (s3_PutBucketOwnershipControls sdk h b os)),
      s3_PutBucketEncryption = (\<lambda>h b es. at_call (s3_PutBucketEncryption sdk h b es)),
      s3_PutBucketPolicy = (\<lambda>h b p. at_call (s3_PutBucketPolicy sdk h b p)),
      iam_CreateUser = (\<lambda>h u. at_call (iam_CreateUser sdk h u)),
      iam_DeleteUser = (\<lambda>h u. at_call (iam_DeleteUser sdk h u)),
      iam_CreateAccessKey = (\<lambda>h u. at_call (iam_CreateAccessKey sdk h u)),
      iam_DeleteAccessKey = (\<lambda>h u k. at_call (iam_DeleteAccessKey sdk h u k)),
      iam_ListAccessKeys = (\<lambda>h u. at_call (iam_ListAccessKeys sdk h u)),
      iam_PutUserPolicy = (\<lambda>h u n p. at_call (iam_PutUserPolicy sdk h u n p)),
      iam_DeleteUserPolicy = (\<lambda>h u n. at_call (iam_DeleteUserPolicy sdk h u n))\<rparr>"

text \<open>
  The process over the shared world. The manager's registrations take the components as arguments and are
  not part of what runs, so that nothing is left of them.
\<close>

definition interleaved_process :: "('c, 'h, 'w) process \<Rightarrow> ('c, 'h, 'w shared) process" where
  "interleaved_process pr =
     \<lparr>pr_MustRegister = (\<lambda>cs. at_call (pr_MustRegister pr cs)), pr_AddClientGo = at_call (pr_AddClientGo pr),
      pr_AddToScheme = (\<lambda>gv kinds. at_call (pr_AddToScheme pr gv kinds)),
      pr_Getenv = pr_Getenv pr, pr_LibraryFlags = pr_LibraryFlags pr,
      pr_Manager = \<lparr>mgr_NewManager = (\<lambda>f libs. at_call (mgr_NewManager (pr_Manager pr) f libs)),
        mgr_GetClient = interleaved_kube (mgr_GetClient (pr_Manager pr)),
        mgr_CompleteClaims = (\<lambda>_ _. ret None), mgr_CompleteAccesses = (\<lambda>_ _. ret None), mgr_AddServer = (\<lambda>_. ret None),
        mgr_AddHealthzCheck = at_call (mgr_AddHealthzCheck (pr_Manager pr)),
        mgr_AddReadyzCheck = at_call (mgr_AddReadyzCheck (pr_Manager pr)),
        mgr_Start = at_call (mgr_Start (pr_Manager pr))\<rparr>,
      pr_Minio = interleaved_minio (pr_Minio pr), pr_Aws = interleaved_aws (pr_Aws pr),
      pr_ParseQuantity = pr_ParseQuantity pr\<rparr>"

section \<open>Invariants through interleaved calls\<close>

text \<open>What others may do is a relation \<open>env\<close>; \<open>scheduled\<close> says that their next actions are all allowed.\<close>

definition scheduled :: "('w \<Rightarrow> 'w \<Rightarrow> bool) \<Rightarrow> ('w \<Rightarrow> 'w) list \<Rightarrow> bool" where
  "scheduled env acts \<longleftrightarrow> (\<forall>act \<in> set acts. \<forall>w. env w (act w))"

definition all_seen :: "('w \<Rightarrow> 'w \<Rightarrow> bool) \<Rightarrow> ('w \<Rightarrow> bool) \<Rightarrow> 'w shared \<Rightarrow> bool" where
  "all_seen env I v \<longleftrightarrow> I (sh_world v) \<and> (\<forall>w \<in> set (sh_seen v). I w) \<and> scheduled env (sh_others v)"

lemma all_seen_at_call:
  assumes "\<And>w w'. env w w' \<Longrightarrow> I w \<Longrightarrow> I w'" and "keeps I m Q"
  shows "keeps (all_seen env I) (at_call m) Q"
  unfolding keeps_def
proof (intro allI impI)
  fix v
  assume v: "all_seen env I v"
  let ?w = "case sh_others v of [] \<Rightarrow> sh_world v | act # _ \<Rightarrow> act (sh_world v)"
  have "I ?w"
  proof (cases "sh_others v")
    case (Cons act acts)
    then have "env (sh_world v) (act (sh_world v))" using v by (simp add: all_seen_def scheduled_def)
    with assms(1) v show ?thesis by (auto simp: all_seen_def Cons)
  qed (use v in \<open>simp add: all_seen_def\<close>)
  from keepsD [OF assms(2) this] have "I (world_after m ?w)" and "Q (result_of m ?w)" by simp_all
  moreover have "scheduled env (tl (sh_others v))"
    using v by (cases "sh_others v") (simp_all add: all_seen_def scheduled_def)
  ultimately show "all_seen env I (world_after (at_call m) v) \<and> Q (result_of (at_call m) v)"
    using v \<open>I ?w\<close> by (auto simp: all_seen_def at_call_def Let_def split: prod.split)
qed

text \<open>The laws of the calls carry over to the interleaved ones.\<close>

lemma interleaved_claim_store:
  assumes "\<And>w w'. env w w' \<Longrightarrow> I w \<Longrightarrow> I w'" and "claim_store W C k I"
  shows "claim_store W C (interleaved_kube k) (all_seen env I)"
proof -
  note lift = all_seen_at_call [where env = env and I = I, OF assms(1)]
  have same: "consistent (interleaved_kube k) = consistent k"
    by (simp add: consistent_def interleaved_kube_def fun_eq_iff)
  show ?thesis
    unfolding claim_store_def same unfolding interleaved_kube_def kube.simps
    using assms(2) by (intro conjI allI impI lift) (simp_all add: claim_storeD [OF assms(2)], simp add: claim_store_def)
qed

lemma interleaved_object_store:
  assumes "\<And>w w'. env w w' \<Longrightarrow> I w \<Longrightarrow> I w'" and "object_store W k I"
  shows "object_store W (interleaved_kube k) (all_seen env I)"
proof -
  note lift = all_seen_at_call [where env = env and I = I, OF assms(1)]
  show ?thesis
    unfolding object_store_def interleaved_kube_def kube.simps
    by (intro conjI allI impI lift) (simp_all add: object_storeD [OF assms(2)])
qed

lemma interleaved_minio_calls:
  assumes "\<And>w w'. env w w' \<Longrightarrow> I w \<Longrightarrow> I w'" and "minio_calls_keep I sdk"
  shows "minio_calls_keep (all_seen env I) (interleaved_minio sdk)"
proof -
  note lift = all_seen_at_call [where env = env and I = I, OF assms(1)]
  show ?thesis
    unfolding minio_calls_keep_def interleaved_minio_def minio_sdk.simps
    by (intro conjI allI lift) (simp_all add: minio_calls_keepD [OF assms(2)])
qed

lemma interleaved_aws_calls:
  assumes "\<And>w w'. env w w' \<Longrightarrow> I w \<Longrightarrow> I w'" and "aws_calls_keep I sdk"
  shows "aws_calls_keep (all_seen env I) (interleaved_aws sdk)"
proof -
  note lift = all_seen_at_call [where env = env and I = I, OF assms(1)]
  show ?thesis
    unfolding aws_calls_keep_def interleaved_aws_def aws_sdk.simps
    by (intro conjI allI lift) (simp_all add: aws_calls_keepD [OF assms(2)])
qed

lemma interleaved_resolver:
  assumes "\<And>w w'. env w w' \<Longrightarrow> I w \<Longrightarrow> I w'"
    and "claim_store W C (mgr_GetClient (pr_Manager pr)) I"
    and "minio_calls_keep I (pr_Minio pr)" and "aws_calls_keep I (pr_Aws pr)"
  shows "resolver_store (Some (operator_resolver (interleaved_process pr) c)) (all_seen env I)"
proof -
  note reads = claim_storeD(5,6) [OF interleaved_claim_store [where env = env, OF assms(1,2)]]
  note minio = minio_provider_keeps [OF interleaved_minio_calls [where env = env, OF assms(1,3)]]
  note aws = aws_provider_keeps [OF interleaved_aws_calls [where env = env, OF assms(1,4)]]
  show ?thesis
    using reads minio aws
    by (simp add: resolver_store_def operator_resolver_def NewResolver_def interleaved_process_def)
qed

text \<open>Between two runs others may also act, and their next actions may become different ones.\<close>

definition others :: "('w \<Rightarrow> 'w \<Rightarrow> bool) \<Rightarrow> 'w shared \<Rightarrow> 'w shared \<Rightarrow> bool" where
  "others env v v' \<longleftrightarrow> (sh_world v' = sh_world v \<or> env (sh_world v) (sh_world v')) \<and>
     sh_seen v' = sh_seen v \<and> scheduled env (sh_others v')"

lemma others_all_seen:
  "(\<And>w w'. env w w' \<Longrightarrow> I w \<Longrightarrow> I w') \<Longrightarrow> others env v v' \<Longrightarrow> all_seen env I v \<Longrightarrow> all_seen env I v'"
  by (auto simp: others_def all_seen_def)

text \<open>One step of the operator, seen call by call.\<close>

lemma interleaved_step:
  fixes pr :: "('c, 'h, 'w) process" and t t1 :: "('h, 'w shared) op_state"
  assumes "condition_laws (mgr_GetClient (pr_Manager pr))" and "claim_store W C (mgr_GetClient (pr_Manager pr)) I"
    and "object_store W (mgr_GetClient (pr_Manager pr)) I"
    and "minio_calls_keep I (pr_Minio pr)" and "aws_calls_keep I (pr_Aws pr)"
    and "\<And>w w'. env w w' \<Longrightarrow> I w \<Longrightarrow> I w'"
    and "of_world (all_seen env I) t" and "operator_step (main_operator (interleaved_process pr) fl c) (others env) t t1"
  shows "of_world (all_seen env I) t1"
proof (rule step_invariant [where W = W and C = C, OF _ _ _ interleaved_resolver [where env = env, OF assms(6,2,4,5)] _ assms(7,8)])
  have client: "mgr_GetClient (pr_Manager (interleaved_process pr)) = interleaved_kube (mgr_GetClient (pr_Manager pr))"
    by (simp add: interleaved_process_def)
  show "condition_laws (mgr_GetClient (pr_Manager (interleaved_process pr)))"
    using assms(1) by (simp add: client) (simp add: condition_laws_def interleaved_kube_def)
  show "claim_store W C (mgr_GetClient (pr_Manager (interleaved_process pr))) (all_seen env I)"
    unfolding client by (rule interleaved_claim_store [OF assms(6,2)])
  show "object_store W (mgr_GetClient (pr_Manager (interleaved_process pr))) (all_seen env I)"
    unfolding client by (rule interleaved_object_store [OF assms(6,3)])
  show "all_seen env I v'" if "others env v v'" "all_seen env I v" for v v'
    by (rule others_all_seen [OF assms(6) that])
qed

section \<open>Properties\<close>

text \<open>C2. The status of every claim is consistent in every world that a call of the running operator sees or
  leaves, in whatever order its reconcilers and the driver run, fail, are retried and are restarted, and
  whatever others do between those calls that keeps it so: \<^verbatim>\<open>bucketReady\<close>, the phase \<^verbatim>\<open>Bound\<close> and a true \<^verbatim>\<open>Ready\<close>
  condition always go together, and a bound claim names its bucket, its endpoint and its Secret.\<close>

theorem operator_interleaving_invariant:
  fixes pr :: "('c, 'h, 'w) process" and s s1 :: "('h, 'w shared) op_state"
  assumes "condition_laws (mgr_GetClient (pr_Manager pr))" and "claim_store W C (mgr_GetClient (pr_Manager pr)) I"
    and "object_store W (mgr_GetClient (pr_Manager pr)) I"
    and "minio_calls_keep I (pr_Minio pr)" and "aws_calls_keep I (pr_Aws pr)"
    and "\<And>w w'. env w w' \<Longrightarrow> I w \<Longrightarrow> I w'"
    and "I (sh_world (st_world s))" and "sh_others (st_world s) = []" and "sh_seen (st_world s) = []"
    and "reachable (main_operator (interleaved_process pr) f c) (others env) s s1"
    and "w \<in> set (sh_world (st_world s1) # sh_seen (st_world s1))"
  shows "I w \<and> (\<forall>ns n claim. result_of (k_GetClaim (mgr_GetClient (pr_Manager pr)) ns n) w = Inr claim \<longrightarrow>
       consistent (mgr_GetClient (pr_Manager pr)) claim)"
proof -
  have "of_world (all_seen env I) s1"
  proof (rule reachable_invariant [OF assms(10), of "of_world (all_seen env I)"])
    show "of_world (all_seen env I) s" using assms(7-9) by (simp add: all_seen_def scheduled_def)
  qed (rule interleaved_step [OF assms(1-6)])
  then have "I w" using assms(11) by (auto simp: all_seen_def)
  with keepsD [OF claim_storeD(1) [OF assms(2)]] show ?thesis by blast
qed

text \<open>The example: while a BucketAccess is reconciled somebody else creates the example's objects.\<close>

definition shared_state :: "mem_cluster \<Rightarrow> (mem_cluster \<Rightarrow> mem_cluster) list \<Rightarrow> mem_cluster list \<Rightarrow>
    (unit, mem_cluster shared) op_state" where
  "shared_state w acts seen = \<lparr>st_world = \<lparr>sh_world = w, sh_others = acts, sh_seen = seen\<rparr>,
     st_cache = [], st_awsCache = [], st_metrics = []\<rparr>"

lemma absent_access_run:
  assumes "(case acts of [] \<Rightarrow> w | act # _ \<Rightarrow> act w) = example_cluster"
  shows "world_after (access_Reconcile (operator_accesses (interleaved_process example_process) mem_client) ''ns1'' ''ba'')
      (shared_state w acts []) = shared_state example_cluster (tl acts) [example_cluster, example_cluster]"
proof -
  have kube: "ar_kube (operator_accesses (interleaved_process example_process) mem_client) = interleaved_kube mem_kube"
    by (simp add: operator_accesses_def interleaved_process_def example_process_def)
  have read: "run_state (k_GetUnstructured (interleaved_kube mem_kube) kind ''ns1'' ''ba'') (st_world (shared_state w acts [])) =
      (Inl (ErrApi ReasonNotFound ''not found''), st_world (shared_state example_cluster (tl acts) [example_cluster, example_cluster]))" for kind
    using assms
    by (cases acts; simp add: interleaved_kube_def mem_kube_def at_call_def run_simps shared_state_def Let_def)
      (simp_all add: example_cluster_def empty_cluster_def)
  show ?thesis
    by (simp add: access_Reconcile_def kube run_simps read is_not_found_def) (simp add: shared_state_def)
qed

theorem operator_interleaving_invariant_witness:
  "\<exists>s1. reachable (main_operator (interleaved_process example_process) (default_flags\<lparr>cosiEnabled := True\<rparr>) mem_client)
          (others (\<lambda>_. all_consistent)) (shared_state empty_cluster [] []) s1 \<and>
     example_cluster \<in> set (sh_seen (st_world s1)) \<and>
     (\<forall>claim. result_of (k_GetClaim mem_kube ''ns1'' ''c1'') example_cluster = Inr claim \<longrightarrow> consistent mem_kube claim)"
proof -
  let ?f = "default_flags\<lparr>cosiEnabled := True\<rparr>" and ?env = "\<lambda>_ :: mem_cluster. all_consistent"
  let ?pr = "interleaved_process example_process"
  let ?p = "main_operator ?pr ?f mem_client" and ?a = "operator_accesses ?pr mem_client"
  let ?s0 = "shared_state empty_cluster [] []" and ?s1 = "shared_state empty_cluster [\<lambda>_. example_cluster] []"
  let ?s2 = "world_after (access_Reconcile ?a ''ns1'' ''ba'') ?s1"
  have k: "mgr_GetClient (pr_Manager example_process) = mem_kube" by (simp add: example_process_def)
  have "operator_step ?p (others ?env) ?s0 (?s0\<lparr>st_world := st_world ?s1\<rparr>)"
    by (rule operator_step.outside)
      (simp add: others_def scheduled_def shared_state_def example_cluster_consistent)
  then have s1: "operator_step ?p (others ?env) ?s0 ?s1" by (simp add: shared_state_def)
  have "op_accesses ?p = Some ?a" by (simp add: main_operator_def)
  then have "operator_step ?p (others ?env) ?s1 ?s2" by (rule operator_step.access)
  with s1 have r: "reachable ?p (others ?env) ?s0 ?s2"
    by (intro reachable.step [OF reachable.step [OF reachable.start]])
  have "?s2 = shared_state example_cluster [] [example_cluster, example_cluster]"
    by (simp add: absent_access_run)
  then have seen: "example_cluster \<in> set (sh_seen (st_world ?s2))" by (simp add: shared_state_def)
  then have w: "example_cluster \<in> set (sh_world (st_world ?s2) # sh_seen (st_world ?s2))" by simp
  have start: "all_consistent (sh_world (st_world ?s0))" "sh_others (st_world ?s0) = []" "sh_seen (st_world ?s0) = []"
    by (simp_all add: all_consistent_def shared_state_def empty_cluster_def)
  have minio: "minio_calls_keep all_consistent (pr_Minio example_process)"
    by (simp add: example_process_def mem_minio_calls)
  have aws: "aws_calls_keep all_consistent (pr_Aws example_process)"
    by (simp add: example_process_def mem_aws_calls)
  from operator_interleaving_invariant [of example_process "\<lambda>_. True" "\<lambda>_. True" all_consistent ?env ?s0 ?f mem_client ?s2 example_cluster,
      unfolded k, OF mem_condition_laws mem_claim_store mem_object_store minio aws _ start r w]
  show ?thesis using r seen by blast
qed

text \<open>Retention. No bucket is deleted on a run from a world in which nothing read asks for it.\<close>

lemma interleaved_deleting:
  "interleaved_process (process_deleting f g pr) =
     process_deleting (\<lambda>h b. at_call (f h b)) (\<lambda>h b. at_call (g h b)) (interleaved_process pr)"
  by (simp add: interleaved_process_def process_deleting_def interleaved_minio_def interleaved_aws_def)

lemma interleaved_retain:
  assumes "\<And>w w'. env w w' \<Longrightarrow> I w \<Longrightarrow> I w'" and "classes_retain k I" and "buckets_retain k I"
  shows "classes_retain (interleaved_kube k) (all_seen env I)" and "buckets_retain (interleaved_kube k) (all_seen env I)"
proof -
  note lift = all_seen_at_call [where env = env and I = I, OF assms(1)]
  show "classes_retain (interleaved_kube k) (all_seen env I)"
    using assms(2) unfolding classes_retain_def interleaved_kube_def kube.simps by (intro conjI allI lift) blast+
  show "buckets_retain (interleaved_kube k) (all_seen env I)"
    using assms(3) unfolding buckets_retain_def interleaved_kube_def kube.simps by (intro allI lift) blast+
qed

text \<open>C3. While no class and no Bucket object asks for \<^verbatim>\<open>Delete\<close>, and others keep it so, no call of the running
  operator deletes a bucket, however its runs, restarts and the others' actions interleave: the states it can
  reach, with every world that its calls see or leave, are the same whatever the deletion calls of the two
  backends would do.\<close>

theorem operator_never_deletes_retained:
  fixes pr :: "('c, 'h, 'w) process" and s s1 :: "('h, 'w shared) op_state"
  assumes "condition_laws (mgr_GetClient (pr_Manager pr))" and "claim_store W C (mgr_GetClient (pr_Manager pr)) I"
    and "object_store W (mgr_GetClient (pr_Manager pr)) I"
    and "minio_calls_keep I (pr_Minio pr)" and "aws_calls_keep I (pr_Aws pr)"
    and "\<And>w w'. env w w' \<Longrightarrow> I w \<Longrightarrow> I w'"
    and "classes_retain (mgr_GetClient (pr_Manager pr)) I" and "buckets_retain (mgr_GetClient (pr_Manager pr)) I"
    and "I (sh_world (st_world s))" and "sh_others (st_world s) = []" and "sh_seen (st_world s) = []"
  shows "reachable (main_operator (interleaved_process (process_deleting f g pr)) fl c) (others env) s s1 \<longleftrightarrow>
    reachable (main_operator (interleaved_process pr) fl c) (others env) s s1"
proof -
  let ?p = "main_operator (interleaved_process pr) fl c" and ?J = "of_world (all_seen env I)"
  let ?q = "main_operator (interleaved_process (process_deleting f g pr)) fl c"
  have client: "mgr_GetClient (pr_Manager (interleaved_process pr)) = interleaved_kube (mgr_GetClient (pr_Manager pr))"
    by (simp add: interleaved_process_def)
  have same: "same_at ?q ?p t" if "?J t" for t
    unfolding interleaved_deleting
    by (rule same_at_deleting [where I = "all_seen env I"], unfold client)
      (use interleaved_retain [where env = env, OF assms(6-8)] that in simp_all)
  have start: "?J s" using assms(9-11) by (simp add: all_seen_def scheduled_def)
  have kept: "?J t1" if "?J t" "operator_step ?p (others env) t t1" for t t1
    by (rule interleaved_step [OF assms(1-6) that])
  have kept': "?J t1" if "?J t" "operator_step ?q (others env) t t1" for t t1
    by (rule kept [OF that(1) same_at_step [OF same [OF that(1)] that(2)]])
  show ?thesis
  proof
    assume "reachable ?q (others env) s s1"
    then show "reachable ?p (others env) s s1"
      by (rule reachable_same [where J = ?J, THEN conjunct1, rotated 3]) (erule same, erule (1) kept', rule start)
  next
    assume "reachable ?p (others env) s s1"
    then show "reachable ?q (others env) s s1"
      by (rule reachable_same [where J = ?J, THEN conjunct1, rotated 3]) (erule same_at_sym [OF same], erule (1) kept, rule start)
  qed
qed

text \<open>The example: a cluster whose classes and objects all retain.\<close>

definition class_retained :: "BucketClass \<Rightarrow> bool" where
  "class_retained cls \<longleftrightarrow> trim_space (class_DeletionPolicy cls) \<noteq> DeletionPolicyDelete"

definition all_retained :: "mem_cluster \<Rightarrow> bool" where
  "all_retained w \<longleftrightarrow> all_consistent w \<and>
     (\<forall>n cls. map_of (mc_classes w) n = Some cls \<longrightarrow> class_retained cls) \<and>
     (\<forall>key u. map_of (mc_objects w) key = Some u \<longrightarrow> bucket_retained u)"

lemma retained_object_laws: "object_laws bucket_retained class_retained"
  by (simp add: object_laws_def bucket_retained_def class_retained_def cosi_bucket_spec_def Let_def update_conv')

lemma mem_retained_stores:
  "claim_store bucket_retained class_retained mem_kube all_retained"
  "object_store bucket_retained mem_kube all_retained"
proof -
  have same: "all_retained (w\<lparr>mc_secrets := x\<rparr>) = all_retained w" for w x by (simp add: all_retained_def)
  have claims: "consistent mem_kube c \<Longrightarrow> keeps all_retained (put_claim c) (\<lambda>r. \<forall>c. r = Inr c \<longrightarrow> consistent mem_kube c)" for c
    by (auto simp: keeps_def put_claim_def all_retained_def all_consistent_def update_conv')
  have put: "bucket_retained u \<Longrightarrow> all_retained w \<Longrightarrow> all_retained (put_object u w)" for u w
    by (simp add: put_object_def all_retained_def update_conv')
  have claim: "keeps all_retained (found mc_claims key) (\<lambda>r. \<forall>c. r = Inr c \<longrightarrow> consistent mem_kube c)" for key
    by (cases key) (auto simp: keeps_def run_simps all_retained_def all_consistent_def split: option.split)
  have cls: "keeps all_retained (found mc_classes key) (\<lambda>r. \<forall>cls. r = Inr cls \<longrightarrow> class_retained cls)" for key
    by (auto simp: keeps_def run_simps all_retained_def split: option.split)
  have object: "keeps all_retained (found mc_objects key) (\<lambda>r. \<forall>u. r = Inr u \<longrightarrow> bucket_retained u)" for key
    by (cases key) (auto simp: keeps_def run_simps all_retained_def split: option.split)
  have other: "keeps all_retained (found f k) (\<lambda>_. True)" for f :: "mem_cluster \<Rightarrow> ('k \<times> 'v) list" and k
    by (simp add: keeps_def run_simps)
  show "claim_store bucket_retained class_retained mem_kube all_retained"
    unfolding claim_store_def
    by (simp add: retained_object_laws mem_kube_def claims [unfolded mem_kube_def] claim [unfolded mem_kube_def] cls object other)
      (simp add: keeps_def run_simps put put_secret_def same split: sum.split)
  show "object_store bucket_retained mem_kube all_retained"
    by (simp add: object_store_def mem_kube_def keeps_def run_simps put put_secret_def same)
qed

lemma mem_retain: "classes_retain mem_kube all_retained" "buckets_retain mem_kube all_retained"
proof -
  have "trim_space DeletionPolicyDelete = DeletionPolicyDelete" by code_simp
  then have cls: "class_retained cls \<Longrightarrow> class_DeletionPolicy cls \<noteq> DeletionPolicyDelete" for cls
    by (auto simp: class_retained_def)
  note calls = claim_storeD [OF mem_retained_stores(1)]
  show "classes_retain mem_kube all_retained"
    unfolding classes_retain_def
    by (intro conjI allI keeps_mono [OF calls(1)] keeps_mono [OF calls(4)]) (use cls in blast)+
  show "buckets_retain mem_kube all_retained"
    unfolding buckets_retain_def by (intro allI calls(7))
qed

theorem operator_never_deletes_retained_witness:
  "\<forall>f g. \<exists>s1. reachable (main_operator (interleaved_process (process_deleting f g example_process))
          (default_flags\<lparr>cosiEnabled := True\<rparr>) mem_client)
          (others (\<lambda>_. all_retained)) (shared_state example_cluster [] []) s1 \<and> sh_seen (st_world s1) \<noteq> []"
proof (intro allI)
  fix f g
  let ?f = "default_flags\<lparr>cosiEnabled := True\<rparr>" and ?env = "\<lambda>_ :: mem_cluster. all_retained"
  let ?pr = "interleaved_process example_process" and ?s0 = "shared_state example_cluster [] []"
  let ?p = "main_operator ?pr ?f mem_client" and ?a = "operator_accesses ?pr mem_client"
  let ?s1 = "world_after (access_Reconcile ?a ''ns1'' ''ba'') ?s0"
  have k: "mgr_GetClient (pr_Manager example_process) = mem_kube" by (simp add: example_process_def)
  have "op_accesses ?p = Some ?a" by (simp add: main_operator_def)
  then have "operator_step ?p (others ?env) ?s0 ?s1" by (rule operator_step.access)
  then have r: "reachable ?p (others ?env) ?s0 ?s1" by (rule reachable.step [OF reachable.start])
  have minio: "minio_calls_keep all_retained (pr_Minio example_process)"
    by (simp add: example_process_def minio_calls_keep_def cluster_minio_def keeps_def run_simps all_retained_def)
  have aws: "aws_calls_keep all_retained (pr_Aws example_process)"
    by (simp add: example_process_def mem_aws_calls)
  have start: "all_retained (sh_world (st_world ?s0))" "sh_others (st_world ?s0) = []" "sh_seen (st_world ?s0) = []"
    using example_cluster_consistent
    by (simp_all add: all_retained_def shared_state_def)
      (simp add: example_cluster_def empty_cluster_def example_class_def zero_class_def class_retained_def DeletionPolicyDelete_def trim_space_def)
  from operator_never_deletes_retained [of example_process bucket_retained class_retained all_retained ?env ?s0 f g ?f mem_client ?s1,
      unfolded k, OF mem_condition_laws mem_retained_stores minio aws _ mem_retain start] r
  have "reachable (main_operator (interleaved_process (process_deleting f g example_process)) ?f mem_client) (others ?env) ?s0 ?s1"
    by blast
  moreover have "sh_seen (st_world ?s1) \<noteq> []" by (simp add: absent_access_run) (simp add: shared_state_def)
  ultimately show "\<exists>s1. reachable (main_operator (interleaved_process (process_deleting f g example_process)) ?f mem_client)
      (others ?env) ?s0 s1 \<and> sh_seen (st_world s1) \<noteq> []" by blast
qed

end
