(* ===== verification/Completion.thy ===== *)
theory Completion
  imports Claim_Progress
begin

text \<open>
  Completion of deletions: where only finitely many calls fail, a claim that is being deleted is let go after at
  most one run more than there are faults to come. The triples and the loop of retries are those of
  \<open>Claim_Progress\<close>; what is added are reads for which NotFound is an answer and no fault.
\<close>

section \<open>Calls for which NotFound is no fault\<close>

text \<open>A read that yields an object with \<open>R\<close>, finds none, in a world with \<open>N\<close>, or uses up a fault.\<close>

definition lookup ::
  "('w \<Rightarrow> bool) \<Rightarrow> ('w \<Rightarrow> nat) \<Rightarrow> ('w, go_error + 'a) state \<Rightarrow> ('w \<Rightarrow> bool) \<Rightarrow> ('a \<Rightarrow> 'w \<Rightarrow> bool) \<Rightarrow> bool" where
  "lookup I F m N R \<longleftrightarrow> (\<forall>f. triple (within I F f) m (\<lambda>x w. case x of
     Inl e \<Rightarrow> if is_not_found e then within I F f w \<and> N w else faulted I F f w
   | Inr c \<Rightarrow> within I F f w \<and> R c w))"

lemma lookup_inside:
  "lookup I F m N R \<Longrightarrow> triple (of_world (within I F f)) (in_world m) (\<lambda>x s. case x of
     Inl e \<Rightarrow> if is_not_found e then within I F f (st_world s) \<and> N (st_world s) else faulted I F f (st_world s)
   | Inr c \<Rightarrow> within I F f (st_world s) \<and> R c (st_world s))"
  unfolding lookup_def by (drule spec, drule triple_in_world)

lemma attempt_mono:
  assumes "attempt I F P m R E" and "\<And>x w. R x w \<Longrightarrow> R' x w"
  shows "attempt I F P m R' E" and "attempt I F P m R' any"
  using assms unfolding attempt_def by (auto elim!: triple_conseq split: sum.splits)

lemma lookup_attempt: "attempt I F any m R (\<lambda>e. \<not> is_not_found e) \<Longrightarrow> lookup I F m N R"
  unfolding attempt_def lookup_def by (auto elim!: triple_conseq split: sum.splits)

text \<open>After a read that failed: one way where nothing was found, another after a fault.\<close>

lemma triple_not_found:
  assumes "is_not_found e \<Longrightarrow> triple P m Q" and "\<not> is_not_found e \<Longrightarrow> triple P' m Q"
  shows "triple (\<lambda>s. if is_not_found e then P s else P' s) m Q"
  using assms by (cases "is_not_found e") simp_all

lemma triple_retry: "x \<noteq> Done \<Longrightarrow> triple (of_world (faulted I F f)) (ret x) (done_or_faulted I F B f)"
  by (rule triple_ret) (simp add: done_or_faulted_def)

lemma triple_done: "triple (of_world (\<lambda>w. within I F f w \<and> B w)) (ret Done) (done_or_faulted I F B f)"
  by (rule triple_ret) (simp add: done_or_faulted_def)

section \<open>A claim that is being deleted\<close>

text \<open>The claim \<open>c0\<close>, with whatever metadata but its name, while it is being deleted.\<close>

definition leaving_claim :: "BucketClaim \<Rightarrow> BucketClaim \<Rightarrow> bool" where
  "leaving_claim c0 c \<longleftrightarrow> claim_Namespace c = claim_Namespace c0 \<and> claim_Name c = claim_Name c0 \<and>
     claim_Spec c = claim_Spec c0 \<and> claim_Status c = claim_Status c0 \<and> meta_DeletionTimestamp (claim_Meta c) \<noteq> None"

definition claim_released :: "'w kube \<Rightarrow> BucketClaim \<Rightarrow> bool" where
  "claim_released k c \<longleftrightarrow> \<not> k_ContainsFinalizer k (meta_Finalizers (claim_Meta c)) bucketClaimFinalizer"

text \<open>
  \<open>C\<close> says that nothing is left of the claim at the backend, \<open>D\<close> that the claim is gone from the API server or
  stored without the operator's finalizer. The class may be missing, and so may a backend for it where the error is
  one after which the finalizer gives up, in worlds that count as cleaned up.
\<close>

definition cluster_releases ::
  "'w kube \<Rightarrow> ('w \<Rightarrow> bool) \<Rightarrow> ('w \<Rightarrow> nat) \<Rightarrow> ('w \<Rightarrow> bool) \<Rightarrow> ('w \<Rightarrow> bool) \<Rightarrow> BucketClaim \<Rightarrow> BucketClass \<Rightarrow> bool"
  where
  "cluster_releases k I F C D c0 cls \<longleftrightarrow>
     lookup I F (k_GetClaim k (claim_Namespace c0) (claim_Name c0)) D
       (\<lambda>c w. leaving_claim c0 c \<and> (claim_released k c \<longrightarrow> D w)) \<and>
     (\<forall>c. leaving_claim c0 c \<and> claim_released k c \<longrightarrow> attempt I F C (k_UpdateClaim k c) (\<lambda>_. D) any) \<and>
     (\<forall>fs. \<not> k_ContainsFinalizer k (k_RemoveFinalizer k fs bucketClaimFinalizer) bucketClaimFinalizer) \<and>
     lookup I F (k_GetClass k (spec_BucketClassName (claim_Spec c0))) C (\<lambda>c _. c = cls) \<and>
     (\<forall>ns n f. keeps (within I F f) (k_GetSecret k ns n) any)"

text \<open>Revoking may fail, and the bucket of a class that retains counts as cleaned up once that was tried.\<close>

definition backend_releases ::
  "'w Provider \<Rightarrow> ('w \<Rightarrow> bool) \<Rightarrow> ('w \<Rightarrow> nat) \<Rightarrow> ('w \<Rightarrow> bool) \<Rightarrow> BucketClaim \<Rightarrow> BucketClass \<Rightarrow> bool" where
  "backend_releases p I F C c0 cls \<longleftrightarrow>
     (\<forall>b a key f. triple (within I F f) (RevokeAccess p b a key)
        (\<lambda>_ w. within I F f w \<and> (class_DeletionPolicy cls = DeletionPolicyDelete \<or> C w))) \<and>
     (\<forall>f. class_DeletionPolicy cls = DeletionPolicyDelete \<longrightarrow>
        triple (within I F f) (DeleteBucket p (finalizer_bucket_name c0))
          (\<lambda>x w. case x of Some e \<Rightarrow> faulted I F f w | None \<Rightarrow> within I F f w \<and> C w))"

definition resolver_releases ::
  "('c, 'h, 'w) claim_reconciler \<Rightarrow> ('w \<Rightarrow> bool) \<Rightarrow> ('w \<Rightarrow> nat) \<Rightarrow> ('w \<Rightarrow> bool) \<Rightarrow> BucketClaim \<Rightarrow> BucketClass \<Rightarrow> bool"
  where
  "resolver_releases r I F C c0 cls \<longleftrightarrow> (\<forall>f.
     triple (of_world (within I F f)) (ProviderForClass (cr_resolver r) (Some cls))
       (\<lambda>x s. case x of
          Inl e \<Rightarrow> if skip_finalization e then within I F f (st_world s) \<and> C (st_world s) else faulted I F f (st_world s)
        | Inr p \<Rightarrow> within I F f (st_world s) \<and> backend_releases p I F C c0 cls))"

lemma cluster_releasesD:
  assumes "cluster_releases k I F C D c0 cls"
  shows "lookup I F (k_GetClaim k (claim_Namespace c0) (claim_Name c0)) D
       (\<lambda>c w. leaving_claim c0 c \<and> (claim_released k c \<longrightarrow> D w))"
    "leaving_claim c0 c \<Longrightarrow> claim_released k c \<Longrightarrow> attempt I F C (k_UpdateClaim k c) (\<lambda>_. D) any"
    "\<not> k_ContainsFinalizer k (k_RemoveFinalizer k fs bucketClaimFinalizer) bucketClaimFinalizer"
    "lookup I F (k_GetClass k (spec_BucketClassName (claim_Spec c0))) C (\<lambda>c _. c = cls)"
    "keeps (within I F f) (k_GetSecret k ns' n') any"
  using assms by (simp_all add: cluster_releases_def)

text \<open>The outcome of the finalization: done, or a fault used up.\<close>

lemma finalize_tolerated:
  assumes k: "cluster_releases (cr_kube r) I F C D c0 cls" and r: "resolver_releases r I F C c0 cls"
    and c: "leaving_claim c0 c"
  shows "triple (of_world (within I F f)) (finalizeBucketClaim r c)
    (\<lambda>x s. case x of Some e \<Rightarrow> faulted I F f (st_world s) | None \<Rightarrow> within I F f (st_world s) \<and> C (st_world s))"
proof -
  let ?Q = "\<lambda>x s. case x of Some (e :: go_error) \<Rightarrow> faulted I F f (st_world s)
     | None \<Rightarrow> within I F f (st_world s) \<and> C (st_world s)"
  have spec: "claim_Spec c = claim_Spec c0" and bucket: "finalizer_bucket_name c = finalizer_bucket_name c0" using c by (simp_all add: leaving_claim_def finalizer_bucket_name_def)
  have key: "triple (of_world (within I F f)) (finalizer_access_key (cr_kube r) c) (\<lambda>_ s. within I F f (st_world s))"
    using cluster_releasesD(5) [OF k]
    by (simp add: finalizer_access_key_def triple_def keeps_def run_simps split: option.split)
  have cleanup: "triple (within I F f) (RevokeAccessAndMaybeDeleteBucket p c cls a)
      (\<lambda>x w. case x of Some e \<Rightarrow> faulted I F f w | None \<Rightarrow> within I F f w \<and> C w)"
    if p: "backend_releases p I F C c0 cls" for p a
  proof -
    have revoke: "triple (within I F f) (RevokeAccess p b acc a)
        (\<lambda>_ w. within I F f w \<and> (class_DeletionPolicy cls = DeletionPolicyDelete \<or> C w))" for b acc
      using p by (simp add: backend_releases_def)
    have delete: "triple (within I F f) (DeleteBucket p (finalizer_bucket_name c0))
        (\<lambda>x w. case x of Some e \<Rightarrow> faulted I F f w | None \<Rightarrow> within I F f w \<and> C w)"
      if "class_DeletionPolicy cls = DeletionPolicyDelete"
      using p that by (simp add: backend_releases_def)
    show ?thesis
      unfolding RevokeAccessAndMaybeDeleteBucket_def bucket
      by (rule triple_bind [OF revoke], rule triple_if)
        (rule triple_pre [OF delete], simp_all add: triple_ret)
  qed
  have provided: "triple (\<lambda>s. within I F f (st_world s) \<and> backend_releases p I F C c0 cls)
      (do { a \<leftarrow> finalizer_access_key (cr_kube r) c; in_world (RevokeAccessAndMaybeDeleteBucket p c cls a) }) ?Q" for p
    by (rule triple_fact_after, rule triple_bind [OF key triple_in_world [OF cleanup]])
  have unresolved: "triple (\<lambda>s. if skip_finalization e then within I F f (st_world s) \<and> C (st_world s) else faulted I F f (st_world s))
      (ret (if skip_finalization e then None else Some (ErrWrap l e l'))) ?Q" for e l l'
    by (rule triple_ret) (simp split: if_splits)
  have resolved: "triple (of_world (within I F f))
      (val_or_err (ProviderForClass (cr_resolver r) (Some cls)) (\<lambda>err. if skip_finalization err then None
           else Some (ErrWrap ''storage provider for finalization: '' err ''''))
         (\<lambda>p. do { a \<leftarrow> finalizer_access_key (cr_kube r) c; in_world (RevokeAccessAndMaybeDeleteBucket p c cls a) })) ?Q"
    unfolding val_or_err_def
    by (rule triple_call [OF r [unfolded resolver_releases_def, rule_format] provided unresolved])
  have found: "triple (\<lambda>s. within I F f (st_world s) \<and> cls' = cls)
      (val_or_err (ProviderForClass (cr_resolver r) (Some cls')) (\<lambda>err. if skip_finalization err then None
           else Some (ErrWrap ''storage provider for finalization: '' err ''''))
         (\<lambda>p. do { a \<leftarrow> finalizer_access_key (cr_kube r) c; in_world (RevokeAccessAndMaybeDeleteBucket p c cls' a) })) ?Q"
    for cls'
    by (rule triple_fact_after) (simp only: resolved)
  have missing: "triple (\<lambda>s. if is_not_found e then within I F f (st_world s) \<and> C (st_world s) else faulted I F f (st_world s))
      (ret (if is_not_found e then None else Some e)) ?Q" for e
    by (rule triple_ret) (simp split: if_splits)
  show ?thesis
    unfolding finalizeBucketClaim_def spec val_or_err_def [of "in_world _"]
    by (rule triple_call [OF lookup_inside [OF cluster_releasesD(4) [OF k]] found missing])
qed

lemma deleted_tolerated:
  assumes k: "cluster_releases (cr_kube r) I F C D c0 cls" and r: "resolver_releases r I F C c0 cls"
    and c: "leaving_claim c0 c"
  shows "triple (of_world (\<lambda>w. within I F f w \<and> (claim_released (cr_kube r) c \<longrightarrow> D w))) (reconcile_deleted r c)
    (done_or_faulted I F D f)"
proof -
  let ?k = "cr_kube r"
  let ?done = "do { _ \<leftarrow> inc_total ''deleted''; ret Done }"
  let ?c = "c\<lparr>claim_Meta := (claim_Meta c)\<lparr>meta_Finalizers :=
      k_RemoveFinalizer ?k (meta_Finalizers (claim_Meta c)) bucketClaimFinalizer\<rparr>\<rparr>"
  have finish: "triple (of_world (\<lambda>w. within I F f w \<and> D w)) ?done (done_or_faulted I F D f)"
    by (rule triple_bind [OF triple_inc(2)], rule triple_ret) (simp add: done_or_faulted_def)
  have "leaving_claim c0 ?c" "claim_released ?k ?c"
    using c cluster_releasesD(3) [OF k] by (simp_all add: leaving_claim_def claim_released_def)
  note put = triple_in_world [OF attemptD [OF cluster_releasesD(2) [OF k this], of f]]
  have update: "triple (of_world (\<lambda>w. within I F f w \<and> C w)) (do {
        u \<leftarrow> in_world (k_UpdateClaim ?k ?c);
        case u of Inl err \<Rightarrow> do { _ \<leftarrow> count_failure ''remove_finalizer''; ret (Failed err) } | Inr _ \<Rightarrow> ?done })
      (done_or_faulted I F D f)"
    by (rule triple_call [OF put finish triple_pre [OF to_be_run_again]]) simp
  show ?thesis
    unfolding reconcile_deleted_def Let_def
  proof (rule triple_if)
    assume "k_ContainsFinalizer ?k (meta_Finalizers (claim_Meta c)) bucketClaimFinalizer"
    show "triple (of_world (\<lambda>w. within I F f w \<and> (claim_released ?k c \<longrightarrow> D w))) (do {
        x \<leftarrow> finalizeBucketClaim r c;
        case x of
          None \<Rightarrow> do {
            u \<leftarrow> in_world (k_UpdateClaim ?k ?c);
            case u of Inl err \<Rightarrow> do { _ \<leftarrow> count_failure ''remove_finalizer''; ret (Failed err) } | Inr _ \<Rightarrow> ?done }
        | Some err \<Rightarrow> do { _ \<leftarrow> count_failure ''finalize''; ret (Failed err) } }) (done_or_faulted I F D f)"
      by (rule triple_call_option [OF triple_pre [OF finalize_tolerated [OF k r c]] update to_be_run_again]) simp
  next
    assume "\<not> k_ContainsFinalizer ?k (meta_Finalizers (claim_Meta c)) bucketClaimFinalizer"
    then have "claim_released ?k c" by (simp add: claim_released_def)
    then show "triple (of_world (\<lambda>w. within I F f w \<and> (claim_released ?k c \<longrightarrow> D w))) ?done (done_or_faulted I F D f)"
      using finish by simp
  qed
qed

lemma leaving_body:
  fixes r :: "('c, 'h, 'w) claim_reconciler"
  assumes k: "cluster_releases (cr_kube r) I F C D c0 cls" and r: "resolver_releases r I F C c0 cls"
  shows "triple (of_world (within I F f)) (reconcile_body r (claim_Namespace c0) (claim_Name c0)) (\<lambda>y. done_or_faulted I F D f (snd y))"
proof -
  let ?k = "cr_kube r"
  let ?Q = "\<lambda>(y :: string \<times> ctrl_result) (s :: ('h, 'w) op_state). done_or_faulted I F D f (snd y) s"
  let ?live = "\<lambda>c. do {
      g \<leftarrow> ensure_claim_finalizer ?k c;
      case g of
        Inl err \<Rightarrow> ret (''unknown'', Failed err)
      | Inr c' \<Rightarrow> if already_bound c' then ret (''unknown'', Done) else do {
          x \<leftarrow> in_world (k_GetClass ?k (spec_BucketClassName (claim_Spec c')));
          case x of
            Inl err \<Rightarrow> do { x \<leftarrow> class_lookup_failed ?k (claim_Namespace c0) (claim_Name c0) c' err; ret (''unknown'', x) }
          | Inr cls \<Rightarrow> do { x \<leftarrow> reconcile_with_class r (claim_Namespace c0) (claim_Name c0) c' cls; ret (class_Name cls, x) } } }"
  have labelled: "triple P m (done_or_faulted I F D f) \<Longrightarrow> triple P (do { x \<leftarrow> m; ret (l, x) }) ?Q" for P m l
    by (erule triple_bind, rule triple_ret) simp
  have found: "triple (\<lambda>s. within I F f (st_world s) \<and> leaving_claim c0 c \<and> (claim_released ?k c \<longrightarrow> D (st_world s)))
      (if meta_DeletionTimestamp (claim_Meta c) \<noteq> None
       then do { x \<leftarrow> reconcile_deleted r c; ret (''unknown'', x) } else ?live c) ?Q" for c
  proof (cases "leaving_claim c0 c")
    case True
    then have "meta_DeletionTimestamp (claim_Meta c) \<noteq> None" by (simp add: leaving_claim_def)
    with labelled [OF deleted_tolerated [OF k r True]] True show ?thesis by simp
  qed (simp add: triple_def)
  have gone: "triple (\<lambda>s. if is_not_found e then within I F f (st_world s) \<and> D (st_world s) else faulted I F f (st_world s))
      (do { x \<leftarrow> if is_not_found e then do { _ \<leftarrow> inc_total ''not_found''; ret Done }
               else do { _ \<leftarrow> count_failure ''get_claim''; ret (Failed e) }; ret (''unknown'', x) }) ?Q" for e
  proof (rule labelled, rule triple_not_found)
    assume e: "is_not_found e"
    have "triple (of_world (\<lambda>w. within I F f w \<and> D w)) (do { _ \<leftarrow> inc_total ''not_found''; ret Done }) (done_or_faulted I F D f)"
      by (rule triple_bind [OF triple_inc(2)], rule triple_ret) (simp add: done_or_faulted_def)
    with e show "triple (of_world (\<lambda>w. within I F f w \<and> D w)) (if is_not_found e then do { _ \<leftarrow> inc_total ''not_found''; ret Done }
        else do { _ \<leftarrow> count_failure ''get_claim''; ret (Failed e) }) (done_or_faulted I F D f)" by simp
  next
    assume "\<not> is_not_found e"
    with to_be_run_again show "triple (of_world (faulted I F f)) (if is_not_found e then do { _ \<leftarrow> inc_total ''not_found''; ret Done }
        else do { _ \<leftarrow> count_failure ''get_claim''; ret (Failed e) }) (done_or_faulted I F D f)" by simp
  qed
  show ?thesis
    unfolding reconcile_body_def Let_def
    by (rule triple_call [OF lookup_inside [OF cluster_releasesD(1) [OF k]] found gone])
qed

text \<open>C6. Deletion comes to an end. Where the API server and the backend carry out what the finalizer asks of them,
  or use up one of the \<open>F\<close> faults to come, running \<^verbatim>\<open>Reconcile\<close> for a claim that is being deleted as often as it
  asks to ends after at most \<open>F + 1\<close> runs with the claim let go (\<open>D\<close>): it is gone, or stored without the operator's
  finalizer. That update is made only once nothing is left to clean up (\<open>C\<close>): where the class asks for \<^verbatim>\<open>Delete\<close>, after
  the bucket was deleted. A missing class or a revocation that fails do not hold the claim back.\<close>

theorem claim_deletion_ends:
  fixes r :: "('c, 'h, 'w) claim_reconciler" and s :: "('h, 'w) op_state"
  assumes "cluster_releases (cr_kube r) I F C D c0 cls" and "resolver_releases r I F C c0 cls"
    and "\<And>i w. I w \<Longrightarrow> I (env i w) \<and> F (env i w) \<le> F w" and "I (st_world s)"
  shows "\<exists>i s'. until_done env (Reconcile r (claim_Namespace c0) (claim_Name c0)) s = Some (i, Done, s') \<and> i \<le> F (st_world s) + 1 \<and>
    I (st_world s') \<and> D (st_world s')"
proof (rule until_done_ends [OF _ assms(3,4)])
  fix s :: "('h, 'w) op_state" and f
  assume s: "I (st_world s)" "F (st_world s) \<le> f"
  obtain y s1 where run: "run_state (reconcile_body r (claim_Namespace c0) (claim_Name c0)) s = (y, s1)" by fastforce
  from s have "within I F f (st_world s)" by (simp add: within_def)
  from tripleD [OF leaving_body [OF assms(1,2)] this run] run
  show "done_or_faulted I F D f (result_of (Reconcile r (claim_Namespace c0) (claim_Name c0)) s) (world_after (Reconcile r (claim_Namespace c0) (claim_Name c0)) s)"
    by (cases y) (simp add: Reconcile_run done_or_faulted_def)
qed

text \<open>The example: a class with the policy \<^verbatim>\<open>Delete\<close>, a claim with its bucket, and conflicts of its updates.\<close>

definition leaving_example :: BucketClaim where
  "leaving_example = example_claim\<lparr>claim_Meta := (claim_Meta example_claim)\<lparr>meta_DeletionTimestamp := Some 1,
     meta_Finalizers := [bucketClaimFinalizer]\<rparr>\<rparr>"

definition delete_class :: BucketClass where
  "delete_class = example_class\<lparr>class_DeletionPolicy := DeletionPolicyDelete\<rparr>"

definition leaving_kube :: "mem_cluster kube" where
  "leaving_kube = mem_kube\<lparr>k_UpdateClaim := flaky_put\<rparr>"

definition leaving_reconciler :: "(unit, unit, mem_cluster) claim_reconciler" where
  "leaving_reconciler = example_reconciler\<lparr>cr_kube := leaving_kube\<rparr>"

definition bucket_gone :: "mem_cluster \<Rightarrow> bool" where
  "bucket_gone w \<longleftrightarrow> ''ns1-c1'' \<notin> set (mem_buckets (mc_minio w))"

definition example_let_go :: "mem_cluster \<Rightarrow> bool" where
  "example_let_go w \<longleftrightarrow> bucket_gone w \<and>
     (\<forall>c. map_of (mc_claims w) (''ns1'', ''c1'') = Some c \<longrightarrow> claim_released leaving_kube c)"

definition example_leaving :: "mem_cluster \<Rightarrow> bool" where
  "example_leaving w \<longleftrightarrow> map_of (mc_classes w) ''bc'' = Some delete_class \<and>
     (\<exists>c. map_of (mc_claims w) (''ns1'', ''c1'') = Some c \<and> leaving_claim leaving_example c \<and>
        (claim_released leaving_kube c \<longrightarrow> bucket_gone w))"

definition leaving_cluster :: "nat \<Rightarrow> mem_cluster" where
  "leaving_cluster conflicts = empty_cluster\<lparr>mc_claims := [((''ns1'', ''c1''), leaving_example)],
     mc_classes := [(''bc'', delete_class)], mc_minio := mem_empty\<lparr>mem_buckets := [''ns1-c1'']\<rparr>,
     mc_conflicts := conflicts\<rparr>"

lemma leaving_example_fields:
  "claim_Namespace leaving_example = ''ns1''" "claim_Name leaving_example = ''c1''"
  "spec_BucketClassName (claim_Spec leaving_example) = ''bc''"
  "finalizer_bucket_name leaving_example = ''ns1-c1''" "leaving_claim leaving_example leaving_example"
  by (simp_all add: leaving_example_def leaving_claim_def finalizer_bucket_name_def example_claim_def
      named_claim_def zero_claim_def zero_meta_def)

lemma leaving_cluster_releases:
  "cluster_releases leaving_kube example_leaving mc_conflicts bucket_gone example_let_go leaving_example delete_class"
proof -
  let ?k = leaving_kube
  have get: "lookup example_leaving mc_conflicts (found mc_claims (''ns1'', ''c1'')) example_let_go
      (\<lambda>c w. leaving_claim leaving_example c \<and> (claim_released ?k c \<longrightarrow> example_let_go w))"
    by (auto simp: lookup_def triple_def run_found within_def example_leaving_def example_let_go_def)
  have put: "attempt example_leaving mc_conflicts bucket_gone (flaky_put c) (\<lambda>_. example_let_go) any"
    if "leaving_claim leaving_example c" "claim_released ?k c" for c
    using that by (auto simp: attempt_def triple_def flaky_put_def put_claim_def within_def faulted_def claim_key_def
        example_leaving_def example_let_go_def leaving_claim_def leaving_example_fields bucket_gone_def update_conv')
  have fin: "\<not> k_ContainsFinalizer ?k (k_RemoveFinalizer ?k fs bucketClaimFinalizer) bucketClaimFinalizer" for fs
    by (simp add: leaving_kube_def mem_kube_def)
  have cls: "lookup example_leaving mc_conflicts (found mc_classes ''bc'') bucket_gone (\<lambda>c _. c = delete_class)"
    by (auto simp: lookup_def triple_def run_found within_def example_leaving_def)
  have secret: "keeps J (found g key) any" for J and g :: "mem_cluster \<Rightarrow> ('k \<times> 'v) list" and key
    by (simp add: keeps_def run_found)
  have calls: "k_GetClaim ?k = (\<lambda>ns n. found mc_claims (ns, n))" "k_GetClass ?k = found mc_classes"
    "k_GetSecret ?k = (\<lambda>ns n. found mc_secrets (ns, n))" "k_UpdateClaim ?k = flaky_put"
    by (simp_all add: leaving_kube_def mem_kube_def)
  show ?thesis
    unfolding cluster_releases_def leaving_example_fields calls
    by (intro conjI allI impI get put fin cls secret; elim conjE; assumption)
qed

lemma leaving_resolver_releases:
  "resolver_releases leaving_reconciler example_leaving mc_conflicts bucket_gone leaving_example delete_class"
proof -
  let ?p = "minio_provider cluster_minio mem_client"
  have kind: "KindForBucketClass (Some delete_class) = Inr KindMinIO" by code_simp
  have resolved: "run_state (ProviderForClass (Some example_deps) (Some delete_class)) s = (Inr ?p, s)" for s
    by (simp add: ProviderForClass_def kind minioProviderForClass_def)
      (simp add: delete_class_def example_class_def zero_class_def default_minio_def example_deps_def)
  have still: "example_leaving (w\<lparr>mc_minio := m\<rparr>)" if "example_leaving w" "set (mem_buckets m) \<subseteq> set (mem_buckets (mc_minio w))" for w m
    using that by (auto simp: example_leaving_def bucket_gone_def)
  have policy: "class_DeletionPolicy delete_class = DeletionPolicyDelete" by (simp add: delete_class_def)
  have revoke: "triple (within example_leaving mc_conflicts f) (RevokeAccess ?p b a key)
      (\<lambda>_ w. within example_leaving mc_conflicts f w \<and> (class_DeletionPolicy delete_class = DeletionPolicyDelete \<or> bucket_gone w))"
    for b a key f
    by (simp add: policy triple_def minio_provider_def minio_RevokeAccess_def cluster_minio_def mem_sdk_def run_simps
        within_def Let_def still)
  have delete: "triple (within example_leaving mc_conflicts f) (DeleteBucket ?p ''ns1-c1'')
      (\<lambda>x w. case x of Some e \<Rightarrow> faulted example_leaving mc_conflicts f w
         | None \<Rightarrow> within example_leaving mc_conflicts f w \<and> bucket_gone w)" for f
    by (auto simp: triple_def minio_provider_def minio_DeleteBucket_def cluster_minio_def mem_sdk_def run_simps
        within_def intro!: still) (simp_all add: bucket_gone_def)
  have "backend_releases ?p example_leaving mc_conflicts bucket_gone leaving_example delete_class"
    using revoke delete by (simp add: backend_releases_def leaving_example_fields)
  with resolved show ?thesis
    by (simp add: resolver_releases_def triple_def leaving_reconciler_def example_reconciler_def)
qed

theorem claim_deletion_ends_witness:
  "\<exists>i s'. until_done (\<lambda>_ w. w) (Reconcile leaving_reconciler ''ns1'' ''c1'') (start_state (leaving_cluster 3)) =
       Some (i, Done, s') \<and> i \<le> 4 \<and> example_let_go (st_world s')"
proof -
  have k: "cr_kube leaving_reconciler = leaving_kube" by (simp add: leaving_reconciler_def)
  have "\<not> claim_released leaving_kube leaving_example"
    by (simp add: claim_released_def leaving_kube_def mem_kube_def leaving_example_def)
  then have "example_leaving (st_world (start_state (leaving_cluster 3)))"
    by (simp add: example_leaving_def start_world leaving_cluster_def leaving_example_fields)
  from claim_deletion_ends [OF leaving_cluster_releases [folded k] leaving_resolver_releases _ this, of "\<lambda>_ w. w"]
  show ?thesis by (auto simp: leaving_example_fields start_world leaving_cluster_def)
qed

end
