(* ===== verification/Access_Completion.thy ===== *)
theory Access_Completion
  imports Completion Bucketaccess_Controller
begin

text \<open>
  Completion of BucketAccess objects: where only finitely many calls fail, one whose claim is ready is granted and
  one that is being deleted is let go, each after at most one run more than there are faults to come.
\<close>

section \<open>A BucketAccess that is to be granted\<close>

definition access_named :: "string \<Rightarrow> string \<Rightarrow> Unstructured \<Rightarrow> bool" where
  "access_named ns n ba \<longleftrightarrow> u_Kind ba = ''BucketAccess'' \<and> meta_Namespace (u_Meta ba) = ns \<and> meta_Name (u_Meta ba) = n"

definition wanting_access :: "string \<Rightarrow> string \<Rightarrow> string \<Rightarrow> string \<Rightarrow> Unstructured \<Rightarrow> bool" where
  "wanting_access ns n cn sn ba \<longleftrightarrow> access_named ns n ba \<and> asks_for ba cn sn \<and> meta_DeletionTimestamp (u_Meta ba) = None"

definition access_granted :: "Unstructured \<Rightarrow> bool" where
  "access_granted ba \<longleftrightarrow> json_true (map_of (json_map (map_of (u_Object ba) ''status'')) ''accessGranted'')"

definition claim_ready :: "string \<Rightarrow> BucketClaim \<Rightarrow> bool" where
  "claim_ready bc c \<longleftrightarrow> status_BucketReady (claim_Status c) \<and> trim_space (status_BucketName (claim_Status c)) \<noteq> '''' \<and>
     spec_BucketClassName (claim_Spec c) = bc"

text \<open>
  The API server has the object, its claim, which is ready, and the class of the claim, and accepts what the
  controller writes; \<open>G\<close> says that the stored object is granted.
\<close>

definition cluster_grants ::
  "'w kube \<Rightarrow> ('w \<Rightarrow> bool) \<Rightarrow> ('w \<Rightarrow> nat) \<Rightarrow> ('w \<Rightarrow> bool) \<Rightarrow> string \<Rightarrow> string \<Rightarrow> string \<Rightarrow> string \<Rightarrow> string \<Rightarrow>
     BucketClass \<Rightarrow> bool" where
  "cluster_grants k I F G ns n cn sn bc cls \<longleftrightarrow>
     attempt I F any (k_GetUnstructured k ''BucketAccess'' ns n)
       (\<lambda>u w. wanting_access ns n cn sn u \<and> (access_granted u \<longrightarrow> G w)) (\<lambda>e. \<not> is_not_found e) \<and>
     (\<forall>u. wanting_access ns n cn sn u \<longrightarrow> attempt I F (\<lambda>w. access_granted u \<longrightarrow> G w) (k_UpdateUnstructured k u)
        (\<lambda>u' w. wanting_access ns n cn sn u' \<and> (access_granted u \<longrightarrow> G w)) any) \<and>
     (\<forall>u f. wanting_access ns n cn sn u \<and> access_granted u \<longrightarrow> triple (within I F f) (k_UpdateUnstructuredStatus k u)
        (\<lambda>x w. case x of Some e \<Rightarrow> faulted I F f w | None \<Rightarrow> within I F f w \<and> G w)) \<and>
     attempt I F any (k_GetClaim k ns cn) (\<lambda>c _. claim_ready bc c) any \<and>
     attempt I F any (k_GetClass k bc) (\<lambda>c _. c = cls) any \<and>
     lookup I F (k_GetSecret k ns sn) any (\<lambda>_ _. True) \<and>
     (\<forall>s. attempt_step I F any (k_CreateSecret k s)) \<and> (\<forall>s. attempt_step I F any (k_UpdateSecret k s))"

lemma cluster_grantsD:
  assumes "cluster_grants k I F G ns n cn sn bc cls"
  shows "attempt I F any (k_GetUnstructured k ''BucketAccess'' ns n)
       (\<lambda>u w. wanting_access ns n cn sn u \<and> (access_granted u \<longrightarrow> G w)) (\<lambda>e. \<not> is_not_found e)"
    "wanting_access ns n cn sn u \<Longrightarrow> attempt I F (\<lambda>w. access_granted u \<longrightarrow> G w) (k_UpdateUnstructured k u)
        (\<lambda>u' w. wanting_access ns n cn sn u' \<and> (access_granted u \<longrightarrow> G w)) any"
    "wanting_access ns n cn sn u \<Longrightarrow> access_granted u \<Longrightarrow> triple (within I F f) (k_UpdateUnstructuredStatus k u)
        (\<lambda>x w. case x of Some e \<Rightarrow> faulted I F f w | None \<Rightarrow> within I F f w \<and> G w)"
    "attempt I F any (k_GetClaim k ns cn) (\<lambda>c _. claim_ready bc c) any"
    "attempt I F any (k_GetClass k bc) (\<lambda>c _. c = cls) any"
    "lookup I F (k_GetSecret k ns sn) any (\<lambda>_ _. True)"
    "attempt_step I F any (k_CreateSecret k s)" "attempt_step I F any (k_UpdateSecret k s)"
  using assms by (simp_all add: cluster_grants_def)

definition access_resolver ::
  "('c, 'h, 'w) access_reconciler \<Rightarrow> ('w \<Rightarrow> bool) \<Rightarrow> ('w \<Rightarrow> nat) \<Rightarrow> BucketClass \<Rightarrow> ('w Provider \<Rightarrow> bool) \<Rightarrow> bool" where
  "access_resolver r I F cls P \<longleftrightarrow> (\<forall>f.
     triple (of_world (within I F f)) (ProviderForClass (ar_resolver r) (Some cls))
       (\<lambda>x s. case x of Inl e \<Rightarrow> faulted I F f (st_world s) | Inr p \<Rightarrow> within I F f (st_world s) \<and> P p))"

definition backend_grants :: "('w \<Rightarrow> bool) \<Rightarrow> ('w \<Rightarrow> nat) \<Rightarrow> 'w Provider \<Rightarrow> bool" where
  "backend_grants I F p \<longleftrightarrow>
     (\<forall>b a. attempt I F any (GrantAccess p b a AccessTypeReadWrite '''' '''') (\<lambda>_ _. True) any)"

text \<open>The provider of the class, for a grant and for a revocation.\<close>

lemma provider_tolerated:
  assumes cls: "attempt I F any (k_GetClass (ar_kube r) bc) (\<lambda>c _. c = cls) any" and r: "access_resolver r I F cls P"
    and c: "spec_BucketClassName (claim_Spec c) = bc"
  shows "triple (of_world (within I F f)) (providerForClaim r c)
    (\<lambda>x s. case x of Inl e \<Rightarrow> faulted I F f (st_world s) | Inr p \<Rightarrow> within I F f (st_world s) \<and> P p)"
proof -
  have found: "triple (\<lambda>s. within I F f (st_world s) \<and> cls' = cls) (ProviderForClass (ar_resolver r) (Some cls'))
      (\<lambda>x s. case x of Inl e \<Rightarrow> faulted I F f (st_world s) | Inr p \<Rightarrow> within I F f (st_world s) \<and> P p)" for cls'
    by (rule triple_fact_after) (use r in \<open>simp add: access_resolver_def\<close>)
  show ?thesis
    unfolding providerForClaim_def c val_or_err_def
    by (rule triple_call [OF triple_in_world [OF attempt_anyD [OF cls]] found], rule triple_ret) simp
qed

lemma access_secret_tolerated:
  assumes k: "cluster_grants k I F G ns n cn sn bc cls"
  shows "triple (of_world (within I F f)) (write_access_secret k ns sn raw)
    (\<lambda>x s. case x of Some e \<Rightarrow> faulted I F f (st_world s) | None \<Rightarrow> within I F f (st_world s))"
proof -
  let ?Q = "\<lambda>x s. case x of Some (e :: go_error) \<Rightarrow> faulted I F f (st_world s) | None \<Rightarrow> within I F f (st_world s)"
  note steps = triple_in_world [OF attempt_step_anyD [OF cluster_grantsD(7) [OF k]]]
    triple_in_world [OF attempt_step_anyD [OF cluster_grantsD(8) [OF k]]]
  have missing: "triple (\<lambda>s. if is_not_found e then within I F f (st_world s) \<and> True else faulted I F f (st_world s))
      (if is_not_found e then in_world (k_CreateSecret k s') else ret (Some e)) ?Q" for e s'
    by (cases "is_not_found e") (use steps(1) in \<open>simp_all add: triple_ret\<close>)
  show ?thesis
    unfolding write_access_secret_def
    by (rule triple_call [OF lookup_inside [OF cluster_grantsD(6) [OF k]] _ missing], rule triple_pre [OF steps(2)]) simp
qed

lemma granted_fields:
  "access_granted (granted_access a ba)" "wanting_access ns n cn sn (granted_access a ba) = wanting_access ns n cn sn ba"
  by (simp_all add: access_granted_def granted_access_def granted_status_def update_conv' wanting_access_def access_named_def asks_for_def)

lemma grant_tolerated:
  assumes k: "cluster_grants (ar_kube r) I F G ns n cn sn bc cls" and p: "backend_grants I F p"
    and ba: "wanting_access ns n cn sn ba"
  shows "triple (of_world (within I F f)) (grant_credentials r ns sn a b ba p) (done_or_faulted I F G f)"
proof -
  let ?k = "ar_kube r"
  have grant: "triple (of_world (within I F f)) (in_world (GrantAccess p b a AccessTypeReadWrite '''' ''''))
      (\<lambda>x s. case x of Inl e \<Rightarrow> faulted I F f (st_world s) | Inr m \<Rightarrow> within I F f (st_world s) \<and> True)"
    using p by (intro triple_in_world attempt_anyD) (simp add: backend_grants_def)
  note status = triple_in_world [OF cluster_grantsD(3) [OF k _ granted_fields(1)]]
  have written: "triple (of_world (within I F f)) (if_err (in_world (k_UpdateUnstructuredStatus ?k (granted_access a ba)))
      Failed (ret Done)) (done_or_faulted I F G f)"
    unfolding if_err_def
    by (rule triple_call_option [OF status triple_done triple_retry]) (simp_all add: granted_fields ba)
  have stored: "triple (\<lambda>s. within I F f (st_world s) \<and> True) (if_err (write_access_secret ?k ns sn raw) Failed
      (if_err (in_world (k_UpdateUnstructuredStatus ?k (granted_access a ba))) Failed (ret Done))) (done_or_faulted I F G f)" for raw
    unfolding if_err_def [of "write_access_secret _ _ _ _"]
    by (rule triple_call_option [OF triple_pre [OF access_secret_tolerated [OF k]] written triple_retry]) simp_all
  show ?thesis
    unfolding grant_credentials_def Let_def granted_access_def [symmetric]
    by (rule triple_call [OF grant stored triple_retry]) simp
qed

lemma grant_access_tolerated:
  assumes k: "cluster_grants (ar_kube r) I F G ns n cn sn bc cls" and r: "access_resolver r I F cls (backend_grants I F)"
    and ba: "wanting_access ns n cn sn ba"
  shows "triple (of_world (within I F f)) (grant_access r ns cn sn a ba) (done_or_faulted I F G f)"
proof -
  let ?grant = "\<lambda>c. do {
      p \<leftarrow> providerForClaim r c;
      case p of
        Inl err \<Rightarrow> ret (if backend_unavailable err then RequeueAfter 15
                      else if is_not_found err then RequeueAfter 5 else Failed err)
      | Inr provider \<Rightarrow>
          grant_credentials r ns sn a (to_lower (trim_space (status_BucketName (claim_Status c)))) ba provider }"
  have provided: "triple (\<lambda>s. within I F f (st_world s) \<and> backend_grants I F p) (grant_credentials r ns sn a b ba p)
      (done_or_faulted I F G f)" for b p
    by (rule triple_fact_after, rule grant_tolerated [OF k _ ba])
  have found: "triple (\<lambda>s. within I F f (st_world s) \<and> claim_ready bc c)
      (if \<not> status_BucketReady (claim_Status c) \<or> trim_space (status_BucketName (claim_Status c)) = ''''
       then ret (RequeueAfter 3) else ?grant c) (done_or_faulted I F G f)" for c
  proof (rule triple_fact_after)
    assume "claim_ready bc c"
    then have c: "status_BucketReady (claim_Status c)" "trim_space (status_BucketName (claim_Status c)) \<noteq> ''''"
      "spec_BucketClassName (claim_Spec c) = bc" by (simp_all add: claim_ready_def)
    have "triple (of_world (within I F f)) (?grant c) (done_or_faulted I F G f)"
      by (rule triple_call [OF provider_tolerated [OF cluster_grantsD(5) [OF k] r c(3)] provided triple_retry]) simp
    with c(1,2) show "triple (of_world (within I F f)) (if \<not> status_BucketReady (claim_Status c) \<or>
        trim_space (status_BucketName (claim_Status c)) = '''' then ret (RequeueAfter 3) else ?grant c) (done_or_faulted I F G f)"
      by simp
  qed
  show ?thesis
    unfolding grant_access_def Let_def
    by (rule triple_call [OF triple_in_world [OF attempt_anyD [OF cluster_grantsD(4) [OF k]]] found triple_retry]) simp
qed

lemma access_finalizer_tolerated:
  assumes k: "cluster_grants k I F G ns n cn sn bc cls" and ba: "wanting_access ns n cn sn ba"
  shows "triple (of_world (\<lambda>w. within I F f w \<and> (access_granted ba \<longrightarrow> G w))) (ensure_access_finalizer k ba)
    (\<lambda>x s. case x of Inl e \<Rightarrow> faulted I F f (st_world s)
     | Inr u \<Rightarrow> within I F f (st_world s) \<and> wanting_access ns n cn sn u \<and> (access_granted ba \<longrightarrow> G (st_world s)))"
proof -
  let ?u = "ba\<lparr>u_Meta := (u_Meta ba)\<lparr>meta_Finalizers :=
      k_AddFinalizer k (meta_Finalizers (u_Meta ba)) bucketAccessFinalizer\<rparr>\<rparr>"
  have u: "wanting_access ns n cn sn ?u" "access_granted ?u = access_granted ba"
    using ba by (simp_all add: wanting_access_def access_named_def asks_for_def access_granted_def)
  show ?thesis
    unfolding ensure_access_finalizer_def
    by (rule triple_if, rule triple_ret, simp add: ba)
      (rule triple_conseq [OF attempt_inside [OF cluster_grantsD(2) [OF k u(1)], unfolded u(2)]], auto split: sum.splits)
qed

text \<open>What the controller does with the object it has read.\<close>

definition access_step ::
  "('c, 'h, 'w) access_reconciler \<Rightarrow> string \<Rightarrow> string \<Rightarrow> Unstructured \<Rightarrow> (('h, 'w) op_state, ctrl_result) state" where
  "access_step r ns n ba =
     (let spec = json_map (map_of (u_Object ba) ''spec'');
          status = json_map (map_of (u_Object ba) ''status'');
          bucketClaimName = json_str (map_of spec ''bucketClaimName'');
          credentialsSecretName = json_str (map_of spec ''credentialsSecretName'');
          accountID = access_account_id ns n
      in if bucketClaimName = '''' \<or> credentialsSecretName = '''' then ret Done
         else if meta_DeletionTimestamp (u_Meta ba) \<noteq> None
         then delete_access r ns bucketClaimName credentialsSecretName accountID ba
         else val_or_err (ensure_access_finalizer (ar_kube r) ba) Failed
           (\<lambda>ba'. if json_true (map_of status ''accessGranted'') then ret Done
                  else grant_access r ns bucketClaimName credentialsSecretName accountID ba'))"

lemma access_Reconcile_step:
  "access_Reconcile r ns n = do {
     g \<leftarrow> in_world (k_GetUnstructured (ar_kube r) ''BucketAccess'' ns n);
     case g of Inl err \<Rightarrow> ret (if is_not_found err then Done else Failed err) | Inr ba \<Rightarrow> access_step r ns n ba }"
  unfolding access_Reconcile_def access_step_def Let_def ..

lemma access_step_grants:
  "wanting_access ns n cn sn ba \<Longrightarrow> access_step r ns n ba =
     val_or_err (ensure_access_finalizer (ar_kube r) ba) Failed
       (\<lambda>ba'. if access_granted ba then ret Done else grant_access r ns cn sn (access_account_id ns n) ba')"
  by (auto simp: access_step_def wanting_access_def access_named_def asks_for_def access_granted_def Let_def)

lemma access_run_tolerated:
  assumes k: "cluster_grants (ar_kube r) I F G ns n cn sn bc cls" and r: "access_resolver r I F cls (backend_grants I F)"
  shows "triple (of_world (within I F f)) (access_Reconcile r ns n) (done_or_faulted I F G f)"
proof -
  have after: "triple (\<lambda>s. within I F f (st_world s) \<and> wanting_access ns n cn sn u \<and> (access_granted ba \<longrightarrow> G (st_world s)))
      (if access_granted ba then ret Done else grant_access r ns cn sn (access_account_id ns n) u) (done_or_faulted I F G f)"
    for u ba
  proof (cases "access_granted ba")
    case True
    show ?thesis by (simp add: True) (rule triple_pre [OF triple_done], simp)
  next
    case False
    show ?thesis by (simp add: False) (rule triple_fact_after, rule grant_access_tolerated [OF k r])
  qed
  have found: "triple (\<lambda>s. within I F f (st_world s) \<and> wanting_access ns n cn sn ba \<and> (access_granted ba \<longrightarrow> G (st_world s)))
      (access_step r ns n ba) (done_or_faulted I F G f)" for ba
  proof (cases "wanting_access ns n cn sn ba")
    case True
    have "triple (of_world (\<lambda>w. within I F f w \<and> (access_granted ba \<longrightarrow> G w))) (access_step r ns n ba) (done_or_faulted I F G f)"
      unfolding access_step_grants [OF True] val_or_err_def
      by (rule triple_call [OF access_finalizer_tolerated [OF k True] after triple_retry]) simp
    with True show ?thesis by simp
  qed (simp add: triple_def)
  have missing: "triple (\<lambda>s. faulted I F f (st_world s) \<and> \<not> is_not_found e)
      (ret (if is_not_found e then Done else Failed e)) (done_or_faulted I F G f)" for e
    by (rule triple_ret) (simp add: done_or_faulted_def)
  show ?thesis
    unfolding access_Reconcile_step
    by (rule triple_call [OF triple_pre [OF attempt_inside [OF cluster_grantsD(1) [OF k]]] found missing]) simp
qed

section \<open>A BucketAccess that is being deleted\<close>

definition leaving_access :: "string \<Rightarrow> string \<Rightarrow> string \<Rightarrow> string \<Rightarrow> Unstructured \<Rightarrow> bool" where
  "leaving_access ns n cn sn ba \<longleftrightarrow> access_named ns n ba \<and> asks_for ba cn sn \<and> meta_DeletionTimestamp (u_Meta ba) \<noteq> None"

definition access_released :: "'w kube \<Rightarrow> Unstructured \<Rightarrow> bool" where
  "access_released k ba \<longleftrightarrow> \<not> k_ContainsFinalizer k (meta_Finalizers (u_Meta ba)) bucketAccessFinalizer"

text \<open>
  The claim may be gone, but not its class while it is there. \<open>D\<close> says that the object is gone or stored without
  the controller's finalizer.
\<close>

definition cluster_lets_go ::
  "'w kube \<Rightarrow> ('w \<Rightarrow> bool) \<Rightarrow> ('w \<Rightarrow> nat) \<Rightarrow> ('w \<Rightarrow> bool) \<Rightarrow> string \<Rightarrow> string \<Rightarrow> string \<Rightarrow> string \<Rightarrow> string \<Rightarrow>
     BucketClass \<Rightarrow> bool" where
  "cluster_lets_go k I F D ns n cn sn bc cls \<longleftrightarrow>
     lookup I F (k_GetUnstructured k ''BucketAccess'' ns n) D
       (\<lambda>u w. leaving_access ns n cn sn u \<and> (access_released k u \<longrightarrow> D w)) \<and>
     (\<forall>u. leaving_access ns n cn sn u \<and> access_released k u \<longrightarrow> attempt I F any (k_UpdateUnstructured k u) (\<lambda>_. D) any) \<and>
     (\<forall>fs. \<not> k_ContainsFinalizer k (k_RemoveFinalizer k fs bucketAccessFinalizer) bucketAccessFinalizer) \<and>
     lookup I F (k_GetClaim k ns cn) any (\<lambda>c _. spec_BucketClassName (claim_Spec c) = bc) \<and>
     attempt I F any (k_GetClass k bc) (\<lambda>c _. c = cls) any \<and>
     (\<forall>f. keeps (within I F f) (k_GetSecret k ns sn) any) \<and> (\<forall>f. keeps (within I F f) (k_DeleteSecret k ns sn) any)"

lemma cluster_lets_goD:
  assumes "cluster_lets_go k I F D ns n cn sn bc cls"
  shows "lookup I F (k_GetUnstructured k ''BucketAccess'' ns n) D
       (\<lambda>u w. leaving_access ns n cn sn u \<and> (access_released k u \<longrightarrow> D w))"
    "leaving_access ns n cn sn u \<Longrightarrow> access_released k u \<Longrightarrow> attempt I F any (k_UpdateUnstructured k u) (\<lambda>_. D) any"
    "\<not> k_ContainsFinalizer k (k_RemoveFinalizer k fs bucketAccessFinalizer) bucketAccessFinalizer"
    "lookup I F (k_GetClaim k ns cn) any (\<lambda>c _. spec_BucketClassName (claim_Spec c) = bc)"
    "attempt I F any (k_GetClass k bc) (\<lambda>c _. c = cls) any"
    "keeps (within I F f) (k_GetSecret k ns sn) any" "keeps (within I F f) (k_DeleteSecret k ns sn) any"
  using assms by (simp_all add: cluster_lets_go_def)

definition backend_revokes :: "('w \<Rightarrow> bool) \<Rightarrow> ('w \<Rightarrow> nat) \<Rightarrow> 'w Provider \<Rightarrow> bool" where
  "backend_revokes I F p \<longleftrightarrow> (\<forall>b a key. attempt_step I F any (RevokeAccess p b a key))"

lemma access_step_deletes:
  "leaving_access ns n cn sn ba \<Longrightarrow> access_step r ns n ba = delete_access r ns cn sn (access_account_id ns n) ba"
  by (auto simp: access_step_def leaving_access_def access_named_def asks_for_def Let_def)

lemma release_tolerated:
  assumes k: "cluster_lets_go k I F D ns n cn sn bc cls" and ba: "leaving_access ns n cn sn ba"
  shows "triple (of_world (within I F f)) (release_access k ba) (done_or_faulted I F D f)"
proof -
  let ?u = "ba\<lparr>u_Meta := (u_Meta ba)\<lparr>meta_Finalizers :=
      k_RemoveFinalizer k (meta_Finalizers (u_Meta ba)) bucketAccessFinalizer\<rparr>\<rparr>"
  have u: "leaving_access ns n cn sn ?u" "access_released k ?u"
    using ba cluster_lets_goD(3) [OF k] by (simp_all add: leaving_access_def access_named_def asks_for_def access_released_def)
  show ?thesis
    unfolding release_access_def val_or_err_def
    by (rule triple_call [OF triple_in_world [OF attempt_anyD [OF cluster_lets_goD(2) [OF k u]]] triple_done triple_retry]) simp
qed

lemma delete_tolerated:
  assumes k: "cluster_lets_go (ar_kube r) I F D ns n cn sn bc cls" and r: "access_resolver r I F cls (backend_revokes I F)"
    and ba: "leaving_access ns n cn sn ba"
  shows "triple (of_world (\<lambda>w. within I F f w \<and> (access_released (ar_kube r) ba \<longrightarrow> D w)))
    (delete_access r ns cn sn a ba) (done_or_faulted I F D f)"
proof -
  let ?k = "ar_kube r"
  let ?revoke = "\<lambda>c key p. do {
      e \<leftarrow> in_world (RevokeAccess p (access_bucket_name c) a key);
      case e of Some _ \<Rightarrow> ret (RequeueAfter 5)
      | None \<Rightarrow> do { _ \<leftarrow> in_world (k_DeleteSecret ?k ns sn); release_access ?k ba } }"
  let ?cleanup = "\<lambda>c. do {
      key \<leftarrow> recorded_access_key ?k ns sn a;
      p \<leftarrow> providerForClaim r c;
      case p of Inl err \<Rightarrow> ret (if backend_unavailable err then RequeueAfter 15 else Failed err)
      | Inr provider \<Rightarrow> ?revoke c key provider }"
  note release = release_tolerated [OF k ba]
  have key: "triple (of_world (within I F f)) (recorded_access_key ?k ns sn a) (\<lambda>_ s. within I F f (st_world s))"
    using cluster_lets_goD(6) [OF k] by (simp add: recorded_access_key_def triple_def keeps_def run_simps Let_def)
  have secret: "triple (of_world (within I F f)) (in_world (k_DeleteSecret ?k ns sn)) (\<lambda>_ s. within I F f (st_world s))"
    using cluster_lets_goD(7) [OF k] by (simp add: triple_def keeps_def run_in_world)
  have revoke: "triple (\<lambda>s. within I F f (st_world s) \<and> backend_revokes I F p) (?revoke c key p) (done_or_faulted I F D f)"
    for c key p
  proof (rule triple_fact_after)
    assume "backend_revokes I F p"
    then have "attempt_step I F any (RevokeAccess p (access_bucket_name c) a key)" by (simp add: backend_revokes_def)
    then show "triple (of_world (within I F f)) (?revoke c key p) (done_or_faulted I F D f)"
      by (rule triple_call_option [OF triple_in_world [OF attempt_step_anyD] triple_bind [OF secret release] triple_retry]) simp
  qed
  have found: "triple (\<lambda>s. within I F f (st_world s) \<and> spec_BucketClassName (claim_Spec c) = bc) (?cleanup c)
      (done_or_faulted I F D f)" for c
    by (rule triple_fact_after, rule triple_bind [OF key])
      (rule triple_call [OF provider_tolerated [OF cluster_lets_goD(5) [OF k] r] revoke triple_retry], simp_all)
  have gone: "triple (\<lambda>s. if is_not_found e then within I F f (st_world s) \<and> True else faulted I F f (st_world s))
      (if is_not_found e then release_access ?k ba else ret (Failed e)) (done_or_faulted I F D f)" for e
    by (cases "is_not_found e") (use release in \<open>simp_all add: triple_retry\<close>)
  have cleaned: "triple (of_world (within I F f)) (do {
      g \<leftarrow> in_world (k_GetClaim ?k ns cn);
      case g of Inl err \<Rightarrow> if is_not_found err then release_access ?k ba else ret (Failed err)
      | Inr claim \<Rightarrow> ?cleanup claim }) (done_or_faulted I F D f)"
    by (rule triple_call [OF lookup_inside [OF cluster_lets_goD(4) [OF k]] found gone])
  show ?thesis
    unfolding delete_access_def Let_def
  proof (rule triple_if)
    assume "\<not> k_ContainsFinalizer ?k (meta_Finalizers (u_Meta ba)) bucketAccessFinalizer"
    then show "triple (of_world (\<lambda>w. within I F f w \<and> (access_released ?k ba \<longrightarrow> D w))) (ret Done) (done_or_faulted I F D f)"
      by (intro triple_pre [OF triple_done]) (simp add: access_released_def)
  qed (rule triple_pre [OF cleaned], simp)
qed

lemma access_deletion_tolerated:
  assumes k: "cluster_lets_go (ar_kube r) I F D ns n cn sn bc cls" and r: "access_resolver r I F cls (backend_revokes I F)"
  shows "triple (of_world (within I F f)) (access_Reconcile r ns n) (done_or_faulted I F D f)"
proof -
  have found: "triple (\<lambda>s. within I F f (st_world s) \<and> leaving_access ns n cn sn ba \<and> (access_released (ar_kube r) ba \<longrightarrow> D (st_world s)))
      (access_step r ns n ba) (done_or_faulted I F D f)" for ba
    using delete_tolerated [OF k r, of ba f]
    by (cases "leaving_access ns n cn sn ba") (simp_all add: access_step_deletes, simp add: triple_def)
  have missing: "triple (\<lambda>s. if is_not_found e then within I F f (st_world s) \<and> D (st_world s) else faulted I F f (st_world s))
      (ret (if is_not_found e then Done else Failed e)) (done_or_faulted I F D f)" for e
    by (rule triple_ret) (simp add: done_or_faulted_def split: if_splits)
  show ?thesis
    unfolding access_Reconcile_step
    by (rule triple_call [OF lookup_inside [OF cluster_lets_goD(1) [OF k]] found missing])
qed

section \<open>Completion of a BucketAccess\<close>

text \<open>C7. No BucketAccess is left half-way. Where the calls the controller makes succeed, or use up one of the \<open>F\<close>
  faults to come, running it for one object as often as it asks to ends after at most \<open>F + 1\<close> runs: for an object
  whose claim is ready with the access granted, and for one that is being deleted with the object let go, that is
  gone or stored without the controller's finalizer. For a deletion the claim may be missing, but as long as it is
  there its class may not.\<close>

theorem access_completes:
  fixes r :: "('c, 'h, 'w) access_reconciler" and s :: "('h, 'w) op_state"
  assumes "\<And>i w. I w \<Longrightarrow> I (env i w) \<and> F (env i w) \<le> F w" and "I (st_world s)"
  shows "(cluster_grants (ar_kube r) I F G ns n cn sn bc cls \<and> access_resolver r I F cls (backend_grants I F) \<longrightarrow>
      (\<exists>i s'. until_done env (access_Reconcile r ns n) s = Some (i, Done, s') \<and> i \<le> F (st_world s) + 1 \<and>
         I (st_world s') \<and> G (st_world s'))) \<and>
    (cluster_lets_go (ar_kube r) I F D ns n cn sn bc cls \<and> access_resolver r I F cls (backend_revokes I F) \<longrightarrow>
      (\<exists>i s'. until_done env (access_Reconcile r ns n) s = Some (i, Done, s') \<and> i \<le> F (st_world s) + 1 \<and>
         I (st_world s') \<and> D (st_world s')))"
proof -
  have ends: "\<exists>i s'. until_done env (access_Reconcile r ns n) s = Some (i, Done, s') \<and> i \<le> F (st_world s) + 1 \<and>
      I (st_world s') \<and> B (st_world s')"
    if run: "\<And>f. triple (of_world (within I F f)) (access_Reconcile r ns n) (done_or_faulted I F B f)" for B
  proof (rule until_done_ends [OF _ assms])
    show "done_or_faulted I F B f (result_of (access_Reconcile r ns n) s) (world_after (access_Reconcile r ns n) s)"
      if "I (st_world s)" "F (st_world s) \<le> f" for s f
      using run [of f] that by (simp add: triple_def within_def)
  qed
  show ?thesis
    by (intro conjI impI ends; elim conjE) (rule access_run_tolerated, assumption+, rule access_deletion_tolerated, assumption+)
qed

text \<open>The example: a cluster in memory where as many writes of objects fail as conflicts are pending.\<close>

definition flaky_object :: "Unstructured \<Rightarrow> (mem_cluster, go_error option) state" where
  "flaky_object u = State (\<lambda>w. if 0 < mc_conflicts w
     then (Some (ErrApi ReasonConflict ''conflict''), w\<lparr>mc_conflicts := mc_conflicts w - 1\<rparr>)
     else (None, put_object u w))"

definition busy_kube :: "mem_cluster kube" where
  "busy_kube = mem_kube\<lparr>k_UpdateUnstructuredStatus := flaky_object,
     k_UpdateUnstructured := (\<lambda>u. val_or_err (State (\<lambda>w. (Inr u, w))) Inl (\<lambda>u. if_err (flaky_object u) Inl (ret (Inr u))))\<rparr>"

definition busy_reconciler :: "(unit, unit, mem_cluster) access_reconciler" where
  "busy_reconciler = example_access_reconciler\<lparr>ar_kube := busy_kube\<rparr>"

definition stored_access :: "mem_cluster \<Rightarrow> Unstructured option" where
  "stored_access w = map_of (mc_objects w) (''BucketAccess'', ''ns1'', ''a1'')"

definition access_world :: "(Unstructured \<Rightarrow> bool) \<Rightarrow> mem_cluster \<Rightarrow> bool" where
  "access_world P w \<longleftrightarrow> (\<exists>u. stored_access w = Some u \<and> P u) \<and>
     map_of (mc_claims w) (''ns1'', ''c1'') = Some example_bound \<and> map_of (mc_classes w) ''bc'' = Some example_class"

lemma access_world_simps [simp]:
  "access_world P (w\<lparr>mc_secrets := x1\<rparr>) = access_world P w"
  "access_world P (w\<lparr>mc_minio := x2\<rparr>) = access_world P w"
  "access_world P (w\<lparr>mc_conflicts := x3\<rparr>) = access_world P w"
  by (simp_all add: access_world_def stored_access_def)

lemma stored_put: "access_named ''ns1'' ''a1'' u \<Longrightarrow> stored_access (put_object u w) = Some u"
  by (simp add: stored_access_def put_object_def access_named_def update_conv')

lemma access_world_put:
  assumes "access_named ''ns1'' ''a1'' u" and "P u" and "access_world P w"
  shows "access_world P (put_object u w)" "mc_conflicts (put_object u w) = mc_conflicts w"
  using assms stored_put [OF assms(1), of w] by (auto simp: access_world_def put_object_def)

lemma busy_calls:
  "k_GetUnstructured busy_kube kind ns n = found mc_objects (kind, ns, n)"
  "k_GetClaim busy_kube ns n = found mc_claims (ns, n)" "k_GetClass busy_kube n = found mc_classes n"
  "k_GetSecret busy_kube ns n = found mc_secrets (ns, n)" "k_UpdateUnstructuredStatus busy_kube = flaky_object"
  "run_state (k_UpdateUnstructured busy_kube u) w = (if 0 < mc_conflicts w
     then (Inl (ErrApi ReasonConflict ''conflict''), w\<lparr>mc_conflicts := mc_conflicts w - 1\<rparr>) else (Inr u, put_object u w))"
  "k_CreateSecret busy_kube = (\<lambda>s. ok_after (put_secret s))" "k_UpdateSecret busy_kube = (\<lambda>s. ok_after (put_secret s))"
  "k_DeleteSecret busy_kube ns n = ok_after (\<lambda>w. w\<lparr>mc_secrets := AList.delete (ns, n) (mc_secrets w)\<rparr>)"
  by (simp_all add: busy_kube_def flaky_object_def run_simps) (simp_all add: mem_kube_def)

lemma busy_object_read:
  "attempt (access_world P) mc_conflicts any (found mc_objects (''BucketAccess'', ''ns1'', ''a1''))
     (\<lambda>u w. P u \<and> stored_access w = Some u) (\<lambda>e. \<not> is_not_found e)"
  by (auto simp: attempt_def triple_def run_found within_def access_world_def stored_access_def)

lemma busy_object_written:
  assumes "access_named ''ns1'' ''a1'' u" and "P u"
  shows "attempt (access_world P) mc_conflicts Q (k_UpdateUnstructured busy_kube u)
     (\<lambda>u' w. u' = u \<and> stored_access w = Some u) any"
  using access_world_put [where P = P, OF assms] stored_put [OF assms(1)]
  by (auto simp: attempt_def triple_def busy_calls within_def faulted_def)

lemma busy_status_written:
  assumes "access_named ''ns1'' ''a1'' u" and "P u"
  shows "triple (within (access_world P) mc_conflicts f) (flaky_object u) (\<lambda>x w. case x of
     Some e \<Rightarrow> faulted (access_world P) mc_conflicts f w
   | None \<Rightarrow> within (access_world P) mc_conflicts f w \<and> stored_access w = Some u)"
  using access_world_put [where P = P, OF assms] stored_put [OF assms(1)]
  by (auto simp: triple_def flaky_object_def within_def faulted_def)

lemma busy_reads:
  "attempt (access_world P) mc_conflicts any (found mc_claims (''ns1'', ''c1'')) (\<lambda>c _. c = example_bound) any"
  "attempt (access_world P) mc_conflicts any (found mc_classes ''bc'') (\<lambda>c _. c = example_class) any"
  "lookup (access_world P) mc_conflicts (found mc_secrets key) any (\<lambda>_ _. True)"
  "keeps (within (access_world P) mc_conflicts f) (found mc_secrets key) any"
  by (auto simp: attempt_def lookup_def triple_def keeps_def run_found within_def access_world_def split: option.split)

lemma busy_secrets:
  "attempt_step (access_world P) mc_conflicts any (ok_after (put_secret s))"
  "keeps (within (access_world P) mc_conflicts f) (ok_after (\<lambda>w. w\<lparr>mc_secrets := AList.delete key (mc_secrets w)\<rparr>)) any"
  by (simp_all add: attempt_step_def triple_def keeps_def run_simps put_secret_def within_def)

lemma bound_ready: "claim_ready ''bc'' example_bound" "spec_BucketClassName (claim_Spec example_bound) = ''bc''"
  by (simp_all add: claim_ready_def example_bound_def bound_claim_def set_claim_status_def example_claim_def
      trim_space_graphic graphic_def)

lemma busy_cluster_grants:
  "cluster_grants busy_kube (access_world (wanting_access ''ns1'' ''a1'' ''c1'' ''cred'')) mc_conflicts
     (\<lambda>w. \<exists>u. stored_access w = Some u \<and> access_granted u) ''ns1'' ''a1'' ''c1'' ''cred'' ''bc'' example_class"
proof -
  let ?P = "wanting_access ''ns1'' ''a1'' ''c1'' ''cred''" and ?G = "\<lambda>w. \<exists>u. stored_access w = Some u \<and> access_granted u"
  have named: "?P u \<Longrightarrow> access_named ''ns1'' ''a1'' u" for u by (simp add: wanting_access_def)
  have read: "attempt (access_world ?P) mc_conflicts any (found mc_objects (''BucketAccess'', ''ns1'', ''a1''))
      (\<lambda>u w. ?P u \<and> (access_granted u \<longrightarrow> ?G w)) (\<lambda>e. \<not> is_not_found e)"
    by (rule attempt_mono(1) [OF busy_object_read]) blast
  have written: "attempt (access_world ?P) mc_conflicts Q (k_UpdateUnstructured busy_kube u)
      (\<lambda>u' w. ?P u' \<and> (access_granted u \<longrightarrow> ?G w)) any" if "?P u" for u Q
    by (rule attempt_mono(1) [OF busy_object_written [OF named [OF that]]]) (use that in auto)
  have status: "triple (within (access_world ?P) mc_conflicts f) (flaky_object u) (\<lambda>x w. case x of
      Some e \<Rightarrow> faulted (access_world ?P) mc_conflicts f w | None \<Rightarrow> within (access_world ?P) mc_conflicts f w \<and> ?G w)"
    if "?P u" "access_granted u" for u f
    by (rule triple_conseq [OF busy_status_written [where P = ?P, OF named [OF that(1)] that(1)]])
      (use that(2) in \<open>auto split: option.splits\<close>)
  have claim: "attempt (access_world ?P) mc_conflicts any (found mc_claims (''ns1'', ''c1'')) (\<lambda>c _. claim_ready ''bc'' c) any"
    by (rule attempt_mono(2) [OF busy_reads(1)]) (simp add: bound_ready)
  show ?thesis
    unfolding cluster_grants_def busy_calls
    by (intro conjI allI impI read written status claim busy_reads busy_secrets; blast)
qed

lemma busy_cluster_lets_go:
  "cluster_lets_go busy_kube (access_world (leaving_access ''ns1'' ''a1'' ''c1'' ''cred'')) mc_conflicts
     (\<lambda>w. \<exists>u. stored_access w = Some u \<and> access_released busy_kube u) ''ns1'' ''a1'' ''c1'' ''cred'' ''bc'' example_class"
proof -
  let ?P = "leaving_access ''ns1'' ''a1'' ''c1'' ''cred''" and ?D = "\<lambda>w. \<exists>u. stored_access w = Some u \<and> access_released busy_kube u"
  have named: "?P u \<Longrightarrow> access_named ''ns1'' ''a1'' u" for u by (simp add: leaving_access_def)
  have read: "lookup (access_world ?P) mc_conflicts (found mc_objects (''BucketAccess'', ''ns1'', ''a1'')) ?D
      (\<lambda>u w. ?P u \<and> (access_released busy_kube u \<longrightarrow> ?D w))"
    by (rule lookup_attempt, rule attempt_mono(1) [OF busy_object_read]) blast
  have written: "attempt (access_world ?P) mc_conflicts Q (k_UpdateUnstructured busy_kube u) (\<lambda>_. ?D) any"
    if "?P u" "access_released busy_kube u" for u Q
    by (rule attempt_mono(1) [OF busy_object_written [OF named [OF that(1)]]]) (use that in auto)
  have fin: "\<not> k_ContainsFinalizer busy_kube (k_RemoveFinalizer busy_kube fs bucketAccessFinalizer) bucketAccessFinalizer" for fs
    by (simp add: busy_kube_def mem_kube_def)
  have claim: "lookup (access_world ?P) mc_conflicts (found mc_claims (''ns1'', ''c1'')) any
      (\<lambda>c _. spec_BucketClassName (claim_Spec c) = ''bc'')"
    by (auto simp: lookup_def triple_def run_found within_def access_world_def bound_ready)
  show ?thesis
    unfolding cluster_lets_go_def busy_calls
    by (intro conjI allI impI read written fin claim busy_reads busy_secrets; blast)
qed

lemma busy_backend:
  "backend_grants (access_world P) mc_conflicts (minio_provider cluster_minio mem_client)"
  "backend_revokes (access_world P) mc_conflicts (minio_provider cluster_minio mem_client)"
  by (simp_all add: backend_grants_def backend_revokes_def attempt_def attempt_step_def triple_def minio_provider_def
      minio_GrantAccess_def minio_RevokeAccess_def cluster_minio_def mem_sdk_def run_simps within_def Let_def)

lemma busy_resolver:
  "access_resolver busy_reconciler (access_world P) mc_conflicts example_class (backend_grants (access_world P) mc_conflicts)"
  "access_resolver busy_reconciler (access_world P) mc_conflicts example_class (backend_revokes (access_world P) mc_conflicts)"
  using example_resolves
  by (simp_all add: access_resolver_def triple_def busy_reconciler_def example_access_reconciler_def busy_backend)

definition busy_cluster :: "Unstructured \<Rightarrow> mem_cluster" where
  "busy_cluster ba = (access_cluster ba)\<lparr>mc_conflicts := 2\<rparr>"

theorem access_completes_witness:
  "(\<exists>i s' u. until_done (\<lambda>_ w. w) (access_Reconcile busy_reconciler ''ns1'' ''a1'') (start_state (busy_cluster example_access)) =
       Some (i, Done, s') \<and> i \<le> 3 \<and> stored_access (st_world s') = Some u \<and> access_granted u) \<and>
   (\<exists>i s' u. until_done (\<lambda>_ w. w) (access_Reconcile busy_reconciler ''ns1'' ''a1'') (start_state (busy_cluster deleted_access)) =
       Some (i, Done, s') \<and> i \<le> 3 \<and> stored_access (st_world s') = Some u \<and> access_released busy_kube u)"
proof -
  have kube: "ar_kube busy_reconciler = busy_kube" by (simp add: busy_reconciler_def)
  have world: "access_world P (st_world (start_state (busy_cluster u)))" if "P u" for P u
    using that by (simp add: start_world busy_cluster_def access_cluster_def example_cluster_def access_world_def stored_access_def)
  have named: "access_named ''ns1'' ''a1'' example_access" "access_named ''ns1'' ''a1'' deleted_access"
    by (simp_all add: access_named_def example_access_def deleted_access_def zero_meta_def)
  have "wanting_access ''ns1'' ''a1'' ''c1'' ''cred'' example_access" "leaving_access ''ns1'' ''a1'' ''c1'' ''cred'' deleted_access"
    using named example_access_asks by (simp_all add: wanting_access_def leaving_access_def deleted_access_def)
      (simp add: example_access_def zero_meta_def)
  note worlds = world [where P = "wanting_access _ _ _ _", OF this(1)] world [where P = "leaving_access _ _ _ _", OF this(2)]
  have faults: "mc_conflicts (st_world (start_state (busy_cluster u))) = 2" for u by (simp add: start_world busy_cluster_def)
  let ?run = "\<lambda>u. until_done (\<lambda>_ w. w) (access_Reconcile busy_reconciler ''ns1'' ''a1'') (start_state (busy_cluster u))"
  have "\<exists>i s'. ?run example_access = Some (i, Done, s') \<and> i \<le> mc_conflicts (st_world (start_state (busy_cluster example_access))) + 1 \<and>
      access_world (wanting_access ''ns1'' ''a1'' ''c1'' ''cred'') (st_world s') \<and>
      (\<exists>u. stored_access (st_world s') = Some u \<and> access_granted u)"
    by (rule access_completes [where I = "access_world (wanting_access ''ns1'' ''a1'' ''c1'' ''cred'')" and F = mc_conflicts and
          env = "\<lambda>_ w. w" and s = "start_state (busy_cluster example_access)", THEN conjunct1, THEN mp])
      (simp, rule worlds(1), unfold kube, rule conjI [OF busy_cluster_grants busy_resolver(1)])
  moreover have "\<exists>i s'. ?run deleted_access = Some (i, Done, s') \<and> i \<le> mc_conflicts (st_world (start_state (busy_cluster deleted_access))) + 1 \<and>
      access_world (leaving_access ''ns1'' ''a1'' ''c1'' ''cred'') (st_world s') \<and>
      (\<exists>u. stored_access (st_world s') = Some u \<and> access_released busy_kube u)"
    by (rule access_completes [where I = "access_world (leaving_access ''ns1'' ''a1'' ''c1'' ''cred'')" and F = mc_conflicts and
          env = "\<lambda>_ w. w" and s = "start_state (busy_cluster deleted_access)", THEN conjunct2, THEN mp])
      (simp, rule worlds(2), unfold kube, rule conjI [OF busy_cluster_lets_go busy_resolver(2)])
  ultimately show ?thesis unfolding faults by auto
qed

end
