(* ===== verification/Json_Fuel.thy ===== *)
theory Json_Fuel
  imports Json_Roundtrip
begin

text \<open>
  The fuel of the JSON parser is enough: what the parser leaves is shorter than what it was given, and
  with two units of fuel for each character more fuel changes nothing.
\<close>

section \<open>The fuel of the parser\<close>

lemma skip_ws_le: "length (skip_ws s) \<le> length s"
  by (induction s) auto

lemma skip_ws_Cons: "skip_ws s = c # r \<Longrightarrow> length r < length s"
  using skip_ws_le [of s] by simp

lemma parse_chars_less: "parse_chars s = Some (t, r) \<Longrightarrow> length r < length s"
proof (induction s arbitrary: t rule: parse_chars.induct)
  case (2 c cs)
  then show ?case
    by (auto simp: prepend_def split: if_splits list.splits option.splits)
      (metis One_nat_def Suc_less_eq diff_le_self le_less_trans less_Suc_eq less_trans_Suc length_drop)+
qed simp

lemma parse_string_less: "parse_string s = Some (t, r) \<Longrightarrow> length r < length s"
  by (auto simp: parse_string_def split: option.splits dest: parse_chars_less)

lemma number_int_Cons:
  "number_int (c # cs) = (if c = CHR ''0'' then Some (''0'', cs)
     else if is_digit c then Some (takeWhile is_digit (c # cs), dropWhile is_digit (c # cs)) else None)"
  by (cases c) (auto simp: number_int_def split: bool.split)

lemma number_int_less: "number_int s = Some (t, r) \<Longrightarrow> length r < length s"
proof (cases s)
  case (Cons c cs)
  assume "number_int s = Some (t, r)"
  with Cons show ?thesis
    by (auto simp: number_int_Cons le_imp_less_Suc length_dropWhile_le split: if_splits)
qed (simp add: number_int_def)

lemma number_frac_Cons:
  "number_frac (c # cs) = (if c = CHR ''.'' then if takeWhile is_digit cs = [] then None
     else Some (''.'' @ takeWhile is_digit cs, dropWhile is_digit cs) else Some ([], c # cs))"
  by (cases c) (simp add: number_frac_def split: bool.split)

lemma number_frac_le: "number_frac s = Some (t, r) \<Longrightarrow> length r \<le> length s"
proof (cases s)
  case (Cons c cs)
  assume "number_frac s = Some (t, r)"
  with Cons show ?thesis
    by (auto simp: number_frac_Cons le_SucI length_dropWhile_le split: if_splits)
qed (simp add: number_frac_def)

lemma number_exp_le: "number_exp s = Some (t, r) \<Longrightarrow> length r \<le> length s"
  by (auto simp: number_exp_def Let_def split: if_splits list.splits prod.splits)
    (meson le_SucI length_dropWhile_le)+

lemma parse_number_less: "parse_number s = Some (t, r) \<Longrightarrow> length r < length s"
proof -
  assume p: "parse_number s = Some (t, r)"
  obtain sign s1 where s1: "(case s of CHR ''-'' # r \<Rightarrow> (''-'', r) | _ \<Rightarrow> ('''', s)) = (sign, s1)" by fastforce
  then have "length s1 \<le> length s" by (auto split: list.splits char.splits bool.splits)
  moreover from p s1 obtain i r1 f r2 x where "number_int s1 = Some (i, r1)" "number_frac r1 = Some (f, r2)"
      "number_exp r2 = Some (x, r)"
    by (auto simp: parse_number_def split: option.splits)
  ultimately show ?thesis
    using number_int_less number_frac_le number_exp_le by (meson less_le_trans order.strict_trans1)
qed

lemma lit_rest_less: "lit_rest w s = Some r \<Longrightarrow> w \<noteq> [] \<Longrightarrow> length r < length s"
  by (cases s) (auto simp: lit_rest_def split: if_splits)

lemma parse_less:
  "parse_value n s = Some (j, r) \<Longrightarrow> length r < length s"
  "parse_elements n s = Some (js, r) \<Longrightarrow> length r < length s"
  "parse_members n s = Some (kvs, r) \<Longrightarrow> length r < length s"
proof (induction n s and n s and n s arbitrary: j r and js r and kvs r
    rule: parse_value_parse_elements_parse_members.induct)
  case (2 n s)
  obtain c t where c: "skip_ws s = c # t" using "2.prems" by (auto split: list.splits)
  then have t: "length t < length s" by (rule skip_ws_Cons)
  have ct: "length (c # t) \<le> length s" using skip_ws_le [of s] c by simp
  consider (str) "byte c = 34" | (arr) "byte c \<noteq> 34" "c = CHR ''[''" | (obj) "byte c \<noteq> 34" "c = CHR ''{''"
    | (other) "byte c \<noteq> 34" "c \<noteq> CHR ''[''" "c \<noteq> CHR ''{''" by blast
  then show ?case
  proof cases
    case str
    with "2.prems" c obtain u where "parse_string t = Some (u, r)" by (auto split: option.splits prod.splits)
    with t show ?thesis using parse_string_less by fastforce
  next
    case arr
    with "2.prems" c obtain d t' where d: "skip_ws t = d # t'" by (auto split: list.splits)
    show ?thesis
    proof (cases "d = CHR '']''")
      case True
      with "2.prems" c arr d have "r = t'" by simp
      with skip_ws_Cons [OF d] t show ?thesis by simp
    next
      case False
      with "2.prems" c arr d obtain xs where "parse_elements n t = Some (xs, r)" by (auto split: option.splits prod.splits)
      with "2.IH" c arr d False t show ?thesis by fastforce
    qed
  next
    case obj
    with "2.prems" c obtain d t' where d: "skip_ws t = d # t'" by (auto split: list.splits)
    show ?thesis
    proof (cases "d = CHR ''}''")
      case True
      with "2.prems" c obj d have "r = t'" by simp
      with skip_ws_Cons [OF d] t show ?thesis by simp
    next
      case False
      with "2.prems" c obj d obtain xs where "parse_members n t = Some (xs, r)" by (auto split: option.splits prod.splits)
      with "2.IH" c obj d False t show ?thesis by fastforce
    qed
  next
    case other
    with "2.prems" c have "lit_rest ''null'' (c # t) = Some r \<or> lit_rest ''true'' (c # t) = Some r \<or>
        lit_rest ''false'' (c # t) = Some r \<or> (\<exists>u. parse_number (c # t) = Some (u, r))"
      by (auto split: option.splits prod.splits)
    then have "length r < length (c # t)"
      by (elim disjE exE) (erule lit_rest_less, simp, erule lit_rest_less, simp, erule lit_rest_less, simp, erule parse_number_less)
    with ct show ?thesis by linarith
  qed
next
  case (4 n s)
  obtain x r1 where x: "parse_value n s = Some (x, r1)" using "4.prems" by (auto split: option.splits prod.splits)
  with "4.IH"(1) have l1: "length r1 < length s" by blast
  from "4.prems" x obtain c r2 where c: "skip_ws r1 = c # r2" by (auto split: list.splits)
  show ?case
  proof (cases "c = CHR '']''")
    case True
    with "4.prems" x c have "r = r2" by simp
    with skip_ws_Cons [OF c] l1 show ?thesis by simp
  next
    case False
    with "4.prems" x c obtain xs where m: "c = CHR '',''" "parse_elements n r2 = Some (xs, r)"
      by (auto split: option.splits prod.splits if_splits)
    with "4.IH"(2) x c have "length r < length r2" by fastforce
    with skip_ws_Cons [OF c] l1 show ?thesis by simp
  qed
next
  case (6 n s)
  obtain q t k r1 where q: "skip_ws s = q # t" "byte q = 34" "parse_string t = Some (k, r1)"
    using "6.prems" by (auto split: list.splits option.splits prod.splits if_splits)
  with "6.prems" obtain r2 where r2: "skip_ws r1 = CHR '':'' # r2" by (auto split: list.splits if_splits)
  with "6.prems" q obtain v r3 where v: "parse_value n r2 = Some (v, r3)" by (auto split: option.splits prod.splits)
  with "6.IH"(1) q r2 have l3: "length r3 < length r2" by fastforce
  from "6.prems" q r2 v obtain d r4 where d: "skip_ws r3 = d # r4" by (auto split: list.splits)
  have before: "length r4 < length s"
    using skip_ws_Cons [OF q(1)] parse_string_less [OF q(3)] skip_ws_Cons [OF r2] l3 skip_ws_Cons [OF d] by linarith
  show ?case
  proof (cases "d = CHR ''}''")
    case True
    with "6.prems" q r2 v d before show ?thesis by auto
  next
    case False
    with "6.prems" q r2 v d obtain kvs' where m: "d = CHR '',''" "parse_members n r4 = Some (kvs', r)"
      by (auto split: option.splits prod.splits if_splits)
    with "6.IH"(2) q r2 v d have "length r < length r4" by fastforce
    with before show ?thesis by simp
  qed
qed simp_all

text \<open>Two units for each character are enough: more fuel changes nothing.\<close>

lemma parse_fuel:
  "2 * length s + 1 \<le> n \<Longrightarrow> n \<le> m \<Longrightarrow> parse_value m s = parse_value n s"
  "2 * length s + 2 \<le> n \<Longrightarrow> n \<le> m \<Longrightarrow> parse_elements m s = parse_elements n s"
  "2 * length s + 2 \<le> n \<Longrightarrow> n \<le> m \<Longrightarrow> parse_members m s = parse_members n s"
proof (induction n s and n s and n s arbitrary: m and m and m
    rule: parse_value_parse_elements_parse_members.induct)
  case (2 n s)
  obtain k where m: "m = Suc k" "n \<le> k" using "2.prems" by (cases m) auto
  show ?case
  proof (cases "skip_ws s")
    case (Cons c t)
    from skip_ws_Cons [OF Cons] "2.prems" have fuel: "2 * length t + 2 \<le> n" by simp
    show ?thesis
    proof (cases "skip_ws t")
      case Nil
      with Cons m show ?thesis by simp
    next
      case (Cons d t')
      have "parse_elements k t = parse_elements n t" if "byte c \<noteq> 34" "c = CHR ''[''" "d \<noteq> CHR '']''"
        by (rule "2.IH"(1) [OF \<open>skip_ws s = c # t\<close> that(1,2) Cons that(3) fuel m(2)])
      moreover have "parse_members k t = parse_members n t" if "byte c \<noteq> 34" "c = CHR ''{''" "d \<noteq> CHR ''}''"
        by (rule "2.IH"(2) [OF \<open>skip_ws s = c # t\<close> that(1) _ that(2) Cons that(3) fuel m(2)]) (use that in simp)
      ultimately show ?thesis using Cons \<open>skip_ws s = c # t\<close> m(1) by simp
    qed
  qed (simp add: m)
next
  case (4 n s)
  obtain k where m: "m = Suc k" "n \<le> k" using "4.prems" by (cases m) auto
  have v: "parse_value k s = parse_value n s" by (rule "4.IH"(1)) (use "4.prems" m in simp_all)
  show ?case
  proof (cases "parse_value n s")
    case (Some p)
    then obtain x r where x: "parse_value n s = Some (x, r)" by (cases p) auto
    show ?thesis
    proof (cases "skip_ws r")
      case (Cons c r')
      from parse_less(1) [OF x] skip_ws_Cons [OF Cons] "4.prems" have fuel: "2 * length r' + 2 \<le> n" by simp
      have "parse_elements k r' = parse_elements n r'" if "c \<noteq> CHR '']''" "c = CHR '',''"
        by (rule "4.IH"(2) [OF x refl Cons that fuel m(2)])
      then show ?thesis using v x Cons m(1) by simp
    qed (use v x m in simp)
  qed (use v m in simp)
next
  case (6 n s)
  obtain k where m: "m = Suc k" "n \<le> k" using "6.prems" by (cases m) auto
  show ?case
  proof (cases "skip_ws s")
    case (Cons q t)
    show ?thesis
    proof (cases "byte q = 34 \<and> (\<exists>key r1 r2. parse_string t = Some (key, r1) \<and> skip_ws r1 = CHR '':'' # r2)")
      case True
      then obtain key r1 r2 where q: "byte q = 34" "parse_string t = Some (key, r1)" "skip_ws r1 = CHR '':'' # r2" by blast
      have l2: "Suc (Suc (length r2)) \<le> length s"
        using skip_ws_Cons [OF Cons] parse_string_less [OF q(2)] skip_ws_Cons [OF q(3)] by linarith
      have v: "parse_value k r2 = parse_value n r2"
        by (rule "6.IH"(1) [OF Cons _ q(2) refl q(3)]) (use q l2 "6.prems" m in simp_all)
      show ?thesis
      proof (cases "parse_value n r2")
        case (Some p)
        then obtain x r3 where x: "parse_value n r2 = Some (x, r3)" by (cases p) auto
        show ?thesis
        proof (cases "skip_ws r3")
          case (Cons d r4)
          from parse_less(1) [OF x] skip_ws_Cons [OF Cons] l2 "6.prems" have fuel: "2 * length r4 + 2 \<le> n" by simp
          have "parse_members k r4 = parse_members n r4" if "d \<noteq> CHR ''}''" "d = CHR '',''"
            by (rule "6.IH"(2) [OF \<open>skip_ws s = q # t\<close> _ q(2) refl q(3) _ x refl Cons that fuel m(2)]) (simp_all add: q(1))
          then show ?thesis using v x Cons m(1) \<open>skip_ws s = q # t\<close> q by simp
        qed (use v x m Cons q in simp)
      qed (use v m Cons q in simp)
    next
      case False
      with Cons m show ?thesis by (auto split: option.split list.split)
    qed
  qed (simp add: m)
qed simp_all

lemma json_members_fuel: "2 * length s + 1 \<le> n \<Longrightarrow>
    json_members s = (case parse_value n s of None \<Rightarrow> None | Some (j, rest) \<Rightarrow> if skip_ws rest = [] then Some j else None)"
  using parse_fuel(1) [of s "2 * length s + 1" n] by (simp add: json_members_def)

end
