(* ===== verification/Memory.thy ===== *)
theory Memory
  imports Api_Types
begin

text \<open>
  Memory made explicit, for the generated deep copies: what they are for is that a copy shares no memory
  with the original. A store is the list of the cells allocated so far, an address is a position in it, a
  pointer or a map is an address or nil, and a slice is the address of its backing array with an offset and
  a length. The building blocks of the generated code (\<^verbatim>\<open>new\<close>, \<^verbatim>\<open>make\<close>, \<^verbatim>\<open>copy\<close>, the loops over a slice or a
  map) are operations on the store, and the locale \<open>deep_copyable\<close> is the contract that each of them, and
  whatever is built from them, is shown to fulfil.
\<close>

section \<open>Memory\<close>

type_synonym addr = nat

record slice =
  sl_array :: addr
  sl_off :: nat
  sl_len :: nat

record TypeMeta =
  type_Kind :: string
  type_APIVersion :: string

text \<open>
  The structs, over the types of the fields that refer to other memory: addresses and slices in the
  store, or the values found there when a struct is read through to its leaves.
\<close>

record ('strs, 'quant, 'rules, 'target) spec_struct =
  m_BucketClassName :: string
  m_Protocols :: 'strs
  m_SpecBucketName :: string
  m_Quota :: 'quant
  m_AccessType :: AccessType
  m_LifecycleRules :: 'rules
  m_ReplicationTarget :: 'target

record ('conds, 'oref) status_struct =
  m_Conditions :: 'conds
  m_BucketReady :: bool
  m_SecretReference :: 'oref
  m_Endpoint :: string
  m_StatusBucketName :: string
  m_Phase :: string

record ('meta, 'spec, 'status) claim_struct =
  m_ClaimType :: TypeMeta
  m_ClaimMeta :: 'meta
  m_Spec :: 'spec
  m_Status :: 'status

record ('meta, 'map, 'policy, 'sref) class_struct =
  m_ClassType :: TypeMeta
  m_ClassMeta :: 'meta
  m_DriverName :: string
  m_Backend :: string
  m_DeletionPolicy :: DeletionPolicy
  m_ObjectLockingEnabled :: bool
  m_RetentionMode :: RetentionMode
  m_RetentionDays :: "64 word"
  m_Parameters :: 'map
  m_BucketPolicyRef :: 'policy
  m_MinioCredentialSecretRef :: 'sref
  m_AwsCredentialSecretRef :: 'sref

record ('meta, 'items) list_struct =
  m_ListType :: TypeMeta
  m_ListMeta :: 'meta
  m_Items :: 'items

type_synonym spec_mem = "(slice option, addr option, slice option, addr option) spec_struct"
type_synonym status_mem = "(slice option, addr option) status_struct"
type_synonym 'f claim_mem = "('f, spec_mem, status_mem) claim_struct"
type_synonym 'f class_mem = "('f, addr option, addr option, addr option) class_struct"
type_synonym 'f list_mem = "('f, slice option) list_struct"

text \<open>A cell is an allocated object: a struct, a backing array or a map.\<close>

datatype 'f cell =
    StringArray "string list"
  | RuleArray "LifecycleRule list"
  | ClaimArray "'f claim_mem list"
  | ClassArray "'f class_mem list"
  | ForeignArray "'f list"
  | StringMap smap
  | ExpirationCell LifecycleExpiration
  | RuleCell LifecycleRule
  | TargetCell ReplicationTarget
  | ObjectReferenceCell ObjectReference
  | SecretReferenceCell SecretReference
  | PolicyRefCell BucketPolicyRef
  | SpecCell spec_mem
  | StatusCell status_mem
  | ClaimCell "'f claim_mem"
  | ClassCell "'f class_mem"
  | ClaimListCell "'f list_mem"
  | ClassListCell "'f list_mem"
  | ForeignCell 'f

type_synonym 'f store = "'f cell list"

text \<open>\<^verbatim>\<open>new\<close> allocates, \<^verbatim>\<open>*p = v\<close> stores.\<close>

definition alloc :: "'f cell \<Rightarrow> ('f store, addr) state" where
  "alloc c = State (\<lambda>s. (length s, s @ [c]))"

definition put_cell :: "addr \<Rightarrow> 'f cell \<Rightarrow> ('f store, unit) state" where
  "put_cell a c = State (\<lambda>s. ((), s[a := c]))"

text \<open>
  A kind of cell: how a Go value of the type is put in a cell and read from one, and its zero value,
  which is also what is read where the address holds no cell of that type (Go's types exclude that).
\<close>

record ('f, 'a) kind =
  box :: "'a \<Rightarrow> 'f cell"
  unbox :: "'f cell \<Rightarrow> 'a option"
  zero_val :: 'a

definition holds :: "('f, 'a) kind \<Rightarrow> 'f store \<Rightarrow> addr \<Rightarrow> bool" where
  "holds K s a \<longleftrightarrow> a < length s \<and> unbox K (s ! a) \<noteq> None"

definition deref :: "('f, 'a) kind \<Rightarrow> 'f store \<Rightarrow> addr \<Rightarrow> 'a" where
  "deref K s a = (if a < length s then case unbox K (s ! a) of Some x \<Rightarrow> x | None \<Rightarrow> zero_val K else zero_val K)"

definition load :: "('f, 'a) kind \<Rightarrow> addr \<Rightarrow> ('f store, 'a) state" where
  "load K a = State (\<lambda>s. (deref K s a, s))"

lemma run_memory [run_simps]:
  "run_state (alloc c) s = (length s, s @ [c])"
  "run_state (put_cell a c) s = ((), s[a := c])"
  "run_state (load K a) s = (deref K s a, s)"
  by (simp_all add: alloc_def put_cell_def load_def)

definition lawful :: "('f, 'a) kind \<Rightarrow> bool" where
  "lawful K \<longleftrightarrow> (\<forall>x. unbox K (box K x) = Some x)"

lemma deref_simps [simp]:
  "a < length s \<Longrightarrow> deref K (s @ t) a = deref K s a"
  "lawful K \<Longrightarrow> a < length s \<Longrightarrow> deref K (s[a := box K x]) a = x"
  "lawful K \<Longrightarrow> deref K (s @ box K x # t) (length s) = x"
  by (simp_all add: deref_def lawful_def nth_append)

lemma holds_simps [simp]:
  "holds K s a \<Longrightarrow> holds K (s @ t) a"
  "lawful K \<Longrightarrow> holds K (s @ box K x # t) (length s)"
  by (simp_all add: holds_def lawful_def nth_append)

lemma holds_less: "holds K s a \<Longrightarrow> a < length s"
  by (simp add: holds_def)

lemma cell_agrees: "s' ! a = s ! a \<Longrightarrow> a < length s' \<Longrightarrow> holds K s a \<Longrightarrow> holds K s' a \<and> deref K s' a = deref K s a"
  by (simp add: holds_def deref_def)

section \<open>Building blocks of the generated code\<close>

text \<open>\<^verbatim>\<open>if in.F != nil \<dots>\<close>: the field is copied by \<open>f\<close>, or left nil.\<close>

definition if_set :: "('a \<Rightarrow> ('s, 'a) state) \<Rightarrow> 'a option \<Rightarrow> ('s, 'a option) state" where
  "if_set f p = (case p of None \<Rightarrow> ret None | Some x \<Rightarrow> do { y \<leftarrow> f x; ret (Some y) })"

text \<open>\<^verbatim>\<open>*out = new(T)\<close>, which \<open>into\<close> then fills from the value \<^verbatim>\<open>**in\<close>; for a flat struct it is \<^verbatim>\<open>**out = **in\<close>.\<close>

definition new_copy :: "('f, 'a) kind \<Rightarrow> ('a \<Rightarrow> ('f store, 'a) state) \<Rightarrow> addr \<Rightarrow> ('f store, addr) state" where
  "new_copy K into a = do {
     out \<leftarrow> alloc (box K (zero_val K));
     x \<leftarrow> load K a;
     y \<leftarrow> into x;
     _ \<leftarrow> put_cell out (box K y);
     ret out }"

text \<open>The elements of a slice.\<close>

definition elems :: "('f, 'a list) kind \<Rightarrow> 'f store \<Rightarrow> slice \<Rightarrow> 'a list" where
  "elems K s sl = take (sl_len sl) (drop (sl_off sl) (deref K s (sl_array sl)))"

definition load_elems :: "('f, 'a list) kind \<Rightarrow> slice \<Rightarrow> ('f store, 'a list) state" where
  "load_elems K sl = State (\<lambda>s. (elems K s sl, s))"

definition load_elem :: "('f, 'a list) kind \<Rightarrow> slice \<Rightarrow> nat \<Rightarrow> ('f store, 'a) state" where
  "load_elem K sl i = State (\<lambda>s. (elems K s sl ! i, s))"

definition put_elem :: "('f, 'a list) kind \<Rightarrow> addr \<Rightarrow> nat \<Rightarrow> 'a \<Rightarrow> ('f store, unit) state" where
  "put_elem K a i x = State (\<lambda>s. ((), s[a := box K ((deref K s a)[i := x])]))"

lemma run_slices [run_simps]:
  "run_state (load_elems K sl) s = (elems K s sl, s)"
  "run_state (load_elem K sl i) s = (elems K s sl ! i, s)"
  "run_state (put_elem K a i x) s = ((), s[a := box K ((deref K s a)[i := x])])"
  by (simp_all add: load_elems_def load_elem_def put_elem_def)

text \<open>Go's \<^verbatim>\<open>copy(dst, src)\<close> overwrites as many elements as both have.\<close>

definition go_copy :: "'a list \<Rightarrow> 'a list \<Rightarrow> 'a list" where
  "go_copy dst src = take (length dst) src @ drop (length src) dst"

text \<open>\<^verbatim>\<open>*out = make([]T, len(*in))\<close>, then \<^verbatim>\<open>copy(*out, *in)\<close> or a loop over the elements.\<close>

definition make_copy :: "('f, 'a list) kind \<Rightarrow> 'a \<Rightarrow> slice \<Rightarrow> ('f store, slice) state" where
  "make_copy K z sl = do {
     a \<leftarrow> alloc (box K (replicate (sl_len sl) z));
     dst \<leftarrow> load K a;
     src \<leftarrow> load_elems K sl;
     _ \<leftarrow> put_cell a (box K (go_copy dst src));
     ret \<lparr>sl_array = a, sl_off = 0, sl_len = sl_len sl\<rparr> }"

definition make_each ::
  "('f, 'a list) kind \<Rightarrow> 'a \<Rightarrow> ('a \<Rightarrow> ('f store, 'a) state) \<Rightarrow> slice \<Rightarrow> ('f store, slice) state" where
  "make_each K z into sl = do {
     a \<leftarrow> alloc (box K (replicate (sl_len sl) z));
     _ \<leftarrow> for_each (\<lambda>i. do { x \<leftarrow> load_elem K sl i; y \<leftarrow> into x; put_elem K a i y }) [0..<sl_len sl];
     ret \<lparr>sl_array = a, sl_off = 0, sl_len = sl_len sl\<rparr> }"

text \<open>\<^verbatim>\<open>*out = make(map[string]string, len(*in))\<close> and a loop over the entries.\<close>

definition map_kind :: "('f, smap) kind" where
  "map_kind = \<lparr>box = StringMap, unbox = (\<lambda>c. case c of StringMap m \<Rightarrow> Some m | _ \<Rightarrow> None), zero_val = []\<rparr>"

definition put_entry :: "addr \<Rightarrow> string \<times> string \<Rightarrow> ('f store, unit) state" where
  "put_entry a e = State (\<lambda>s. ((), s[a := StringMap (AList.update (fst e) (snd e) (deref map_kind s a))]))"

definition make_map :: "addr \<Rightarrow> ('f store, addr) state" where
  "make_map a = do {
     out \<leftarrow> alloc (StringMap []);
     m \<leftarrow> load map_kind a;
     _ \<leftarrow> for_each (put_entry out) m;
     ret out }"

section \<open>What a deep copy promises\<close>

text \<open>
  The contract of a copying operation on values of some type: \<open>view\<close> reads a value through to its
  leaves, \<open>refs\<close> is the set of cells it is read from, and \<open>ok\<close> says that they are there. The copy reads
  as the original does, every cell it is read from is new, and no cell that was there has changed.
\<close>

locale deep_copyable =
  fixes view :: "'f store \<Rightarrow> 'a \<Rightarrow> 'v"
    and ok :: "'f store \<Rightarrow> 'a \<Rightarrow> bool"
    and refs :: "'f store \<Rightarrow> 'a \<Rightarrow> addr set"
    and copier :: "'a \<Rightarrow> ('f store, 'a) state"
  assumes owned: "ok s x \<Longrightarrow> a \<in> refs s x \<Longrightarrow> a < length s"
    and frame: "ok s x \<Longrightarrow> (\<And>a. a \<in> refs s x \<Longrightarrow> a < length s' \<and> s' ! a = s ! a) \<Longrightarrow>
      ok s' x \<and> view s' x = view s x \<and> refs s' x = refs s x"
    and copies: "ok s x \<Longrightarrow> run_state (copier x) s = (y, s') \<Longrightarrow>
      \<exists>t. s' = s @ t \<and> ok s' y \<and> view s' y = view s x \<and> refs s' y \<subseteq> {length s..<length s'}"
begin

lemma extend: "ok s x \<Longrightarrow> ok (s @ t) x \<and> view (s @ t) x = view s x \<and> refs (s @ t) x = refs s x"
  by (rule frame) (auto dest: owned simp: nth_append)

text \<open>Whatever is done to cells other than those a value is read from, it reads as before.\<close>

lemma independent:
  assumes "ok s x" and "run_state (copier x) s = (y, s')"
  shows "view s' x = view s x" and "view s' y = view s x" and "refs s' x \<inter> refs s' y = {}"
    and "(\<And>a. a < length s \<Longrightarrow> a < length s'' \<and> s'' ! a = s' ! a) \<Longrightarrow> view s'' x = view s x"
    and "(\<And>a. a \<in> refs s' y \<Longrightarrow> a < length s'' \<and> s'' ! a = s' ! a) \<Longrightarrow> view s'' y = view s x"
proof -
  from copies [OF assms] obtain t where
    t: "s' = s @ t" "ok s' y" "view s' y = view s x" "refs s' y \<subseteq> {length s..<length s'}" by blast
  from extend [OF assms(1)] t(1) show "view s' x = view s x" by simp
  show "view s' y = view s x" by (rule t(3))
  from extend [OF assms(1), of t] t owned [OF assms(1)] show "refs s' x \<inter> refs s' y = {}" by fastforce
  show "view s'' x = view s x" if "\<And>a. a < length s \<Longrightarrow> a < length s'' \<and> s'' ! a = s' ! a"
    using frame [OF assms(1), of s''] owned [OF assms(1)] that t(1) by (auto simp: nth_append)
  show "view s'' y = view s x" if "\<And>a. a \<in> refs s' y \<Longrightarrow> a < length s'' \<and> s'' ! a = s' ! a"
    using frame [OF t(2) that] t(3) by simp
qed

end

section \<open>The building blocks copy deeply\<close>

abbreviation (input) flat_ok :: "'f store \<Rightarrow> 'a \<Rightarrow> bool" where "flat_ok \<equiv> \<lambda>_ _. True"
abbreviation (input) no_refs :: "'f store \<Rightarrow> 'a \<Rightarrow> addr set" where "no_refs \<equiv> \<lambda>_ _. {}"
abbreviation (input) itself :: "'f store \<Rightarrow> 'a \<Rightarrow> 'a" where "itself \<equiv> \<lambda>_ x. x"

lemma flat_copyable: "deep_copyable itself flat_ok no_refs ret"
  by unfold_locales auto

interpretation flat: deep_copyable itself flat_ok no_refs "ret :: 'a \<Rightarrow> ('f store, 'a) state"
  by (rule flat_copyable)

text \<open>A field that may be nil.\<close>

definition opt_view :: "('f store \<Rightarrow> 'a \<Rightarrow> 'v) \<Rightarrow> 'f store \<Rightarrow> 'a option \<Rightarrow> 'v option" where
  "opt_view view s = map_option (view s)"

definition opt_ok :: "('f store \<Rightarrow> 'a \<Rightarrow> bool) \<Rightarrow> 'f store \<Rightarrow> 'a option \<Rightarrow> bool" where
  "opt_ok ok s p = (case p of None \<Rightarrow> True | Some x \<Rightarrow> ok s x)"

definition opt_refs :: "('f store \<Rightarrow> 'a \<Rightarrow> addr set) \<Rightarrow> 'f store \<Rightarrow> 'a option \<Rightarrow> addr set" where
  "opt_refs refs s p = (case p of None \<Rightarrow> {} | Some x \<Rightarrow> refs s x)"

lemma opt_copyable:
  assumes "deep_copyable view ok refs copier"
  shows "deep_copyable (opt_view view) (opt_ok ok) (opt_refs refs) (if_set copier)"
proof -
  note d = deep_copyable.owned [OF assms] deep_copyable.frame [OF assms] deep_copyable.copies [OF assms]
  show ?thesis
  proof (unfold_locales, goal_cases)
    case (1 s x a)
    then show ?case using d(1) by (cases x) (auto simp: opt_ok_def opt_refs_def)
  next
    case (2 s x s')
    then show ?case using d(2) [of s _ s'] by (cases x) (auto simp: opt_ok_def opt_refs_def opt_view_def)
  next
    case (3 s x y s')
    then show ?case using d(3) [of s]
      by (cases x) (fastforce simp: if_set_def opt_ok_def opt_refs_def opt_view_def run_simps split: prod.splits)+
  qed
qed

text \<open>Two fields, one after the other.\<close>

lemma pair_copyable:
  assumes "deep_copyable view1 ok1 refs1 copy1" and "deep_copyable view2 ok2 refs2 copy2"
  shows "deep_copyable (\<lambda>s (x, y). (view1 s x, view2 s y)) (\<lambda>s (x, y). ok1 s x \<and> ok2 s y)
     (\<lambda>s (x, y). refs1 s x \<union> refs2 s y) (\<lambda>(x, y). do { x' \<leftarrow> copy1 x; y' \<leftarrow> copy2 y; ret (x', y') })"
proof -
  note d1 = deep_copyable.owned [OF assms(1)] deep_copyable.frame [OF assms(1)]
    deep_copyable.copies [OF assms(1)] deep_copyable.extend [OF assms(1)]
  note d2 = deep_copyable.owned [OF assms(2)] deep_copyable.frame [OF assms(2)]
    deep_copyable.copies [OF assms(2)] deep_copyable.extend [OF assms(2)]
  show ?thesis
  proof (unfold_locales, goal_cases)
    case (1 s x a)
    then show ?case using d1(1) d2(1) by (cases x) auto
  next
    case (2 s x s')
    then show ?case using d1(2) [of s _ s'] d2(2) [of s _ s'] by (cases x) auto
  next
    case (3 s p q s')
    obtain x y where p: "p = (x, y)" by fastforce
    obtain x' s1 where r1: "run_state (copy1 x) s = (x', s1)" by fastforce
    obtain y' s2 where r2: "run_state (copy2 y) s1 = (y', s2)" by fastforce
    from 3(1) p have ok: "ok1 s x" "ok2 s y" by auto
    from 3(2) r1 r2 p have q: "q = (x', y')" "s' = s2" by auto
    from d1(3) [OF ok(1) r1] obtain t1 where
      t1: "s1 = s @ t1" "ok1 s1 x'" "view1 s1 x' = view1 s x" "refs1 s1 x' \<subseteq> {length s..<length s1}" by blast
    from d2(4) [OF ok(2), of t1] t1(1) have y: "ok2 s1 y" "view2 s1 y = view2 s y" by simp_all
    from d2(3) [OF y(1) r2] obtain t2 where
      t2: "s2 = s1 @ t2" "ok2 s2 y'" "view2 s2 y' = view2 s1 y" "refs2 s2 y' \<subseteq> {length s1..<length s2}" by blast
    from d1(4) [OF t1(2), of t2] t1 t2 y(2) p q show ?case by (auto simp: subset_iff)
  qed
qed

text \<open>A struct, through the tuple of its fields that refer to memory.\<close>

lemma struct_copyable:
  assumes "deep_copyable view ok refs copier"
    and "\<And>x p. get (put x p) = p" and "\<And>x p v. mk (put x p) v = mk x v"
    and "\<And>s x. view' s x = mk x (view s (get x))" and "\<And>s x. ok' s x = ok s (get x)"
    and "\<And>s x. refs' s x = refs s (get x)" and "\<And>x. into x = do { p \<leftarrow> copier (get x); ret (put x p) }"
  shows "deep_copyable view' ok' refs' into"
proof -
  note d = deep_copyable.owned [OF assms(1)] deep_copyable.frame [OF assms(1)] deep_copyable.copies [OF assms(1)]
  show ?thesis
  proof (unfold_locales, goal_cases)
    case (1 s x a)
    then show ?case unfolding assms by (rule d(1))
  next
    case (2 s x s')
    then show ?case using d(2) [of s "get x" s'] by (simp add: assms)
  next
    case (3 s x y s')
    then show ?case using d(3) [of s "get x"] by (fastforce simp: assms split: prod.splits)
  qed
qed

text \<open>A pointer.\<close>

definition ptr_view :: "('f, 'a) kind \<Rightarrow> ('f store \<Rightarrow> 'a \<Rightarrow> 'v) \<Rightarrow> 'f store \<Rightarrow> addr \<Rightarrow> 'v" where
  "ptr_view K view s a = view s (deref K s a)"

definition ptr_ok :: "('f, 'a) kind \<Rightarrow> ('f store \<Rightarrow> 'a \<Rightarrow> bool) \<Rightarrow> 'f store \<Rightarrow> addr \<Rightarrow> bool" where
  "ptr_ok K ok s a \<longleftrightarrow> holds K s a \<and> ok s (deref K s a)"

definition ptr_refs :: "('f, 'a) kind \<Rightarrow> ('f store \<Rightarrow> 'a \<Rightarrow> addr set) \<Rightarrow> 'f store \<Rightarrow> addr \<Rightarrow> addr set" where
  "ptr_refs K refs s a = insert a (refs s (deref K s a))"

lemma new_copyable:
  assumes K: "lawful K" and into: "deep_copyable view ok refs into"
  shows "deep_copyable (ptr_view K view) (ptr_ok K ok) (ptr_refs K refs) (new_copy K into)"
proof -
  note d = deep_copyable.owned [OF into] deep_copyable.frame [OF into] deep_copyable.copies [OF into]
    deep_copyable.extend [OF into]
  show ?thesis
  proof (unfold_locales, goal_cases)
    case (1 s p a)
    then show ?case using d(1) by (auto simp: ptr_ok_def ptr_refs_def dest: holds_less)
  next
    case (2 s p s')
    then have "holds K s' p \<and> deref K s' p = deref K s p"
      using cell_agrees [of s' p s K] by (simp add: ptr_ok_def ptr_refs_def)
    with 2 d(2) [of s "deref K s p" s'] show ?case
      by (simp add: ptr_ok_def ptr_refs_def ptr_view_def)
  next
    case (3 s p q s')
    let ?x = "deref K s p" and ?s1 = "s @ [box K (zero_val K)]"
    from 3(1) have p: "p < length s" "ok s ?x" by (auto simp: ptr_ok_def dest: holds_less)
    obtain y s2 where run: "run_state (into ?x) ?s1 = (y, s2)" by fastforce
    from d(4) [OF p(2)] have "ok ?s1 ?x" "view ?s1 ?x = view s ?x" by simp_all
    with d(3) [OF _ run] obtain t where
      t: "s2 = ?s1 @ t" "ok s2 y" "view s2 y = view s ?x" "refs s2 y \<subseteq> {length ?s1..<length s2}" by auto
    from 3(2) p run have q: "q = length s" "s' = s2[length s := box K y]"
      by (auto simp: new_copy_def run_simps)
    with t(1) have s': "s' = s @ box K y # t" by simp
    have "a < length s' \<and> s' ! a = s2 ! a" if "a \<in> refs s2 y" for a
      using that t(4) q(2) by auto
    from d(2) [OF t(2) this] t(3,4) q(2) have
      y: "ok s' y" "view s' y = view s ?x" "refs s' y \<subseteq> {length s..<length s'}" by auto
    with K q(1) s' show ?case
      by (auto simp: ptr_ok_def ptr_view_def ptr_refs_def)
  qed
qed

text \<open>A slice.\<close>

definition slice_view :: "('f, 'a list) kind \<Rightarrow> ('f store \<Rightarrow> 'a \<Rightarrow> 'v) \<Rightarrow> 'f store \<Rightarrow> slice \<Rightarrow> 'v list" where
  "slice_view K view s sl = List.map (view s) (elems K s sl)"

definition slice_ok :: "('f, 'a list) kind \<Rightarrow> ('f store \<Rightarrow> 'a \<Rightarrow> bool) \<Rightarrow> 'f store \<Rightarrow> slice \<Rightarrow> bool" where
  "slice_ok K ok s sl \<longleftrightarrow> holds K s (sl_array sl) \<and>
     sl_off sl + sl_len sl \<le> length (deref K s (sl_array sl)) \<and> list_all (ok s) (elems K s sl)"

definition slice_refs :: "('f, 'a list) kind \<Rightarrow> ('f store \<Rightarrow> 'a \<Rightarrow> addr set) \<Rightarrow> 'f store \<Rightarrow> slice \<Rightarrow> addr set" where
  "slice_refs K refs s sl = insert (sl_array sl) (\<Union>x \<in> set (elems K s sl). refs s x)"

lemma elems_agree:
  "deref K s' (sl_array sl) = deref K s (sl_array sl) \<Longrightarrow> elems K s' sl = elems K s sl"
  by (simp add: elems_def)

lemma length_elems: "slice_ok K ok s sl \<Longrightarrow> length (elems K s sl) = sl_len sl"
  by (auto simp: elems_def slice_ok_def)

lemma go_copy_all [simp]: "length src = length dst \<Longrightarrow> go_copy dst src = src"
  by (simp add: go_copy_def)

lemma slice_owned:
  assumes "\<And>s x a. ok s x \<Longrightarrow> a \<in> refs s x \<Longrightarrow> a < length s"
    and "slice_ok K ok s sl" and "a \<in> slice_refs K refs s sl"
  shows "a < length s"
  using assms by (auto simp: slice_ok_def slice_refs_def list_all_iff dest: holds_less)

lemma slice_frame:
  assumes "\<And>x. ok s x \<Longrightarrow> (\<And>a. a \<in> refs s x \<Longrightarrow> a < length s' \<and> s' ! a = s ! a) \<Longrightarrow>
      ok s' x \<and> view s' x = view s x \<and> refs s' x = refs s x"
    and "slice_ok K ok s sl"
    and "\<And>a. a \<in> slice_refs K refs s sl \<Longrightarrow> a < length s' \<and> s' ! a = s ! a"
  shows "slice_ok K ok s' sl \<and> slice_view K view s' sl = slice_view K view s sl \<and>
         slice_refs K refs s' sl = slice_refs K refs s sl"
proof -
  have arr: "holds K s' (sl_array sl)" "deref K s' (sl_array sl) = deref K s (sl_array sl)"
    using assms(2,3) cell_agrees [of s' "sl_array sl" s K] by (auto simp: slice_ok_def slice_refs_def)
  note els = elems_agree [OF arr(2)]
  have "ok s' x \<and> view s' x = view s x \<and> refs s' x = refs s x" if "x \<in> set (elems K s sl)" for x
    using that assms(2,3) by (intro assms(1)) (auto simp: slice_ok_def slice_refs_def list_all_iff)
  with assms(2) arr els show ?thesis
    by (auto simp: slice_ok_def slice_view_def slice_refs_def list_all_iff)
qed

lemma make_copyable:
  assumes K: "lawful K"
  shows "deep_copyable (slice_view K itself) (slice_ok K flat_ok) (slice_refs K no_refs) (make_copy K z)"
proof (unfold_locales, goal_cases)
  case (1 s sl a)
  then show ?case by (rule slice_owned [rotated]) simp
next
  case (2 s sl s')
  then show ?case by (intro slice_frame) auto
next
  case (3 s sl out s')
  let ?s1 = "s @ [box K (replicate (sl_len sl) z)]"
  from 3(1) have arr: "sl_array sl < length s" by (auto simp: slice_ok_def dest: holds_less)
  then have src: "elems K ?s1 sl = elems K s sl" by (intro elems_agree) simp
  from K have "deref K ?s1 (length s) = replicate (sl_len sl) z" by simp
  with 3(2) src length_elems [OF 3(1)] have
    "s' = s @ [box K (elems K s sl)]" "out = \<lparr>sl_array = length s, sl_off = 0, sl_len = sl_len sl\<rparr>"
    by (auto simp: make_copy_def run_simps)
  with K length_elems [OF 3(1)] show ?case
    by (auto simp: slice_ok_def slice_view_def slice_refs_def elems_def list_all_iff)
qed

lemma for_each_append: "for_each f (xs @ ys) = do { _ \<leftarrow> for_each f xs; for_each f ys }"
  by (induction xs) (simp_all add: State_Monad.bind_assoc)

text \<open>The loop over the elements, after \<open>i\<close> rounds: the first \<open>i\<close> are copies, the rest still zero.\<close>

lemma fill_invariant:
  fixes K :: "('f, 'a list) kind"
  assumes K: "lawful K" and into: "deep_copyable view ok refs into" and sl: "slice_ok K ok s sl"
    and "i \<le> sl_len sl"
  shows "\<exists>ys t. world_after (for_each (\<lambda>i. do { x \<leftarrow> load_elem K sl i; y \<leftarrow> into x; put_elem K (length s) i y }) [0..<i])
        (s @ [box K (replicate (sl_len sl) z)]) = s @ box K (ys @ replicate (sl_len sl - i) z) # t \<and> length ys = i \<and>
      (\<forall>j<i. \<forall>s'. s' = s @ box K (ys @ replicate (sl_len sl - i) z) # t \<longrightarrow>
         ok s' (ys ! j) \<and> view s' (ys ! j) = view s (elems K s sl ! j) \<and>
         refs s' (ys ! j) \<subseteq> {length s<..<length s'})"
  (is "\<exists>ys t. world_after (for_each ?body _) _ = _ \<and> _")
  using \<open>i \<le> sl_len sl\<close>
proof (induction i)
  case 0
  show ?case by (rule exI [of _ "[]"], rule exI [of _ "[]"]) simp
next
  case (Suc i)
  note d = deep_copyable.owned [OF into] deep_copyable.frame [OF into] deep_copyable.copies [OF into]
    deep_copyable.extend [OF into]
  let ?n = "sl_len sl"
  from Suc obtain ys t where
    loop: "world_after (for_each ?body [0..<i]) (s @ [box K (replicate ?n z)]) = s @ box K (ys @ replicate (?n - i) z) # t"
    and len: "length ys = i"
    and inv: "\<And>j. j < i \<Longrightarrow> ok (s @ box K (ys @ replicate (?n - i) z) # t) (ys ! j) \<and>
       view (s @ box K (ys @ replicate (?n - i) z) # t) (ys ! j) = view s (elems K s sl ! j) \<and>
       refs (s @ box K (ys @ replicate (?n - i) z) # t) (ys ! j) \<subseteq> {length s<..<length (s @ box K (ys @ replicate (?n - i) z) # t)}"
    by auto
  let ?s1 = "s @ box K (ys @ replicate (?n - i) z) # t" and ?x = "elems K s sl ! i"
  from sl have arr: "sl_array sl < length s" by (auto simp: slice_ok_def dest: holds_less)
  then have x: "elems K ?s1 sl ! i = ?x" by (simp add: elems_def)
  from sl Suc.prems have "?x \<in> set (elems K s sl)" by (simp add: length_elems)
  with sl have "ok s ?x" by (auto simp: slice_ok_def list_all_iff)
  from d(4) [OF this] have ok1: "ok ?s1 ?x" "view ?s1 ?x = view s ?x" by simp_all
  obtain y s2 where run: "run_state (into ?x) ?s1 = (y, s2)" by fastforce
  from d(3) [OF ok1(1) run] obtain t2 where
    t2: "s2 = ?s1 @ t2" "ok s2 y" "view s2 y = view s ?x" "refs s2 y \<subseteq> {length ?s1..<length s2}"
    using ok1(2) by auto
  let ?zs = "(ys @ [y]) @ replicate (?n - Suc i) z" and ?t = "t @ t2"
  let ?s3 = "s @ box K ?zs # ?t"
  have "(ys @ replicate (?n - i) z)[i := y] = ?zs"
    using len Suc.prems by (simp add: list_update_append Suc_diff_Suc [symmetric])
  with K t2(1) have s3: "s2[length s := box K ((deref K s2 (length s))[i := y])] = ?s3" by simp
  have step: "world_after (for_each ?body [0..<Suc i]) (s @ [box K (replicate ?n z)]) = ?s3"
    using loop run x s3 by (auto simp: for_each_append run_simps split: prod.splits)
  have keep: "ok ?s3 v \<and> view ?s3 v = view s2 v \<and> refs ?s3 v = refs s2 v"
    if "ok s2 v" "refs s2 v \<subseteq> {length s<..<length s2}" for v
    using that t2(1) by (intro d(2)) (auto simp: subset_iff nth_append nth_Cons')
  have y_refs: "refs s2 y \<subseteq> {length s<..<length s2}" using t2(1,4) by auto
  have "ok ?s3 ((ys @ [y]) ! j) \<and> view ?s3 ((ys @ [y]) ! j) = view s (elems K s sl ! j) \<and>
      refs ?s3 ((ys @ [y]) ! j) \<subseteq> {length s<..<length ?s3}" if "j < Suc i" for j
  proof (cases "j = i")
    case True
    with keep [OF t2(2) y_refs] t2(1,3) y_refs len show ?thesis by (simp add: nth_append)
  next
    case False
    with that len have j: "j < i" "(ys @ [y]) ! j = ys ! j" by (auto simp: nth_append)
    from d(4) [of ?s1 "ys ! j" t2] inv [OF j(1)] t2(1) have
      "ok s2 (ys ! j)" "view s2 (ys ! j) = view s (elems K s sl ! j)" "refs s2 (ys ! j) \<subseteq> {length s<..<length s2}"
      by auto
    with keep [of "ys ! j"] j(2) t2(1) show ?thesis by simp
  qed
  then show ?case using step len
    by (intro exI [of _ "ys @ [y]"] exI [of _ ?t]) auto
qed

lemma each_copyable:
  assumes K: "lawful K" and into: "deep_copyable view ok refs into"
  shows "deep_copyable (slice_view K view) (slice_ok K ok) (slice_refs K refs) (make_each K z into)"
proof (unfold_locales, goal_cases)
  case (1 s sl a)
  then show ?case by (rule slice_owned [rotated]) (rule deep_copyable.owned [OF into])
next
  case (2 s sl s')
  then show ?case by (intro slice_frame deep_copyable.frame [OF into])
next
  case (3 s sl out s')
  let ?n = "sl_len sl"
  from fill_invariant [OF K into 3(1), of ?n z] obtain ys t where
    loop: "world_after (for_each (\<lambda>i. do { x \<leftarrow> load_elem K sl i; y \<leftarrow> into x; put_elem K (length s) i y }) [0..<?n])
        (s @ [box K (replicate ?n z)]) = s @ box K ys # t" and len: "length ys = ?n"
    and inv: "\<And>j. j < ?n \<Longrightarrow> ok (s @ box K ys # t) (ys ! j) \<and>
       view (s @ box K ys # t) (ys ! j) = view s (elems K s sl ! j) \<and>
       refs (s @ box K ys # t) (ys ! j) \<subseteq> {length s<..<length (s @ box K ys # t)}"
    by auto
  let ?s = "s @ box K ys # t"
  from 3(2) loop have out: "s' = ?s" "out = \<lparr>sl_array = length s, sl_off = 0, sl_len = ?n\<rparr>"
    by (auto simp: make_each_def run_simps split: prod.splits)
  with K len have els: "elems K ?s out = ys" by (simp add: elems_def)
  have "List.map (view ?s) ys = List.map (view s) (elems K s sl)"
    using inv len length_elems [OF 3(1)] by (intro nth_equalityI) auto
  moreover have "list_all (ok ?s) ys" using inv len by (simp add: list_all_length)
  moreover have "\<forall>x\<in>set ys. refs ?s x \<subseteq> {length s..<length ?s}"
    using inv len by (fastforce simp: in_set_conv_nth subset_iff)
  ultimately show ?case using K len out els
    by (auto simp: slice_ok_def slice_view_def slice_refs_def subset_iff)
qed

text \<open>A map: it is read as a function from keys to values.\<close>

definition map_view :: "'f store \<Rightarrow> addr \<Rightarrow> (string \<rightharpoonup> string)" where
  "map_view s a = map_of (deref map_kind s a)"

definition map_ok :: "'f store \<Rightarrow> addr \<Rightarrow> bool" where
  "map_ok s a \<longleftrightarrow> holds map_kind s a \<and> distinct (List.map fst (deref map_kind s a))"

lemma lawful_map [simp]: "lawful map_kind" and box_map [simp]: "box map_kind = StringMap"
  by (simp_all add: lawful_def map_kind_def)

lemma put_entries:
  "run_state (for_each (put_entry (length s)) m) (s @ [StringMap m0]) =
     ((), s @ [StringMap (foldl (\<lambda>m e. AList.update (fst e) (snd e) m) m0 m)])"
proof (induction m arbitrary: m0)
  case Nil
  show ?case by simp
next
  case (Cons e m)
  have "deref map_kind (s @ [StringMap m0]) (length s) = m0"
    using deref_simps(3) [OF lawful_map, of s m0 "[]"] by simp
  with Cons show ?case by (simp add: put_entry_def)
qed

lemma update_new_key: "k \<notin> fst ` set m \<Longrightarrow> AList.update k v m = m @ [(k, v)]"
  by (induction m) auto

lemma updates_fresh:
  "distinct (List.map fst (m0 @ m)) \<Longrightarrow> foldl (\<lambda>m e. AList.update (fst e) (snd e) m) m0 m = m0 @ m"
proof (induction m arbitrary: m0)
  case Nil
  show ?case by simp
next
  case (Cons e m)
  then have "AList.update (fst e) (snd e) m0 = m0 @ [e]" by (simp add: update_new_key)
  with Cons.IH [of "m0 @ [e]"] Cons.prems show ?case by simp
qed

lemma map_copyable: "deep_copyable map_view map_ok (\<lambda>s a. {a}) make_map"
proof (unfold_locales, goal_cases)
  case (1 s p a)
  then show ?case by (auto simp: map_ok_def dest: holds_less)
next
  case (2 s p s')
  then show ?case using cell_agrees [of s' p s map_kind] by (auto simp: map_ok_def map_view_def)
next
  case (3 s p q s')
  let ?m = "deref map_kind s p"
  from 3(1) have "p < length s" "distinct (List.map fst ?m)" by (auto simp: map_ok_def dest: holds_less)
  with 3(2) put_entries [of s ?m "[]"] updates_fresh [of "[]" ?m] have "q = length s" "s' = s @ [StringMap ?m]"
    by (auto simp: make_map_def run_simps)
  then show ?case
    using 3(1) deref_simps(3) [OF lawful_map, of s ?m "[]"] holds_simps(2) [OF lawful_map, of s ?m "[]"]
    by (simp add: map_ok_def map_view_def)
qed

end
