(* ===== verification/Deep_Copy.thy ===== *)
theory Deep_Copy
  imports Memory
begin

text \<open>
  api/v1alpha1/zz\_generated.deepcopy.go: the \<^verbatim>\<open>DeepCopyInto\<close>, \<^verbatim>\<open>DeepCopy\<close> and \<^verbatim>\<open>DeepCopyObject\<close> methods
  of the custom resources, on the store of theory Memory. The types of apimachinery that the resources embed
  are opaque (\<open>'f\<close>), and their own \<^verbatim>\<open>DeepCopyInto\<close> is a parameter, as documented: it copies deeply.
\<close>

section \<open>The kinds of cells\<close>

text \<open>The zero values of the structs; \<open>z\<close> is the zero value of a type of apimachinery.\<close>

definition zero_expiration :: LifecycleExpiration where
  "zero_expiration = \<lparr>expiration_Days = 0\<rparr>"

definition zero_rule :: LifecycleRule where
  "zero_rule = \<lparr>rule_ID = [], rule_Status = [], rule_Prefix = [], rule_Expiration = zero_expiration\<rparr>"

definition zero_target :: ReplicationTarget where
  "zero_target = \<lparr>target_Endpoint = [], target_BucketName = [], target_AccessKey = [],
     target_SecretKey = [], target_UseSSL = False\<rparr>"

definition zero_oref :: ObjectReference where
  "zero_oref = \<lparr>oref_Name = [], oref_Namespace = []\<rparr>"

definition zero_sref :: SecretReference where
  "zero_sref = \<lparr>sref_Name = [], sref_Namespace = []\<rparr>"

definition zero_policy :: BucketPolicyRef where
  "zero_policy = \<lparr>policy_Kind = [], policy_Namespace = [], policy_Name = [], policy_Key = []\<rparr>"

definition zero_type :: TypeMeta where
  "zero_type = \<lparr>type_Kind = [], type_APIVersion = []\<rparr>"

definition zero_spec_mem :: spec_mem where
  "zero_spec_mem = \<lparr>m_BucketClassName = [], m_Protocols = None, m_SpecBucketName = [], m_Quota = None,
     m_AccessType = [], m_LifecycleRules = None, m_ReplicationTarget = None\<rparr>"

definition zero_status_mem :: status_mem where
  "zero_status_mem = \<lparr>m_Conditions = None, m_BucketReady = False, m_SecretReference = None,
     m_Endpoint = [], m_StatusBucketName = [], m_Phase = []\<rparr>"

definition zero_claim_mem :: "'f \<Rightarrow> 'f claim_mem" where
  "zero_claim_mem z = \<lparr>m_ClaimType = zero_type, m_ClaimMeta = z, m_Spec = zero_spec_mem, m_Status = zero_status_mem\<rparr>"

definition zero_class_mem :: "'f \<Rightarrow> 'f class_mem" where
  "zero_class_mem z = \<lparr>m_ClassType = zero_type, m_ClassMeta = z, m_DriverName = [], m_Backend = [],
     m_DeletionPolicy = [], m_ObjectLockingEnabled = False, m_RetentionMode = [], m_RetentionDays = 0,
     m_Parameters = None, m_BucketPolicyRef = None, m_MinioCredentialSecretRef = None,
     m_AwsCredentialSecretRef = None\<rparr>"

definition zero_list_mem :: "'f \<Rightarrow> 'f list_mem" where
  "zero_list_mem z = \<lparr>m_ListType = zero_type, m_ListMeta = z, m_Items = None\<rparr>"

definition strings_kind :: "('f, string list) kind" where
  "strings_kind = \<lparr>box = StringArray, unbox = (\<lambda>c. case c of StringArray x \<Rightarrow> Some x | _ \<Rightarrow> None), zero_val = []\<rparr>"

definition rules_kind :: "('f, LifecycleRule list) kind" where
  "rules_kind = \<lparr>box = RuleArray, unbox = (\<lambda>c. case c of RuleArray x \<Rightarrow> Some x | _ \<Rightarrow> None), zero_val = []\<rparr>"

definition foreigns_kind :: "('f, 'f list) kind" where
  "foreigns_kind = \<lparr>box = ForeignArray, unbox = (\<lambda>c. case c of ForeignArray x \<Rightarrow> Some x | _ \<Rightarrow> None), zero_val = []\<rparr>"

definition expiration_kind :: "('f, LifecycleExpiration) kind" where
  "expiration_kind = \<lparr>box = ExpirationCell, unbox = (\<lambda>c. case c of ExpirationCell x \<Rightarrow> Some x | _ \<Rightarrow> None), zero_val = zero_expiration\<rparr>"

definition rule_kind :: "('f, LifecycleRule) kind" where
  "rule_kind = \<lparr>box = RuleCell, unbox = (\<lambda>c. case c of RuleCell x \<Rightarrow> Some x | _ \<Rightarrow> None), zero_val = zero_rule\<rparr>"

definition target_kind :: "('f, ReplicationTarget) kind" where
  "target_kind = \<lparr>box = TargetCell, unbox = (\<lambda>c. case c of TargetCell x \<Rightarrow> Some x | _ \<Rightarrow> None), zero_val = zero_target\<rparr>"

definition oref_kind :: "('f, ObjectReference) kind" where
  "oref_kind = \<lparr>box = ObjectReferenceCell, unbox = (\<lambda>c. case c of ObjectReferenceCell x \<Rightarrow> Some x | _ \<Rightarrow> None), zero_val = zero_oref\<rparr>"

definition sref_kind :: "('f, SecretReference) kind" where
  "sref_kind = \<lparr>box = SecretReferenceCell, unbox = (\<lambda>c. case c of SecretReferenceCell x \<Rightarrow> Some x | _ \<Rightarrow> None), zero_val = zero_sref\<rparr>"

definition policy_kind :: "('f, BucketPolicyRef) kind" where
  "policy_kind = \<lparr>box = PolicyRefCell, unbox = (\<lambda>c. case c of PolicyRefCell x \<Rightarrow> Some x | _ \<Rightarrow> None), zero_val = zero_policy\<rparr>"

definition spec_kind :: "('f, spec_mem) kind" where
  "spec_kind = \<lparr>box = SpecCell, unbox = (\<lambda>c. case c of SpecCell x \<Rightarrow> Some x | _ \<Rightarrow> None), zero_val = zero_spec_mem\<rparr>"

definition status_kind :: "('f, status_mem) kind" where
  "status_kind = \<lparr>box = StatusCell, unbox = (\<lambda>c. case c of StatusCell x \<Rightarrow> Some x | _ \<Rightarrow> None), zero_val = zero_status_mem\<rparr>"

definition foreign_kind :: "'f \<Rightarrow> ('f, 'f) kind" where
  "foreign_kind z = \<lparr>box = ForeignCell, unbox = (\<lambda>c. case c of ForeignCell x \<Rightarrow> Some x | _ \<Rightarrow> None), zero_val = z\<rparr>"

definition claims_kind :: "('f, 'f claim_mem list) kind" where
  "claims_kind = \<lparr>box = ClaimArray, unbox = (\<lambda>c. case c of ClaimArray x \<Rightarrow> Some x | _ \<Rightarrow> None), zero_val = []\<rparr>"

definition classes_kind :: "('f, 'f class_mem list) kind" where
  "classes_kind = \<lparr>box = ClassArray, unbox = (\<lambda>c. case c of ClassArray x \<Rightarrow> Some x | _ \<Rightarrow> None), zero_val = []\<rparr>"

definition claim_kind :: "'f \<Rightarrow> ('f, 'f claim_mem) kind" where
  "claim_kind z = \<lparr>box = ClaimCell, unbox = (\<lambda>c. case c of ClaimCell x \<Rightarrow> Some x | _ \<Rightarrow> None), zero_val = zero_claim_mem z\<rparr>"

definition class_kind :: "'f \<Rightarrow> ('f, 'f class_mem) kind" where
  "class_kind z = \<lparr>box = ClassCell, unbox = (\<lambda>c. case c of ClassCell x \<Rightarrow> Some x | _ \<Rightarrow> None), zero_val = zero_class_mem z\<rparr>"

definition claimlist_kind :: "'f \<Rightarrow> ('f, 'f list_mem) kind" where
  "claimlist_kind z = \<lparr>box = ClaimListCell, unbox = (\<lambda>c. case c of ClaimListCell x \<Rightarrow> Some x | _ \<Rightarrow> None), zero_val = zero_list_mem z\<rparr>"

definition classlist_kind :: "'f \<Rightarrow> ('f, 'f list_mem) kind" where
  "classlist_kind z = \<lparr>box = ClassListCell, unbox = (\<lambda>c. case c of ClassListCell x \<Rightarrow> Some x | _ \<Rightarrow> None), zero_val = zero_list_mem z\<rparr>"

lemma lawful_kinds [simp]:
  "lawful strings_kind"
  "lawful rules_kind"
  "lawful foreigns_kind"
  "lawful expiration_kind"
  "lawful rule_kind"
  "lawful target_kind"
  "lawful oref_kind"
  "lawful sref_kind"
  "lawful policy_kind"
  "lawful spec_kind"
  "lawful status_kind"
  "lawful (foreign_kind z)"
  "lawful claims_kind"
  "lawful classes_kind"
  "lawful (claim_kind z)"
  "lawful (class_kind z)"
  "lawful (claimlist_kind z)"
  "lawful (classlist_kind z)"
  by (simp_all add: lawful_def strings_kind_def rules_kind_def foreigns_kind_def expiration_kind_def rule_kind_def target_kind_def oref_kind_def sref_kind_def policy_kind_def spec_kind_def status_kind_def foreign_kind_def claims_kind_def classes_kind_def claim_kind_def class_kind_def claimlist_kind_def classlist_kind_def)

section \<open>The generated methods\<close>

text \<open>
  The types of apimachinery that the resources embed, and the \<^verbatim>\<open>DeepCopyInto\<close> of each. \<^verbatim>\<open>*out = *in\<close>
  copies the struct; the result of a \<^verbatim>\<open>DeepCopyInto\<close> here is the value it leaves in \<^verbatim>\<open>*out\<close>, a
  variable other than \<^verbatim>\<open>*in\<close>.
\<close>

record 'f apimachinery =
  ObjectMeta_DeepCopyInto :: "'f \<Rightarrow> ('f store, 'f) state"
  ListMeta_DeepCopyInto :: "'f \<Rightarrow> ('f store, 'f) state"
  Quantity_DeepCopyInto :: "'f \<Rightarrow> ('f store, 'f) state"
  Condition_DeepCopyInto :: "'f \<Rightarrow> ('f store, 'f) state"
  foreign_zero :: 'f

definition LifecycleExpiration_DeepCopyInto :: "LifecycleExpiration \<Rightarrow> ('f store, LifecycleExpiration) state" where
  "LifecycleExpiration_DeepCopyInto x = ret x"

definition LifecycleRule_DeepCopyInto :: "LifecycleRule \<Rightarrow> ('f store, LifecycleRule) state" where
  "LifecycleRule_DeepCopyInto x = (let out = x in ret (out\<lparr>rule_Expiration := rule_Expiration x\<rparr>))"

definition ReplicationTarget_DeepCopyInto :: "ReplicationTarget \<Rightarrow> ('f store, ReplicationTarget) state" where
  "ReplicationTarget_DeepCopyInto x = ret x"

definition BucketClaimSpec_DeepCopyInto :: "'f apimachinery \<Rightarrow> spec_mem \<Rightarrow> ('f store, spec_mem) state" where
  "BucketClaimSpec_DeepCopyInto lib x = do {
     protocols \<leftarrow> if_set (make_copy strings_kind []) (m_Protocols x);
     quota \<leftarrow> if_set (new_copy (foreign_kind (foreign_zero lib)) (Quantity_DeepCopyInto lib)) (m_Quota x);
     rules \<leftarrow> if_set (make_copy rules_kind zero_rule) (m_LifecycleRules x);
     target \<leftarrow> if_set (new_copy target_kind ret) (m_ReplicationTarget x);
     ret (x\<lparr>m_Protocols := protocols, m_Quota := quota, m_LifecycleRules := rules,
       m_ReplicationTarget := target\<rparr>) }"

definition BucketClaimStatus_DeepCopyInto :: "'f apimachinery \<Rightarrow> status_mem \<Rightarrow> ('f store, status_mem) state" where
  "BucketClaimStatus_DeepCopyInto lib x = do {
     conditions \<leftarrow> if_set (make_each foreigns_kind (foreign_zero lib) (Condition_DeepCopyInto lib)) (m_Conditions x);
     secret \<leftarrow> if_set (new_copy oref_kind ret) (m_SecretReference x);
     ret (x\<lparr>m_Conditions := conditions, m_SecretReference := secret\<rparr>) }"

definition BucketClaim_DeepCopyInto :: "'f apimachinery \<Rightarrow> 'f claim_mem \<Rightarrow> ('f store, 'f claim_mem) state" where
  "BucketClaim_DeepCopyInto lib x = do {
     meta \<leftarrow> ObjectMeta_DeepCopyInto lib (m_ClaimMeta x);
     spec \<leftarrow> BucketClaimSpec_DeepCopyInto lib (m_Spec x);
     status \<leftarrow> BucketClaimStatus_DeepCopyInto lib (m_Status x);
     ret (x\<lparr>m_ClaimType := m_ClaimType x, m_ClaimMeta := meta, m_Spec := spec, m_Status := status\<rparr>) }"

definition BucketClaimList_DeepCopyInto :: "'f apimachinery \<Rightarrow> 'f list_mem \<Rightarrow> ('f store, 'f list_mem) state" where
  "BucketClaimList_DeepCopyInto lib x = do {
     meta \<leftarrow> ListMeta_DeepCopyInto lib (m_ListMeta x);
     items \<leftarrow> if_set (make_each claims_kind (zero_claim_mem (foreign_zero lib)) (BucketClaim_DeepCopyInto lib)) (m_Items x);
     ret (x\<lparr>m_ListType := m_ListType x, m_ListMeta := meta, m_Items := items\<rparr>) }"

definition BucketClass_DeepCopyInto :: "'f apimachinery \<Rightarrow> 'f class_mem \<Rightarrow> ('f store, 'f class_mem) state" where
  "BucketClass_DeepCopyInto lib x = do {
     meta \<leftarrow> ObjectMeta_DeepCopyInto lib (m_ClassMeta x);
     policy \<leftarrow> if_set (new_copy policy_kind ret) (m_BucketPolicyRef x);
     minio \<leftarrow> if_set (new_copy sref_kind ret) (m_MinioCredentialSecretRef x);
     aws \<leftarrow> if_set (new_copy sref_kind ret) (m_AwsCredentialSecretRef x);
     params \<leftarrow> if_set make_map (m_Parameters x);
     ret (x\<lparr>m_ClassType := m_ClassType x, m_ClassMeta := meta, m_BucketPolicyRef := policy,
       m_MinioCredentialSecretRef := minio, m_AwsCredentialSecretRef := aws, m_Parameters := params\<rparr>) }"

definition BucketClassList_DeepCopyInto :: "'f apimachinery \<Rightarrow> 'f list_mem \<Rightarrow> ('f store, 'f list_mem) state" where
  "BucketClassList_DeepCopyInto lib x = do {
     meta \<leftarrow> ListMeta_DeepCopyInto lib (m_ListMeta x);
     items \<leftarrow> if_set (make_each classes_kind (zero_class_mem (foreign_zero lib)) (BucketClass_DeepCopyInto lib)) (m_Items x);
     ret (x\<lparr>m_ListType := m_ListType x, m_ListMeta := meta, m_Items := items\<rparr>) }"

text \<open>\<^verbatim>\<open>DeepCopy\<close>: nil for nil, otherwise a new struct filled from the receiver.\<close>

definition LifecycleExpiration_DeepCopy :: "addr option \<Rightarrow> ('f store, addr option) state" where
  "LifecycleExpiration_DeepCopy p = if_set (new_copy expiration_kind LifecycleExpiration_DeepCopyInto) p"

definition LifecycleRule_DeepCopy :: "addr option \<Rightarrow> ('f store, addr option) state" where
  "LifecycleRule_DeepCopy p = if_set (new_copy rule_kind LifecycleRule_DeepCopyInto) p"

definition ReplicationTarget_DeepCopy :: "addr option \<Rightarrow> ('f store, addr option) state" where
  "ReplicationTarget_DeepCopy p = if_set (new_copy target_kind ReplicationTarget_DeepCopyInto) p"

definition BucketClaimSpec_DeepCopy :: "'f apimachinery \<Rightarrow> addr option \<Rightarrow> ('f store, addr option) state" where
  "BucketClaimSpec_DeepCopy lib p = if_set (new_copy spec_kind (BucketClaimSpec_DeepCopyInto lib)) p"

definition BucketClaimStatus_DeepCopy :: "'f apimachinery \<Rightarrow> addr option \<Rightarrow> ('f store, addr option) state" where
  "BucketClaimStatus_DeepCopy lib p = if_set (new_copy status_kind (BucketClaimStatus_DeepCopyInto lib)) p"

definition BucketClaim_DeepCopy :: "'f apimachinery \<Rightarrow> addr option \<Rightarrow> ('f store, addr option) state" where
  "BucketClaim_DeepCopy lib p = if_set (new_copy (claim_kind (foreign_zero lib)) (BucketClaim_DeepCopyInto lib)) p"

definition BucketClaimList_DeepCopy :: "'f apimachinery \<Rightarrow> addr option \<Rightarrow> ('f store, addr option) state" where
  "BucketClaimList_DeepCopy lib p = if_set (new_copy (claimlist_kind (foreign_zero lib)) (BucketClaimList_DeepCopyInto lib)) p"

definition BucketClass_DeepCopy :: "'f apimachinery \<Rightarrow> addr option \<Rightarrow> ('f store, addr option) state" where
  "BucketClass_DeepCopy lib p = if_set (new_copy (class_kind (foreign_zero lib)) (BucketClass_DeepCopyInto lib)) p"

definition BucketClassList_DeepCopy :: "'f apimachinery \<Rightarrow> addr option \<Rightarrow> ('f store, addr option) state" where
  "BucketClassList_DeepCopy lib p = if_set (new_copy (classlist_kind (foreign_zero lib)) (BucketClassList_DeepCopyInto lib)) p"

text \<open>
  \<^verbatim>\<open>runtime.Object\<close> is an interface: nil, or a dynamic type with a pointer, which may itself be nil.
\<close>

datatype Object =
    BucketClaim_Object "addr option"
  | BucketClaimList_Object "addr option"
  | BucketClass_Object "addr option"
  | BucketClassList_Object "addr option"

definition BucketClaim_DeepCopyObject :: "'f apimachinery \<Rightarrow> addr option \<Rightarrow> ('f store, Object option) state" where
  "BucketClaim_DeepCopyObject lib p = do {
     c \<leftarrow> BucketClaim_DeepCopy lib p;
     if c \<noteq> None then ret (Some (BucketClaim_Object c)) else ret None }"

definition BucketClaimList_DeepCopyObject :: "'f apimachinery \<Rightarrow> addr option \<Rightarrow> ('f store, Object option) state" where
  "BucketClaimList_DeepCopyObject lib p = do {
     c \<leftarrow> BucketClaimList_DeepCopy lib p;
     if c \<noteq> None then ret (Some (BucketClaimList_Object c)) else ret None }"

definition BucketClass_DeepCopyObject :: "'f apimachinery \<Rightarrow> addr option \<Rightarrow> ('f store, Object option) state" where
  "BucketClass_DeepCopyObject lib p = do {
     c \<leftarrow> BucketClass_DeepCopy lib p;
     if c \<noteq> None then ret (Some (BucketClass_Object c)) else ret None }"

definition BucketClassList_DeepCopyObject :: "'f apimachinery \<Rightarrow> addr option \<Rightarrow> ('f store, Object option) state" where
  "BucketClassList_DeepCopyObject lib p = do {
     c \<leftarrow> BucketClassList_DeepCopy lib p;
     if c \<noteq> None then ret (Some (BucketClassList_Object c)) else ret None }"


section \<open>What the copies read as\<close>

text \<open>How the values of the types of apimachinery are read, which is the library's: a parameter.\<close>

record ('f, 'v) reading =
  rd_view :: "'f store \<Rightarrow> 'f \<Rightarrow> 'v"
  rd_ok :: "'f store \<Rightarrow> 'f \<Rightarrow> bool"
  rd_refs :: "'f store \<Rightarrow> 'f \<Rightarrow> addr set"
  rd_zero :: 'f

definition library_copies :: "('f, 'v) reading \<Rightarrow> 'f apimachinery \<Rightarrow> bool" where
  "library_copies R lib \<longleftrightarrow> rd_zero R = foreign_zero lib \<and>
     deep_copyable (rd_view R) (rd_ok R) (rd_refs R) (ObjectMeta_DeepCopyInto lib) \<and>
     deep_copyable (rd_view R) (rd_ok R) (rd_refs R) (ListMeta_DeepCopyInto lib) \<and>
     deep_copyable (rd_view R) (rd_ok R) (rd_refs R) (Quantity_DeepCopyInto lib) \<and>
     deep_copyable (rd_view R) (rd_ok R) (rd_refs R) (Condition_DeepCopyInto lib)"

lemma library_copiesD:
  assumes "library_copies R lib"
  shows "deep_copyable (rd_view R) (rd_ok R) (rd_refs R) (ObjectMeta_DeepCopyInto lib)"
    "deep_copyable (rd_view R) (rd_ok R) (rd_refs R) (ListMeta_DeepCopyInto lib)"
    "deep_copyable (rd_view R) (rd_ok R) (rd_refs R) (Quantity_DeepCopyInto lib)"
    "deep_copyable (rd_view R) (rd_ok R) (rd_refs R) (Condition_DeepCopyInto lib)"
  using assms by (simp_all add: library_copies_def)

abbreviation map_refs :: "'f store \<Rightarrow> addr \<Rightarrow> addr set" where
  "map_refs \<equiv> \<lambda>s a. {a}"

type_synonym 'v spec_view = "(string list option, 'v option, LifecycleRule list option, ReplicationTarget option) spec_struct"
type_synonym 'v status_view = "('v list option, ObjectReference option) status_struct"
type_synonym 'v claim_view = "('v, 'v spec_view, 'v status_view) claim_struct"
type_synonym 'v class_view = "('v, (string \<rightharpoonup> string) option, BucketPolicyRef option, SecretReference option) class_struct"

definition spec_view :: "('f, 'v) reading \<Rightarrow> 'f store \<Rightarrow> spec_mem \<Rightarrow> 'v spec_view" where
  "spec_view R s x = \<lparr>m_BucketClassName = m_BucketClassName x,
     m_Protocols = opt_view (slice_view strings_kind itself) s (m_Protocols x),
     m_SpecBucketName = m_SpecBucketName x,
     m_Quota = (opt_view (ptr_view (foreign_kind (rd_zero R)) (rd_view R))) s (m_Quota x),
     m_AccessType = m_AccessType x,
     m_LifecycleRules = opt_view (slice_view rules_kind itself) s (m_LifecycleRules x),
     m_ReplicationTarget = opt_view (ptr_view target_kind itself) s (m_ReplicationTarget x)\<rparr>"

definition spec_ok :: "('f, 'v) reading \<Rightarrow> 'f store \<Rightarrow> spec_mem \<Rightarrow> bool" where
  "spec_ok R s x \<longleftrightarrow> opt_ok (slice_ok strings_kind flat_ok) s (m_Protocols x) \<and>
     (opt_ok (ptr_ok (foreign_kind (rd_zero R)) (rd_ok R))) s (m_Quota x) \<and>
     opt_ok (slice_ok rules_kind flat_ok) s (m_LifecycleRules x) \<and>
     opt_ok (ptr_ok target_kind flat_ok) s (m_ReplicationTarget x)"

definition spec_refs :: "('f, 'v) reading \<Rightarrow> 'f store \<Rightarrow> spec_mem \<Rightarrow> addr set" where
  "spec_refs R s x = opt_refs (slice_refs strings_kind no_refs) s (m_Protocols x) \<union>
     (opt_refs (ptr_refs (foreign_kind (rd_zero R)) (rd_refs R))) s (m_Quota x) \<union>
     opt_refs (slice_refs rules_kind no_refs) s (m_LifecycleRules x) \<union>
     opt_refs (ptr_refs target_kind no_refs) s (m_ReplicationTarget x)"

lemma spec_copyable:
  assumes "library_copies R lib"
  shows "deep_copyable (spec_view R) (spec_ok R) (spec_refs R) (BucketClaimSpec_DeepCopyInto lib)"
proof -
  have z: "foreign_zero lib = rd_zero R" using assms by (simp add: library_copies_def)
  note lib = library_copiesD [OF assms]
  note parts = pair_copyable [OF
      opt_copyable [OF make_copyable [where z = "[]", OF lawful_kinds(1)]]
    pair_copyable [OF
      opt_copyable [OF new_copyable [where K = "foreign_kind (rd_zero R)", OF lawful_kinds(12) lib(3)]]
    pair_copyable [OF
      opt_copyable [OF make_copyable [where z = "zero_rule", OF lawful_kinds(2)]]
    opt_copyable [OF new_copyable [OF lawful_kinds(6) flat_copyable]]]]]
  show ?thesis
    by (rule struct_copyable [OF parts, where get = "\<lambda>x. (m_Protocols x, m_Quota x, m_LifecycleRules x, m_ReplicationTarget x)" 
        and put = "\<lambda>x (a, b, c, d). x\<lparr>m_Protocols := a, m_Quota := b, m_LifecycleRules := c, m_ReplicationTarget := d\<rparr>"
        and mk = "\<lambda>x (a, b, c, d). \<lparr>m_BucketClassName = m_BucketClassName x,
          m_Protocols = a,
          m_SpecBucketName = m_SpecBucketName x,
          m_Quota = b,
          m_AccessType = m_AccessType x,
          m_LifecycleRules = c,
          m_ReplicationTarget = d\<rparr>"])
      (auto simp: z spec_view_def spec_ok_def spec_refs_def BucketClaimSpec_DeepCopyInto_def State_Monad.bind_assoc)
qed

definition status_view :: "('f, 'v) reading \<Rightarrow> 'f store \<Rightarrow> status_mem \<Rightarrow> 'v status_view" where
  "status_view R s x = \<lparr>m_Conditions = opt_view (slice_view foreigns_kind (rd_view R)) s (m_Conditions x),
     m_BucketReady = m_BucketReady x,
     m_SecretReference = opt_view (ptr_view oref_kind itself) s (m_SecretReference x),
     m_Endpoint = m_Endpoint x,
     m_StatusBucketName = m_StatusBucketName x,
     m_Phase = m_Phase x\<rparr>"

definition status_ok :: "('f, 'v) reading \<Rightarrow> 'f store \<Rightarrow> status_mem \<Rightarrow> bool" where
  "status_ok R s x \<longleftrightarrow> opt_ok (slice_ok foreigns_kind (rd_ok R)) s (m_Conditions x) \<and>
     opt_ok (ptr_ok oref_kind flat_ok) s (m_SecretReference x)"

definition status_refs :: "('f, 'v) reading \<Rightarrow> 'f store \<Rightarrow> status_mem \<Rightarrow> addr set" where
  "status_refs R s x = opt_refs (slice_refs foreigns_kind (rd_refs R)) s (m_Conditions x) \<union>
     opt_refs (ptr_refs oref_kind no_refs) s (m_SecretReference x)"

lemma status_copyable:
  assumes "library_copies R lib"
  shows "deep_copyable (status_view R) (status_ok R) (status_refs R) (BucketClaimStatus_DeepCopyInto lib)"
proof -
  have z: "foreign_zero lib = rd_zero R" using assms by (simp add: library_copies_def)
  note lib = library_copiesD [OF assms]
  note parts = pair_copyable [OF
      opt_copyable [OF each_copyable [where z = "rd_zero R", OF lawful_kinds(3) lib(4)]]
    opt_copyable [OF new_copyable [OF lawful_kinds(7) flat_copyable]]]
  show ?thesis
    by (rule struct_copyable [OF parts, where get = "\<lambda>x. (m_Conditions x, m_SecretReference x)" 
        and put = "\<lambda>x (a, b). x\<lparr>m_Conditions := a, m_SecretReference := b\<rparr>"
        and mk = "\<lambda>x (a, b). \<lparr>m_Conditions = a,
          m_BucketReady = m_BucketReady x,
          m_SecretReference = b,
          m_Endpoint = m_Endpoint x,
          m_StatusBucketName = m_StatusBucketName x,
          m_Phase = m_Phase x\<rparr>"])
      (auto simp: z status_view_def status_ok_def status_refs_def BucketClaimStatus_DeepCopyInto_def State_Monad.bind_assoc)
qed

definition claim_view :: "('f, 'v) reading \<Rightarrow> 'f store \<Rightarrow> 'f claim_mem \<Rightarrow> 'v claim_view" where
  "claim_view R s x = \<lparr>m_ClaimType = m_ClaimType x,
     m_ClaimMeta = rd_view R s (m_ClaimMeta x),
     m_Spec = spec_view R s (m_Spec x),
     m_Status = status_view R s (m_Status x)\<rparr>"

definition claim_ok :: "('f, 'v) reading \<Rightarrow> 'f store \<Rightarrow> 'f claim_mem \<Rightarrow> bool" where
  "claim_ok R s x \<longleftrightarrow> rd_ok R s (m_ClaimMeta x) \<and>
     spec_ok R s (m_Spec x) \<and>
     status_ok R s (m_Status x)"

definition claim_refs :: "('f, 'v) reading \<Rightarrow> 'f store \<Rightarrow> 'f claim_mem \<Rightarrow> addr set" where
  "claim_refs R s x = rd_refs R s (m_ClaimMeta x) \<union>
     spec_refs R s (m_Spec x) \<union>
     status_refs R s (m_Status x)"

lemma claim_copyable:
  assumes "library_copies R lib"
  shows "deep_copyable (claim_view R) (claim_ok R) (claim_refs R) (BucketClaim_DeepCopyInto lib)"
proof -
  have z: "foreign_zero lib = rd_zero R" using assms by (simp add: library_copies_def)
  note lib = library_copiesD [OF assms]
  note parts = pair_copyable [OF
      lib(1)
    pair_copyable [OF
      spec_copyable [OF assms]
    status_copyable [OF assms]]]
  show ?thesis
    by (rule struct_copyable [OF parts, where get = "\<lambda>x. (m_ClaimMeta x, m_Spec x, m_Status x)" 
        and put = "\<lambda>x (a, b, c). x\<lparr>m_ClaimMeta := a, m_Spec := b, m_Status := c\<rparr>"
        and mk = "\<lambda>x (a, b, c). \<lparr>m_ClaimType = m_ClaimType x,
          m_ClaimMeta = a,
          m_Spec = b,
          m_Status = c\<rparr>"])
      (auto simp: z claim_view_def claim_ok_def claim_refs_def BucketClaim_DeepCopyInto_def State_Monad.bind_assoc)
qed

definition claimlist_view :: "('f, 'v) reading \<Rightarrow> 'f store \<Rightarrow> 'f list_mem \<Rightarrow> ('v, 'v claim_view list option) list_struct" where
  "claimlist_view R s x = \<lparr>m_ListType = m_ListType x,
     m_ListMeta = rd_view R s (m_ListMeta x),
     m_Items = opt_view (slice_view claims_kind (claim_view R)) s (m_Items x)\<rparr>"

definition claimlist_ok :: "('f, 'v) reading \<Rightarrow> 'f store \<Rightarrow> 'f list_mem \<Rightarrow> bool" where
  "claimlist_ok R s x \<longleftrightarrow> rd_ok R s (m_ListMeta x) \<and>
     opt_ok (slice_ok claims_kind (claim_ok R)) s (m_Items x)"

definition claimlist_refs :: "('f, 'v) reading \<Rightarrow> 'f store \<Rightarrow> 'f list_mem \<Rightarrow> addr set" where
  "claimlist_refs R s x = rd_refs R s (m_ListMeta x) \<union>
     opt_refs (slice_refs claims_kind (claim_refs R)) s (m_Items x)"

lemma claimlist_copyable:
  assumes "library_copies R lib"
  shows "deep_copyable (claimlist_view R) (claimlist_ok R) (claimlist_refs R) (BucketClaimList_DeepCopyInto lib)"
proof -
  have z: "foreign_zero lib = rd_zero R" using assms by (simp add: library_copies_def)
  note lib = library_copiesD [OF assms]
  note parts = pair_copyable [OF
      lib(2)
    opt_copyable [OF each_copyable [where z = "zero_claim_mem (rd_zero R)", OF lawful_kinds(13) claim_copyable [OF assms]]]]
  show ?thesis
    by (rule struct_copyable [OF parts, where get = "\<lambda>x. (m_ListMeta x, m_Items x)" 
        and put = "\<lambda>x (a, b). x\<lparr>m_ListMeta := a, m_Items := b\<rparr>"
        and mk = "\<lambda>x (a, b). \<lparr>m_ListType = m_ListType x,
          m_ListMeta = a,
          m_Items = b\<rparr>"])
      (auto simp: z claimlist_view_def claimlist_ok_def claimlist_refs_def BucketClaimList_DeepCopyInto_def State_Monad.bind_assoc)
qed

definition class_view :: "('f, 'v) reading \<Rightarrow> 'f store \<Rightarrow> 'f class_mem \<Rightarrow> 'v class_view" where
  "class_view R s x = \<lparr>m_ClassType = m_ClassType x,
     m_ClassMeta = rd_view R s (m_ClassMeta x),
     m_DriverName = m_DriverName x,
     m_Backend = m_Backend x,
     m_DeletionPolicy = m_DeletionPolicy x,
     m_ObjectLockingEnabled = m_ObjectLockingEnabled x,
     m_RetentionMode = m_RetentionMode x,
     m_RetentionDays = m_RetentionDays x,
     m_Parameters = opt_view map_view s (m_Parameters x),
     m_BucketPolicyRef = opt_view (ptr_view policy_kind itself) s (m_BucketPolicyRef x),
     m_MinioCredentialSecretRef = opt_view (ptr_view sref_kind itself) s (m_MinioCredentialSecretRef x),
     m_AwsCredentialSecretRef = opt_view (ptr_view sref_kind itself) s (m_AwsCredentialSecretRef x)\<rparr>"

definition class_ok :: "('f, 'v) reading \<Rightarrow> 'f store \<Rightarrow> 'f class_mem \<Rightarrow> bool" where
  "class_ok R s x \<longleftrightarrow> rd_ok R s (m_ClassMeta x) \<and>
     opt_ok (ptr_ok policy_kind flat_ok) s (m_BucketPolicyRef x) \<and>
     opt_ok (ptr_ok sref_kind flat_ok) s (m_MinioCredentialSecretRef x) \<and>
     opt_ok (ptr_ok sref_kind flat_ok) s (m_AwsCredentialSecretRef x) \<and>
     opt_ok map_ok s (m_Parameters x)"

definition class_refs :: "('f, 'v) reading \<Rightarrow> 'f store \<Rightarrow> 'f class_mem \<Rightarrow> addr set" where
  "class_refs R s x = rd_refs R s (m_ClassMeta x) \<union>
     opt_refs (ptr_refs policy_kind no_refs) s (m_BucketPolicyRef x) \<union>
     opt_refs (ptr_refs sref_kind no_refs) s (m_MinioCredentialSecretRef x) \<union>
     opt_refs (ptr_refs sref_kind no_refs) s (m_AwsCredentialSecretRef x) \<union>
     opt_refs map_refs s (m_Parameters x)"

lemma class_copyable:
  assumes "library_copies R lib"
  shows "deep_copyable (class_view R) (class_ok R) (class_refs R) (BucketClass_DeepCopyInto lib)"
proof -
  have z: "foreign_zero lib = rd_zero R" using assms by (simp add: library_copies_def)
  note lib = library_copiesD [OF assms]
  note parts = pair_copyable [OF
      lib(1)
    pair_copyable [OF
      opt_copyable [OF new_copyable [OF lawful_kinds(9) flat_copyable]]
    pair_copyable [OF
      opt_copyable [OF new_copyable [OF lawful_kinds(8) flat_copyable]]
    pair_copyable [OF
      opt_copyable [OF new_copyable [OF lawful_kinds(8) flat_copyable]]
    opt_copyable [OF map_copyable]]]]]
  show ?thesis
    by (rule struct_copyable [OF parts, where get = "\<lambda>x. (m_ClassMeta x, m_BucketPolicyRef x, m_MinioCredentialSecretRef x, m_AwsCredentialSecretRef x, m_Parameters x)" 
        and put = "\<lambda>x (a, b, c, d, e). x\<lparr>m_ClassMeta := a, m_BucketPolicyRef := b, m_MinioCredentialSecretRef := c, m_AwsCredentialSecretRef := d, m_Parameters := e\<rparr>"
        and mk = "\<lambda>x (a, b, c, d, e). \<lparr>m_ClassType = m_ClassType x,
          m_ClassMeta = a,
          m_DriverName = m_DriverName x,
          m_Backend = m_Backend x,
          m_DeletionPolicy = m_DeletionPolicy x,
          m_ObjectLockingEnabled = m_ObjectLockingEnabled x,
          m_RetentionMode = m_RetentionMode x,
          m_RetentionDays = m_RetentionDays x,
          m_Parameters = e,
          m_BucketPolicyRef = b,
          m_MinioCredentialSecretRef = c,
          m_AwsCredentialSecretRef = d\<rparr>"])
      (auto simp: z class_view_def class_ok_def class_refs_def BucketClass_DeepCopyInto_def State_Monad.bind_assoc)
qed

definition classlist_view :: "('f, 'v) reading \<Rightarrow> 'f store \<Rightarrow> 'f list_mem \<Rightarrow> ('v, 'v class_view list option) list_struct" where
  "classlist_view R s x = \<lparr>m_ListType = m_ListType x,
     m_ListMeta = rd_view R s (m_ListMeta x),
     m_Items = opt_view (slice_view classes_kind (class_view R)) s (m_Items x)\<rparr>"

definition classlist_ok :: "('f, 'v) reading \<Rightarrow> 'f store \<Rightarrow> 'f list_mem \<Rightarrow> bool" where
  "classlist_ok R s x \<longleftrightarrow> rd_ok R s (m_ListMeta x) \<and>
     opt_ok (slice_ok classes_kind (class_ok R)) s (m_Items x)"

definition classlist_refs :: "('f, 'v) reading \<Rightarrow> 'f store \<Rightarrow> 'f list_mem \<Rightarrow> addr set" where
  "classlist_refs R s x = rd_refs R s (m_ListMeta x) \<union>
     opt_refs (slice_refs classes_kind (class_refs R)) s (m_Items x)"

lemma classlist_copyable:
  assumes "library_copies R lib"
  shows "deep_copyable (classlist_view R) (classlist_ok R) (classlist_refs R) (BucketClassList_DeepCopyInto lib)"
proof -
  have z: "foreign_zero lib = rd_zero R" using assms by (simp add: library_copies_def)
  note lib = library_copiesD [OF assms]
  note parts = pair_copyable [OF
      lib(2)
    opt_copyable [OF each_copyable [where z = "zero_class_mem (rd_zero R)", OF lawful_kinds(14) class_copyable [OF assms]]]]
  show ?thesis
    by (rule struct_copyable [OF parts, where get = "\<lambda>x. (m_ListMeta x, m_Items x)" 
        and put = "\<lambda>x (a, b). x\<lparr>m_ListMeta := a, m_Items := b\<rparr>"
        and mk = "\<lambda>x (a, b). \<lparr>m_ListType = m_ListType x,
          m_ListMeta = a,
          m_Items = b\<rparr>"])
      (auto simp: z classlist_view_def classlist_ok_def classlist_refs_def BucketClassList_DeepCopyInto_def State_Monad.bind_assoc)
qed


section \<open>The copies are deep\<close>

interpretation params: deep_copyable map_view map_ok map_refs make_map
  by (rule map_copyable)

interpretation rules: deep_copyable "slice_view rules_kind itself" "slice_ok rules_kind flat_ok"
    "slice_refs rules_kind no_refs" "make_copy rules_kind zero_rule"
  by (rule make_copyable) simp

interpretation target: deep_copyable "ptr_view target_kind itself" "ptr_ok target_kind flat_ok"
    "ptr_refs target_kind no_refs" "new_copy target_kind ReplicationTarget_DeepCopyInto"
  unfolding ReplicationTarget_DeepCopyInto_def by (rule new_copyable) (simp_all add: flat_copyable)

text \<open>
  \<open>c\<close> is a deep copy of \<open>p\<close>: it reads the same, is made of new cells only, and nothing that was there
  before has changed.
\<close>

definition is_deep_copy ::
  "('f store \<Rightarrow> addr \<Rightarrow> 'v) \<Rightarrow> ('f store \<Rightarrow> addr \<Rightarrow> addr set) \<Rightarrow> 'f store \<Rightarrow> addr \<Rightarrow> 'f store \<Rightarrow> addr \<Rightarrow> bool" where
  "is_deep_copy view refs s p s' c \<longleftrightarrow>
     view s' c = view s p \<and> refs s' c \<subseteq> {length s..<length s'} \<and> take (length s) s' = s"

lemma deep_copy_of_pointer:
  assumes "lawful K" and "deep_copyable view ok refs into" and "ptr_ok K ok s p"
  shows "\<exists>c s'. run_state (if_set (new_copy K into) (Some p)) s = (Some c, s') \<and>
    is_deep_copy (ptr_view K view) (ptr_refs K refs) s p s' c"
proof -
  obtain c s' where run: "run_state (new_copy K into p) s = (c, s')" by fastforce
  from deep_copyable.copies [OF new_copyable [OF assms(1,2)] assms(3) run] run show ?thesis
    by (auto simp: if_set_def is_deep_copy_def)
qed

text \<open>A resource behind a pointer: how it reads, the cells it is read from, and that they are there.\<close>

definition claim_at :: "('f, 'v) reading \<Rightarrow> 'f store \<Rightarrow> addr \<Rightarrow> 'v claim_view" where
  "claim_at R = ptr_view (claim_kind (rd_zero R)) (claim_view R)"

definition claim_cells :: "('f, 'v) reading \<Rightarrow> 'f store \<Rightarrow> addr \<Rightarrow> addr set" where
  "claim_cells R = ptr_refs (claim_kind (rd_zero R)) (claim_refs R)"

definition claim_there :: "('f, 'v) reading \<Rightarrow> 'f store \<Rightarrow> addr \<Rightarrow> bool" where
  "claim_there R = ptr_ok (claim_kind (rd_zero R)) (claim_ok R)"

definition class_at :: "('f, 'v) reading \<Rightarrow> 'f store \<Rightarrow> addr \<Rightarrow> 'v class_view" where
  "class_at R = ptr_view (class_kind (rd_zero R)) (class_view R)"

definition class_cells :: "('f, 'v) reading \<Rightarrow> 'f store \<Rightarrow> addr \<Rightarrow> addr set" where
  "class_cells R = ptr_refs (class_kind (rd_zero R)) (class_refs R)"

definition class_there :: "('f, 'v) reading \<Rightarrow> 'f store \<Rightarrow> addr \<Rightarrow> bool" where
  "class_there R = ptr_ok (class_kind (rd_zero R)) (class_ok R)"

abbreviation "claimlist_at R \<equiv> ptr_view (claimlist_kind (rd_zero R)) (claimlist_view R)"
abbreviation "claimlist_cells R \<equiv> ptr_refs (claimlist_kind (rd_zero R)) (claimlist_refs R)"
abbreviation "claimlist_there R \<equiv> ptr_ok (claimlist_kind (rd_zero R)) (claimlist_ok R)"
abbreviation "classlist_at R \<equiv> ptr_view (classlist_kind (rd_zero R)) (classlist_view R)"
abbreviation "classlist_cells R \<equiv> ptr_refs (classlist_kind (rd_zero R)) (classlist_refs R)"
abbreviation "classlist_there R \<equiv> ptr_ok (classlist_kind (rd_zero R)) (classlist_ok R)"

lemma library_zero: "library_copies R lib \<Longrightarrow> foreign_zero lib = rd_zero R"
  by (simp add: library_copies_def)

lemma claim_pointer_copyable:
  assumes "library_copies R lib"
  shows "deep_copyable (claim_at R) (claim_there R) (claim_cells R)
     (new_copy (claim_kind (foreign_zero lib)) (BucketClaim_DeepCopyInto lib))"
  unfolding library_zero [OF assms] claim_at_def claim_there_def claim_cells_def
  by (rule new_copyable [OF lawful_kinds(15) claim_copyable [OF assms]])

lemma class_pointer_copyable:
  assumes "library_copies R lib"
  shows "deep_copyable (class_at R) (class_there R) (class_cells R)
     (new_copy (class_kind (foreign_zero lib)) (BucketClass_DeepCopyInto lib))"
  unfolding library_zero [OF assms] class_at_def class_there_def class_cells_def
  by (rule new_copyable [OF lawful_kinds(16) class_copyable [OF assms]])

text \<open>
  A library for the examples: a struct of apimachinery holds one reference, to the map of its labels.
\<close>

definition example_lib :: "addr option apimachinery" where
  "example_lib = \<lparr>ObjectMeta_DeepCopyInto = if_set make_map, ListMeta_DeepCopyInto = if_set make_map,
     Quantity_DeepCopyInto = if_set make_map, Condition_DeepCopyInto = if_set make_map, foreign_zero = None\<rparr>"

definition example_reading :: "(addr option, (string \<rightharpoonup> string) option) reading" where
  "example_reading = \<lparr>rd_view = opt_view map_view, rd_ok = opt_ok map_ok, rd_refs = opt_refs map_refs, rd_zero = None\<rparr>"

lemma example_library: "library_copies example_reading example_lib"
  using opt_copyable [OF map_copyable] by (simp add: library_copies_def example_reading_def example_lib_def)

interpretation example_claims: deep_copyable "claim_view example_reading" "claim_ok example_reading"
    "claim_refs example_reading" "BucketClaim_DeepCopyInto example_lib"
  by (rule claim_copyable [OF example_library])

text \<open>A claim with labels, two protocols in the middle of a larger array, and a replication target.\<close>

definition example_store :: "addr option store" where
  "example_store = [StringMap [(''app'', ''web'')], StringArray [''S3'', ''S3v4'', ''IAM''], TargetCell zero_target,
     ClaimCell ((zero_claim_mem (Some 0))\<lparr>m_Spec := zero_spec_mem
       \<lparr>m_Protocols := Some \<lparr>sl_array = 1, sl_off = 1, sl_len = 2\<rparr>, m_ReplicationTarget := Some 2\<rparr>\<rparr>)]"

lemma example_claim_there: "claim_there example_reading example_store 3"
  by code_simp

text \<open>C18. \<^verbatim>\<open>DeepCopy\<close> of a claim: the copy reads as the claim does, down to its quota, rules, replication target,
  conditions and secret reference. Whatever later happens to cells other than those that existed before the
  copy, the original still reads the same; whatever happens to cells other than its own, the copy does. So a
  write through either is not seen through the other.\<close>

theorem claim_deep_copy:
  assumes "library_copies R lib" and "claim_there R s p"
    and "run_state (BucketClaim_DeepCopy lib (Some p)) s = (q, s')"
  shows "\<exists>c. q = Some c \<and> claim_at R s' c = claim_at R s p \<and>
    claim_cells R s' c \<subseteq> {length s..<length s'} \<and> claim_cells R s' p \<inter> claim_cells R s' c = {} \<and>
    (\<forall>s''. (\<forall>a < length s. a < length s'' \<and> s'' ! a = s' ! a) \<longrightarrow> claim_at R s'' p = claim_at R s p) \<and>
    (\<forall>s''. (\<forall>a \<in> claim_cells R s' c. a < length s'' \<and> s'' ! a = s' ! a) \<longrightarrow> claim_at R s'' c = claim_at R s p)"
proof -
  note copyable = claim_pointer_copyable [OF assms(1)]
  obtain c where run: "run_state (new_copy (claim_kind (foreign_zero lib)) (BucketClaim_DeepCopyInto lib) p) s = (c, s')"
    and q: "q = Some c"
    using assms(3) by (auto simp: BucketClaim_DeepCopy_def if_set_def split: prod.splits)
  note ind = deep_copyable.independent [OF copyable assms(2) run]
  have "claim_cells R s' c \<subseteq> {length s..<length s'}"
    using deep_copyable.copies [OF copyable assms(2) run] by blast
  with q ind(2,3) ind(4,5) show ?thesis by blast
qed


theorem claim_deep_copy_witness:
  "\<exists>c s'. run_state (BucketClaim_DeepCopy example_lib (Some 3)) example_store = (Some c, s') \<and>
     claim_at example_reading s' c = claim_at example_reading example_store 3 \<and>
     claim_at example_reading (s'[2 := TargetCell (zero_target\<lparr>target_UseSSL := True\<rparr>)]) c =
       claim_at example_reading example_store 3"
proof -
  let ?w = "TargetCell (zero_target\<lparr>target_UseSSL := True\<rparr>)"
  obtain q s' where run: "run_state (BucketClaim_DeepCopy example_lib (Some 3)) example_store = (q, s')"
    by fastforce
  from claim_deep_copy [OF example_library example_claim_there this] obtain c where
    c: "q = Some c" "claim_at example_reading s' c = claim_at example_reading example_store 3"
      "claim_cells example_reading s' c \<subseteq> {length example_store..<length s'}"
    and keeps: "\<And>s''. (\<forall>a \<in> claim_cells example_reading s' c. a < length s'' \<and> s'' ! a = s' ! a) \<Longrightarrow>
      claim_at example_reading s'' c = claim_at example_reading example_store 3"
    by blast
  from c(3) have "\<forall>a \<in> claim_cells example_reading s' c. a < length (s'[2 := ?w]) \<and> s'[2 := ?w] ! a = s' ! a"
    by (auto simp: example_store_def)
  from keeps [OF this] c run show ?thesis by blast
qed

text \<open>The structs that a resource holds are copied the same way by their own \<^verbatim>\<open>DeepCopy\<close>.\<close>

definition copies_pointer ::
  "(addr option \<Rightarrow> ('f store, addr option) state) \<Rightarrow> ('f store \<Rightarrow> addr \<Rightarrow> bool) \<Rightarrow>
     ('f store \<Rightarrow> addr \<Rightarrow> 'v) \<Rightarrow> ('f store \<Rightarrow> addr \<Rightarrow> addr set) \<Rightarrow> bool" where
  "copies_pointer m there view cells \<longleftrightarrow>
     (\<forall>s. run_state (m None) s = (None, s)) \<and>
     (\<forall>s p. there s p \<longrightarrow> (\<exists>c s'. run_state (m (Some p)) s = (Some c, s') \<and> is_deep_copy view cells s p s' c))"

lemma copies_pointer_intro:
  assumes "lawful K" and "deep_copyable view ok refs into"
  shows "copies_pointer (if_set (new_copy K into)) (ptr_ok K ok) (ptr_view K view) (ptr_refs K refs)"
  using deep_copy_of_pointer [OF assms] by (simp add: copies_pointer_def) (simp add: if_set_def)

lemma spec_and_status_deep_copies:
  assumes "library_copies R lib"
  shows "copies_pointer (BucketClaimSpec_DeepCopy lib) (ptr_ok spec_kind (spec_ok R))
      (ptr_view spec_kind (spec_view R)) (ptr_refs spec_kind (spec_refs R))"
    and "copies_pointer (BucketClaimStatus_DeepCopy lib) (ptr_ok status_kind (status_ok R))
      (ptr_view status_kind (status_view R)) (ptr_refs status_kind (status_refs R))"
  unfolding BucketClaimSpec_DeepCopy_def BucketClaimStatus_DeepCopy_def
  by (rule copies_pointer_intro [OF lawful_kinds(10) spec_copyable [OF assms]])
    (rule copies_pointer_intro [OF lawful_kinds(11) status_copyable [OF assms]])

lemmas flat_pointer_copies = copies_pointer_intro [OF _ flat_copyable]

lemma flat_into:
  "LifecycleExpiration_DeepCopyInto = ret" "LifecycleRule_DeepCopyInto = ret" "ReplicationTarget_DeepCopyInto = ret"
  by (simp_all add: fun_eq_iff LifecycleExpiration_DeepCopyInto_def LifecycleRule_DeepCopyInto_def
      ReplicationTarget_DeepCopyInto_def Let_def)

lemma flat_deep_copies:
  "copies_pointer LifecycleExpiration_DeepCopy (ptr_ok expiration_kind flat_ok)
     (ptr_view expiration_kind itself) (ptr_refs expiration_kind no_refs)"
  "copies_pointer LifecycleRule_DeepCopy (ptr_ok rule_kind flat_ok)
     (ptr_view rule_kind itself) (ptr_refs rule_kind no_refs)"
  "copies_pointer ReplicationTarget_DeepCopy (ptr_ok target_kind flat_ok)
     (ptr_view target_kind itself) (ptr_refs target_kind no_refs)"
  unfolding LifecycleExpiration_DeepCopy_def LifecycleRule_DeepCopy_def ReplicationTarget_DeepCopy_def flat_into
  by (rule flat_pointer_copies, simp)+

text \<open>
  A \<^verbatim>\<open>DeepCopyObject\<close> as it should be: the nil interface for nil, otherwise an object of that dynamic type
  whose pointer, not nil, is that of a deep copy.
\<close>

definition copies_object ::
  "(addr option \<Rightarrow> ('f store, Object option) state) \<Rightarrow> (addr option \<Rightarrow> Object) \<Rightarrow> ('f store \<Rightarrow> addr \<Rightarrow> bool) \<Rightarrow>
     ('f store \<Rightarrow> addr \<Rightarrow> 'v) \<Rightarrow> ('f store \<Rightarrow> addr \<Rightarrow> addr set) \<Rightarrow> bool" where
  "copies_object m obj there view cells \<longleftrightarrow>
     (\<forall>s. run_state (m None) s = (None, s)) \<and>
     (\<forall>s p. there s p \<longrightarrow> (\<exists>c s'. run_state (m (Some p)) s = (Some (obj (Some c)), s') \<and>
        is_deep_copy view cells s p s' c))"

lemma copies_object_intro:
  assumes "lawful K" and "deep_copyable view ok refs into"
    and "\<And>p. m p = do { c \<leftarrow> if_set (new_copy K into) p; if c \<noteq> None then ret (Some (obj c)) else ret None }"
  shows "copies_object m obj (ptr_ok K ok) (ptr_view K view) (ptr_refs K refs)"
  using deep_copy_of_pointer [OF assms(1,2)]
  by (fastforce simp: copies_object_def assms(3) if_set_def split: prod.splits)

text \<open>C19. \<^verbatim>\<open>DeepCopyObject\<close> of each of the four kinds of object: nil gives the nil interface, never an interface
  that holds a nil pointer; otherwise the object has the same dynamic type, and is a deep copy: it reads the
  same, is made of new cells only, for a list down to every item, and changes nothing that was there.\<close>

theorem deep_copy_object:
  assumes "library_copies R lib"
  shows "copies_object (BucketClaim_DeepCopyObject lib) BucketClaim_Object (claim_there R) (claim_at R) (claim_cells R) \<and>
    copies_object (BucketClass_DeepCopyObject lib) BucketClass_Object (class_there R) (class_at R) (class_cells R) \<and>
    copies_object (BucketClaimList_DeepCopyObject lib) BucketClaimList_Object
      (claimlist_there R) (claimlist_at R) (claimlist_cells R) \<and>
    copies_object (BucketClassList_DeepCopyObject lib) BucketClassList_Object
      (classlist_there R) (classlist_at R) (classlist_cells R)"
  unfolding claim_there_def claim_at_def claim_cells_def class_there_def class_at_def class_cells_def
  by (intro conjI copies_object_intro [OF lawful_kinds(15) claim_copyable [OF assms]]
      copies_object_intro [OF lawful_kinds(16) class_copyable [OF assms]]
      copies_object_intro [OF lawful_kinds(17) claimlist_copyable [OF assms]]
      copies_object_intro [OF lawful_kinds(18) classlist_copyable [OF assms]])
    (simp_all only: library_zero [OF assms] BucketClaim_DeepCopyObject_def BucketClaim_DeepCopy_def
      BucketClass_DeepCopyObject_def BucketClass_DeepCopy_def BucketClaimList_DeepCopyObject_def
      BucketClaimList_DeepCopy_def BucketClassList_DeepCopyObject_def BucketClassList_DeepCopy_def)

text \<open>A list of two items over the same memory, which share their labels.\<close>

definition example_list_store :: "addr option store" where
  "example_list_store = example_store @
     [ClaimArray [zero_claim_mem (Some 0), (zero_claim_mem (Some 0))\<lparr>m_Spec := zero_spec_mem
        \<lparr>m_ReplicationTarget := Some 2\<rparr>\<rparr>],
      ClaimListCell ((zero_list_mem None)\<lparr>m_Items := Some \<lparr>sl_array = 4, sl_off = 0, sl_len = 2\<rparr>\<rparr>)]"

lemma example_list_there: "claimlist_there example_reading example_list_store 5"
  by code_simp

theorem deep_copy_object_witness:
  "run_state (BucketClaimList_DeepCopyObject example_lib None) example_list_store = (None, example_list_store) \<and>
   (\<exists>c s'. run_state (BucketClaimList_DeepCopyObject example_lib (Some 5)) example_list_store =
        (Some (BucketClaimList_Object (Some c)), s') \<and>
      is_deep_copy (claimlist_at example_reading) (claimlist_cells example_reading) example_list_store 5 s' c)"
  using deep_copy_object [OF example_library] example_list_there by (simp add: copies_object_def)

end
