(* ===== verification/Spec2Isabelle.thy ===== *)
theory Spec2Isabelle
  imports Interleaving Access_Completion Json_Fuel Deep_Copy
begin

text \<open>
  A verification library for k8s-s3-bucket-operator, a Kubernetes operator written in Go that provisions S3
  buckets on MinIO or AWS for \<^verbatim>\<open>BucketClaim\<close> objects, grants access to them, and serves the same as a
  COSI driver over gRPC.

  \<^bold>\<open>The program.\<close> \<^verbatim>\<open>main\<close> (cmd/main.go) builds a default MinIO client from the environment, a resolver that
  finds the storage provider of a \<^verbatim>\<open>BucketClass\<close>, the reconciler of claims, and, with COSI enabled, the
  reconciler of \<^verbatim>\<open>BucketAccess\<close> objects and the COSI server. A reconciler reads its object, resolves a
  provider, calls provisioning, and writes Secrets and the object's status. Provisioning turns a claim and its
  class into calls of the provider interface, which the MinIO client and the AWS backend implement.

  \<^bold>\<open>How it is modelled.\<close> An operation with an effect is a value of the state monad over a world \<open>'w\<close> (Kubernetes
  and the backends), or over the operator's own state \<open>op_state\<close>: the world, the resolver's two caches and the
  metrics counted so far. An error is a value of \<open>go_error\<close>, which keeps its chain, its type and its text; a
  fallible function yields \<open>go_error + 'a\<close> or \<open>go_error option\<close>. A run-time panic is the value \<open>ErrPanic\<close>.
  Strings are lists of bytes; 32- and 64-bit integers are words. The SDKs of MinIO and AWS, the Kubernetes
  client with the helpers of controller-runtime and apimachinery, the manager, the libraries' own flags, the file system and
  \<^verbatim>\<open>resource.ParseQuantity\<close> are records of operations or functions the definitions take as arguments; what a
  theorem needs of them is a named predicate (\<open>store_laws\<close>, \<open>admin_laws\<close>, \<open>condition_laws\<close>, \<open>claim_store\<close>,
  \<open>object_store\<close>, \<open>classes_retain\<close>, \<open>buckets_retain\<close>, \<open>resolver_store\<close>, \<open>minio_calls_keep\<close>, \<open>aws_calls_keep\<close>, \<open>cluster_tolerates\<close>, \<open>backend_tolerates\<close>,
  \<open>cluster_releases\<close>, \<open>cluster_grants\<close>, \<open>cluster_lets_go\<close>, \<open>versioned\<close>,
  \<open>library_copies\<close>), and the in-memory
  cluster and servers of \<open>Kube\<close> and \<open>Minio_Client\<close> satisfy them in the witnesses.

  \<^bold>\<open>The theories\<close>, in the order of their dependencies:
  \<^item> \<open>Prelude\<close>: maps, the state monad with its rules \<open>run_simps\<close>, and \<open>keeps\<close>, the invariants of an operation.
  \<^item> \<open>Go_Errors\<close>, \<open>Unicode_Case\<close>, \<open>Go_Strings\<close>, \<open>Json\<close>, \<open>Json_Roundtrip\<close>, \<open>Json_Fuel\<close>, \<open>Sha1\<close>: the parts of Go's standard
    library the code uses, among them UTF-8 decoding, case mapping, \<^verbatim>\<open>TrimSpace\<close>, \<^verbatim>\<open>%q\<close>, JSON and SHA-1; with the
    round trip of printing and parsing JSON.
  \<^item> \<open>Api_Types\<close> (api/v1alpha1), \<open>Backend_Kind\<close> (internal/backend/kind.go, capabilities.go), \<open>Provider_Interface\<close>
    (internal/backend/provider.go): the resources, the backend kinds and the provider record.
  \<^item> \<open>Contracts\<close>: the locales \<open>account_name\<close>, \<open>secret_config\<close> and \<open>bucket_provider\<close>, the interfaces between the
    components; interpreted for both backends and for the BucketAccess controller on the model of their code.
  \<^item> \<open>Iam_Policy\<close>: what an S3 policy document allows, the specification of the generated policies.
  \<^item> \<open>Provisioning\<close> and \<open>Claim_Extensions\<close> (internal/provisioning): provisioning, granting, revoking, finalizing, the
    classification of errors, and the extensions of a claim by a request's parameters. A plan of steps is the
    abstract specification that provisioning refines.
  \<^item> \<open>Minio_Client\<close> (internal/minio), \<open>Aws_Provider\<close> (internal/backend/aws): the two backends. A grant refines the
    abstract grant on a server's users and policies, and the policies are proved against \<open>Iam_Policy\<close>.
  \<^item> \<open>Kube\<close>, \<open>Resolver\<close> (internal/backend/resolve): the Kubernetes client, the operator's state, and the resolver with
    its caches, proved equal to resolving without them.
  \<^item> \<open>Bucketclaim_Controller\<close> (internal/controller/bucketclaim\_controller.go, metrics.go): one definition per stage
    of \<^verbatim>\<open>Reconcile\<close> and per helper; the status invariant and retention. \<open>Claim_Properties\<close>: deletion, the steady state,
    the metrics, messages and failure reports. \<open>Claim_Progress\<close>: where all but finitely many calls succeed, a
    \<^verbatim>\<open>Reconcile\<close> binds the claim or uses up a fault, and the retries end with the claim bound. \<open>Completion\<close>: so do
    those of a deletion, with the claim let go after its backend was cleaned up.
  \<^item> \<open>Bucketaccess_Controller\<close> (internal/controller/bucketaccess\_controller.go): grants and revocations for
    BucketAccess objects, the key that travels through the Secret, and the order of grant, Secret and status.
    \<open>Access_Completion\<close>: with finitely many faults every BucketAccess ends granted, or let go where it is being
    deleted.
  \<^item> \<open>Cosi_Server\<close> (internal/cosi): the naming, the error codes and the five handlers; the round trips of create
    and delete and of grant and revoke, the deletion policy, and the type of the errors.
  \<^item> \<open>Go_Flags\<close>: the parser of Go's \<^verbatim>\<open>flag\<close> package. \<open>Operator\<close> (\<^verbatim>\<open>Start\<close> of internal/cosi/server.go, cmd/main.go,
    api/v1alpha1/groupversion\_info.go and the \<^verbatim>\<open>init\<close> functions): the socket, the command line with its round trip,
    the environment, the wiring and the exit codes.
  \<^item> \<open>Operator_System\<close>: the running operator as a step relation, in which reconcilers, handlers, restarts and
    foreign changes interleave; an invariant of the world, and retention, through every kind of step. \<open>Interleaving\<close>: the
    same operator while others act before every single call to the API server, MinIO or AWS, every world a call
    sees or leaves being recorded; the status invariant and retention over all of them. A concurrent run is one of
    those others.
  \<^item> \<open>Memory\<close> and \<open>Deep_Copy\<close> (api/v1alpha1/zz\_generated.deepcopy.go): the generated deep copies. Everywhere else
    values are immutable; here memory is a store of cells, pointers and slices are addresses, and the locale
    \<open>deep_copyable\<close> is what a copy promises: it reads the same and shares no cell with the original.

  \<^bold>\<open>Termination and fuel.\<close> All definitions are total, except the loop of retries \<open>until_done\<close>, a
  \<open>while_option\<close> that yields \<open>None\<close> where it does not end; \<open>until_done_ends\<close> proves that it does, within one run
  more than there are faults to come, for every action each of whose runs is the last or uses up a fault. The JSON
  parser recurses with fuel \<open>2 * length + 1\<close>: a level of nesting takes two units and at least one character, and \<open>json_members_fuel\<close> proves that more fuel changes nothing,
  so a rejected text is invalid and not merely long. Decoding UTF-8, trimming and the loops over keys recurse on
  what is left.

  \<^bold>\<open>Not modelled.\<close> Log lines; contexts and their cancellation inside a call; the duration a metric observes; the mutexes of
  the resolver, whose critical sections are single steps (another run changes the caches only between two steps of
  \<open>Operator_System\<close>); in JSON the rounding of numbers, the limit on nesting and the texts of errors; what the flags of
  the libraries do, and what the libraries do with the controllers, kinds and collectors they are handed at start-up.
\<close>

end
